(* ===== verification/Tetris_Prelude.thy ===== *)
theory Tetris_Prelude
  imports Complex_Main "HOL-Library.AList"
begin

text \<open>
  Shared vocabulary of the Tetris development: the Python values the program
  in \<^verbatim>\<open>src/tetris.py\<close> computes with, and the facts about them that the
  component theories use.

  \<^item> Exceptions are values: \<open>py_error\<close> lists the three exceptions the program
    can meet (a list subscript out of range, a missing dictionary key, the
    \<^verbatim>\<open>SystemExit\<close> of \<^verbatim>\<open>sys.exit\<close>), \<open>'a result\<close> is \<open>py_error + 'a\<close> and
    \<open>bind_result\<close> sequences two fallible steps.
  \<^item> A Python \<^verbatim>\<open>dict\<close> is an association list with distinct keys, in insertion
    order (\<open>dict_wf\<close>); \<open>dict_set\<close>, \<open>dict_pop\<close> and \<open>dict_del\<close> are the three
    mutations the program performs, \<open>map_of\<close> is the abstraction to a finite map.
  \<^item> Grid coordinates are pairs of (unbounded) integers, colours are RGB triples.

  The collections \<open>game_consts\<close>, \<open>dict_simps\<close> and \<open>dict_wf_intros\<close> carry the
  routine rewriting of the component proofs.
\<close>

section \<open>Fact collections\<close>

named_theorems game_consts "numeric values of the constants of the game"
named_theorems dict_simps "the dictionary operations seen through map_of"
named_theorems dict_wf_intros "the dictionary operations keep keys distinct"

section \<open>Exceptions as values\<close>

datatype py_error = IndexError | KeyError | SystemExit

type_synonym 'a result = "py_error + 'a"

definition bind_result :: "'a result \<Rightarrow> ('a \<Rightarrow> 'b result) \<Rightarrow> 'b result" where
  "bind_result r f = (case r of Inl e \<Rightarrow> Inl e | Inr v \<Rightarrow> f v)"

definition is_ok :: "'a result \<Rightarrow> bool" where
  "is_ok r = (case r of Inl e \<Rightarrow> False | Inr v \<Rightarrow> True)"

fun fold_result :: "('a \<Rightarrow> 's \<Rightarrow> 's result) \<Rightarrow> 'a list \<Rightarrow> 's \<Rightarrow> 's result" where
  "fold_result f [] s = Inr s"
| "fold_result f (a # as) s = bind_result (f a s) (fold_result f as)"

section \<open>Python lists\<close>

type_synonym coord = "int \<times> int"
type_synonym color = "int \<times> int \<times> int"

definition py_index :: "'a list \<Rightarrow> int \<Rightarrow> 'a result" where
  "py_index xs i =
     (if 0 \<le> i \<and> i < int (length xs) then Inr (xs ! nat i)
      else if - int (length xs) \<le> i \<and> i < 0 then Inr (xs ! nat (int (length xs) + i))
      else Inl IndexError)"

definition py_range :: "int \<Rightarrow> int list" where
  "py_range n = [0..n - 1]"

section \<open>Python dictionaries\<close>

type_synonym ('k, 'v) dict = "('k \<times> 'v) list"

abbreviation dict_wf :: "('k, 'v) dict \<Rightarrow> bool" where
  "dict_wf d \<equiv> distinct (map fst d)"

definition dict_keys :: "('k, 'v) dict \<Rightarrow> 'k list" where
  "dict_keys d = map fst d"

definition dict_set :: "'k \<Rightarrow> 'v \<Rightarrow> ('k, 'v) dict \<Rightarrow> ('k, 'v) dict" where
  "dict_set k v d = AList.update k v d"

definition dict_pop :: "'k \<Rightarrow> ('k, 'v) dict \<Rightarrow> ('v \<times> ('k, 'v) dict) result" where
  "dict_pop k d =
     (case map_of d k of None \<Rightarrow> Inl KeyError | Some v \<Rightarrow> Inr (v, AList.delete k d))"

definition dict_del :: "'k \<Rightarrow> ('k, 'v) dict \<Rightarrow> ('k, 'v) dict result" where
  "dict_del k d = (case map_of d k of None \<Rightarrow> Inl KeyError | Some v \<Rightarrow> Inr (AList.delete k d))"

section \<open>Lemmas: exceptions as values\<close>

lemma bind_result_Inl [simp]: "bind_result (Inl e) f = Inl e"
  by (simp add: bind_result_def)

lemma bind_result_Inr [simp]: "bind_result (Inr v) f = f v"
  by (simp add: bind_result_def)

lemma bind_result_eq_Inr:
  "bind_result r f = Inr w \<longleftrightarrow> (\<exists>v. r = Inr v \<and> f v = Inr w)"
  by (cases r) simp_all

lemma bind_result_eq_Inl:
  "bind_result r f = Inl e \<longleftrightarrow> r = Inl e \<or> (\<exists>v. r = Inr v \<and> f v = Inl e)"
  by (cases r) simp_all

lemma is_ok_simps [simp]: "is_ok (Inr v)" "\<not> is_ok (Inl e)"
  by (simp_all add: is_ok_def)

lemma is_ok_iff: "is_ok r \<longleftrightarrow> (\<exists>v. r = Inr v)"
  by (cases r) simp_all

lemma fold_result_append:
  "fold_result f (as @ bs) s = bind_result (fold_result f as s) (fold_result f bs)"
  by (induction as arbitrary: s) (simp_all add: bind_result_def split: sum.splits)

lemma fold_result_total:
  "(\<And>a s. f a s = Inr (g a s)) \<Longrightarrow> fold_result f as s = Inr (fold g as s)"
  by (induction as arbitrary: s) simp_all

section \<open>Lemmas: Python lists\<close>

lemma py_index_in_range:
  "0 \<le> i \<Longrightarrow> i < int (length xs) \<Longrightarrow> py_index xs i = Inr (xs ! nat i)"
  by (simp add: py_index_def)

lemma py_index_nat [simp]:
  "py_index xs (int n) = (if n < length xs then Inr (xs ! n) else Inl IndexError)"
  by (simp add: py_index_def)

lemma py_index_ok_iff:
  "is_ok (py_index xs i) \<longleftrightarrow> - int (length xs) \<le> i \<and> i < int (length xs)"
  by (auto simp: py_index_def)

lemma py_index_mem: "py_index xs i = Inr v \<Longrightarrow> v \<in> set xs"
  by (auto simp: py_index_def split: if_splits)

lemma set_py_range [simp]: "set (py_range n) = {0..<n}"
  by (auto simp: py_range_def)

lemma distinct_py_range [simp]: "distinct (py_range n)"
  by (simp add: py_range_def)

lemma length_py_range [simp]: "length (py_range n) = nat n"
  by (simp add: py_range_def)

lemma sorted_py_range [simp]: "sorted (py_range n)"
  by (simp add: py_range_def)

lemma nth_update_row:
  "i < length g \<Longrightarrow>
   g[i := (g ! i)[j := v]] ! i' ! j' =
     (if i' = i \<and> j' = j \<and> j < length (g ! i) then v else g ! i' ! j')"
  by (cases "i' = i") (auto simp: list_update_beyond)

text \<open>A loop that appends to a list is the list of what it appends.\<close>

lemma fold_append: "fold (\<lambda>x s. s @ f x) xs s = s @ concat (map f xs)"
  by (induction xs arbitrary: s) simp_all

lemma concat_map_single:
  "distinct xs \<Longrightarrow> a \<in> set xs \<Longrightarrow> \<forall>x \<in> set xs. x \<noteq> a \<longrightarrow> f x = [] \<Longrightarrow>
     concat (map f xs) = f a"
  by (induction xs) (auto simp: concat_eq_Nil_conv)

lemma concat_concat: "concat (concat xss) = concat (map concat xss)"
  by (induction xss) simp_all

text \<open>A timer that is still short of its limit after one more interval needs
  fewer intervals than before.\<close>

lemma ceiling_decrease:
  fixes a b :: real
  assumes "0 < b" and "b \<le> a - 1"
  shows "nat \<lceil>b\<rceil> < nat \<lceil>a\<rceil>"
proof -
  from assms(2) have "\<lceil>b\<rceil> \<le> \<lceil>a\<rceil> - 1" using ceiling_mono [of b "a - 1"] by simp
  moreover from assms(1) have "0 < \<lceil>b\<rceil>" by simp
  ultimately show ?thesis unfolding zless_nat_conj by linarith
qed

section \<open>Lemmas: Python dictionaries\<close>

lemma set_dict_keys [simp]: "set (dict_keys d) = fst ` set d"
  by (simp add: dict_keys_def)

lemma distinct_dict_keys [simp]: "distinct (dict_keys d) = dict_wf d"
  by (simp add: dict_keys_def)

lemma dom_map_of_keys: "dom (map_of d) = fst ` set d"
  by (simp add: dom_map_of_conv_image_fst)

lemma map_of_None_iff: "map_of d k = None \<longleftrightarrow> k \<notin> fst ` set d"
  by (simp add: map_of_eq_None_iff)

lemma map_of_dict_set [dict_simps]: "map_of (dict_set k v d) = (map_of d)(k \<mapsto> v)"
  by (simp add: dict_set_def update_conv')

lemma map_of_dict_delete [dict_simps]: "map_of (AList.delete k d) = (map_of d)(k := None)"
  by (rule delete_conv')

lemma keys_dict_set [dict_simps]: "fst ` set (dict_set k v d) = insert k (fst ` set d)"
  by (simp add: dict_set_def dom_update)

lemma keys_delete [dict_simps]: "fst ` set (AList.delete k d) = fst ` set d - {k}"
  by (auto simp: AList.delete_eq)

lemma dict_wf_dict_set [dict_wf_intros]: "dict_wf d \<Longrightarrow> dict_wf (dict_set k v d)"
  by (simp add: dict_set_def distinct_update)

lemma dict_wf_delete [dict_wf_intros]: "dict_wf d \<Longrightarrow> dict_wf (AList.delete k d)"
  by (rule distinct_delete)

lemma length_dict_set:
  "length (dict_set k v d) = (if k \<in> fst ` set d then length d else Suc (length d))"
  unfolding dict_set_def by (induction d) auto

lemma length_delete:
  "dict_wf d \<Longrightarrow> length (AList.delete k d) = (if k \<in> fst ` set d then length d - 1 else length d)"
  by (induction d) (auto simp: AList.delete_eq rev_image_eqI dest: length_pos_if_in_set)

lemma dict_pop_eq_Inr:
  "dict_pop k d = Inr (v, d') \<longleftrightarrow> map_of d k = Some v \<and> d' = AList.delete k d"
  by (auto simp: dict_pop_def split: option.splits)

lemma dict_pop_eq_Inl: "dict_pop k d = Inl e \<longleftrightarrow> e = KeyError \<and> k \<notin> fst ` set d"
  by (auto simp: dict_pop_def map_of_None_iff [symmetric] split: option.splits)

lemma map_of_Some_key: "map_of d k = Some v \<Longrightarrow> k \<in> fst ` set d"
  by (metis map_of_None_iff option.distinct(1))

lemma map_of_key_Some: "k \<in> fst ` set d \<Longrightarrow> \<exists>v. map_of d k = Some v"
  by (metis map_of_None_iff not_Some_eq)

lemma dict_del_eq_Inr: "dict_del k d = Inr d' \<longleftrightarrow> k \<in> fst ` set d \<and> d' = AList.delete k d"
  by (auto simp: dict_del_def map_of_None_iff split: option.splits dest: map_of_Some_key)

lemma dict_del_eq_Inl: "dict_del k d = Inl e \<longleftrightarrow> e = KeyError \<and> k \<notin> fst ` set d"
  by (auto simp: dict_del_def map_of_None_iff [symmetric] split: option.splits)

lemma map_of_entry: "dict_wf d \<Longrightarrow> map_of d k = Some v \<longleftrightarrow> (k, v) \<in> set d"
  by simp

text \<open>Renaming the keys of a dictionary by a function that is injective on them.\<close>

lemma map_of_rename_key:
  "inj_on f (fst ` set d) \<Longrightarrow> k \<in> fst ` set d \<Longrightarrow>
   map_of (map (\<lambda>(k, v). (f k, v)) d) (f k) = map_of d k"
  by (induction d) (auto simp: inj_on_def rev_image_eqI)

lemma map_of_rename_None:
  "q \<notin> f ` fst ` set d \<Longrightarrow> map_of (map (\<lambda>(k, v). (f k, v)) d) q = None"
  by (induction d) auto

lemma dict_wf_rename:
  "inj_on f (fst ` set d) \<Longrightarrow> dict_wf d \<Longrightarrow> dict_wf (map (\<lambda>(k, v). (f k, v)) d)"
  by (simp add: distinct_map comp_def case_prod_beta inj_on_def)

lemma keys_rename: "fst ` set (map (\<lambda>(k, v). (f k, v)) d) = f ` fst ` set d"
  by force


end
