(* ===== verification/Shape_Catalog.thy ===== *)
theory Shape_Catalog
  imports Tetris_Prelude
begin

text \<open>
  The constants of the game and the catalogue of the seven tetrominoes
  (\<^verbatim>\<open>src/tetris.py\<close>, lines 9--95). A shape is the list of its four rotation
  states, a rotation state the list of its four \<open>(dx, dy)\<close> offsets from the
  pivot, in the order the source writes them. The source's names \<^verbatim>\<open>I\<close>, \<^verbatim>\<open>O\<close>,
  \<^verbatim>\<open>T\<close>, \<dots> become \<open>shape_I\<close>, \<open>shape_O\<close>, \<open>shape_T\<close>, \<dots>

  The lemmas show that the table is well formed (\<open>shape_ok\<close>: four states of
  four distinct offsets, every offset within two cells of the pivot, every
  state edge-connected), how the states of one shape are related (a quarter
  turn for T, J and L; two alternating states for I, S and Z; one state for O)
  and that no piece colour is the colour \<open>BLACK\<close> of an empty cell.
\<close>

section \<open>Game constants\<close>

definition GRID_WIDTH :: int where
  "GRID_WIDTH = 10"

definition GRID_HEIGHT :: int where
  "GRID_HEIGHT = 20"

definition BLACK :: color where
  "BLACK = (0, 0, 0)"

section \<open>Colours and shapes\<close>

type_synonym rotation_state = "coord list"
type_synonym shape = "rotation_state list"

definition COLOR_I :: color where "COLOR_I = (0, 240, 240)"
definition COLOR_O :: color where "COLOR_O = (240, 240, 0)"
definition COLOR_T :: color where "COLOR_T = (160, 0, 240)"
definition COLOR_S :: color where "COLOR_S = (0, 240, 0)"
definition COLOR_Z :: color where "COLOR_Z = (240, 0, 0)"
definition COLOR_J :: color where "COLOR_J = (0, 0, 240)"
definition COLOR_L :: color where "COLOR_L = (240, 160, 0)"

definition shape_I :: shape where
  "shape_I =
    [[(0, 0), (-1, 0), (1, 0), (2, 0)],
     [(0, 0), (0, -1), (0, 1), (0, 2)],
     [(0, 0), (-1, 0), (1, 0), (2, 0)],
     [(0, 0), (0, -1), (0, 1), (0, 2)]]"

definition shape_O :: shape where
  "shape_O =
    [[(0, 0), (1, 0), (0, 1), (1, 1)],
     [(0, 0), (1, 0), (0, 1), (1, 1)],
     [(0, 0), (1, 0), (0, 1), (1, 1)],
     [(0, 0), (1, 0), (0, 1), (1, 1)]]"

definition shape_T :: shape where
  "shape_T =
    [[(0, 0), (-1, 0), (1, 0), (0, -1)],
     [(0, 0), (0, -1), (0, 1), (1, 0)],
     [(0, 0), (-1, 0), (1, 0), (0, 1)],
     [(0, 0), (0, -1), (0, 1), (-1, 0)]]"

definition shape_S :: shape where
  "shape_S =
    [[(0, 0), (-1, 0), (0, -1), (1, -1)],
     [(0, 0), (0, -1), (1, 0), (1, 1)],
     [(0, 0), (-1, 0), (0, -1), (1, -1)],
     [(0, 0), (0, -1), (1, 0), (1, 1)]]"

definition shape_Z :: shape where
  "shape_Z =
    [[(0, 0), (1, 0), (0, -1), (-1, -1)],
     [(0, 0), (0, -1), (-1, 0), (-1, 1)],
     [(0, 0), (1, 0), (0, -1), (-1, -1)],
     [(0, 0), (0, -1), (-1, 0), (-1, 1)]]"

definition shape_J :: shape where
  "shape_J =
    [[(0, 0), (-1, 0), (1, 0), (-1, -1)],
     [(0, 0), (0, -1), (0, 1), (1, -1)],
     [(0, 0), (-1, 0), (1, 0), (1, 1)],
     [(0, 0), (0, -1), (0, 1), (-1, 1)]]"

definition shape_L :: shape where
  "shape_L =
    [[(0, 0), (-1, 0), (1, 0), (1, -1)],
     [(0, 0), (0, -1), (0, 1), (1, 1)],
     [(0, 0), (-1, 0), (1, 0), (-1, 1)],
     [(0, 0), (0, -1), (0, 1), (-1, -1)]]"

definition SHAPES :: "shape list" where
  "SHAPES = [shape_I, shape_O, shape_T, shape_S, shape_Z, shape_J, shape_L]"

definition SHAPE_COLORS :: "color list" where
  "SHAPE_COLORS = [COLOR_I, COLOR_O, COLOR_T, COLOR_S, COLOR_Z, COLOR_J, COLOR_L]"

section \<open>What a well-formed catalogue is\<close>

text \<open>
  The reference notions the table is checked against. \<open>quarter_turn\<close> is the
  rotation by a quarter turn clockwise on the screen (the \<open>y\<close> axis points
  down); \<open>adjacent\<close> and \<open>connected_cells\<close> say that a rotation state is one
  piece: every cell is reached from the first one through cells that share an
  edge (four rounds of closure are enough for four cells).
\<close>

definition quarter_turn :: "coord \<Rightarrow> coord" where
  "quarter_turn c = (- snd c, fst c)"

definition adjacent :: "coord \<Rightarrow> coord \<Rightarrow> bool" where
  "adjacent a b \<longleftrightarrow> \<bar>fst a - fst b\<bar> + \<bar>snd a - snd b\<bar> = 1"

definition grow :: "coord list \<Rightarrow> coord list \<Rightarrow> coord list" where
  "grow cs reached = filter (\<lambda>c. c \<in> set reached \<or> list_ex (adjacent c) reached) cs"

definition connected_cells :: "coord list \<Rightarrow> bool" where
  "connected_cells cs \<longleftrightarrow> cs \<noteq> [] \<and> ((grow cs ^^ 3) [hd cs]) = cs"

definition near_pivot :: "coord \<Rightarrow> bool" where
  "near_pivot c \<longleftrightarrow> - 1 \<le> fst c \<and> fst c \<le> 2 \<and> - 1 \<le> snd c \<and> snd c \<le> 2"

definition state_ok :: "rotation_state \<Rightarrow> bool" where
  "state_ok r \<longleftrightarrow> length r = 4 \<and> distinct r \<and> list_all near_pivot r \<and> connected_cells r"

definition shape_ok :: "shape \<Rightarrow> bool" where
  "shape_ok s \<longleftrightarrow> length s = 4 \<and> list_all state_ok s"

section \<open>The table is well formed\<close>

lemmas [game_consts] = GRID_WIDTH_def GRID_HEIGHT_def BLACK_def

lemmas color_defs =
  COLOR_I_def COLOR_O_def COLOR_T_def COLOR_S_def COLOR_Z_def COLOR_J_def COLOR_L_def

lemmas shape_defs =
  shape_I_def shape_O_def shape_T_def shape_S_def shape_Z_def shape_J_def shape_L_def


lemma length_SHAPES [simp]: "length SHAPES = 7"
  by (simp add: SHAPES_def)

lemma length_SHAPE_COLORS [simp]: "length SHAPE_COLORS = 7"
  by (simp add: SHAPE_COLORS_def)

lemma state_ok_I: "list_all state_ok shape_I"
  by (simp add: shape_I_def state_ok_def near_pivot_def connected_cells_def grow_def
      adjacent_def numeral_3_eq_3)

lemma state_ok_O: "list_all state_ok shape_O"
  by (simp add: shape_O_def state_ok_def near_pivot_def connected_cells_def grow_def
      adjacent_def numeral_3_eq_3)

lemma state_ok_T: "list_all state_ok shape_T"
  by (simp add: shape_T_def state_ok_def near_pivot_def connected_cells_def grow_def
      adjacent_def numeral_3_eq_3)

lemma state_ok_S: "list_all state_ok shape_S"
  by (simp add: shape_S_def state_ok_def near_pivot_def connected_cells_def grow_def
      adjacent_def numeral_3_eq_3)

lemma state_ok_Z: "list_all state_ok shape_Z"
  by (simp add: shape_Z_def state_ok_def near_pivot_def connected_cells_def grow_def
      adjacent_def numeral_3_eq_3)

lemma state_ok_J: "list_all state_ok shape_J"
  by (simp add: shape_J_def state_ok_def near_pivot_def connected_cells_def grow_def
      adjacent_def numeral_3_eq_3)

lemma state_ok_L: "list_all state_ok shape_L"
  by (simp add: shape_L_def state_ok_def near_pivot_def connected_cells_def grow_def
      adjacent_def numeral_3_eq_3)

lemmas state_ok_shapes =
  state_ok_I state_ok_O state_ok_T state_ok_S state_ok_Z state_ok_J state_ok_L

lemma shape_ok_shapes:
  "shape_ok shape_I" "shape_ok shape_O" "shape_ok shape_T" "shape_ok shape_S"
  "shape_ok shape_Z" "shape_ok shape_J" "shape_ok shape_L"
  by (simp_all add: shape_ok_def state_ok_shapes) (simp_all add: shape_defs)

lemma nat_less_7_cases:
  "i < 7 \<Longrightarrow> i = 0 \<or> i = 1 \<or> i = 2 \<or> i = 3 \<or> i = 4 \<or> i = 5 \<or> i = (6::nat)"
  by arith

lemma nat_less_4_cases: "r < 4 \<Longrightarrow> r = 0 \<or> r = 1 \<or> r = 2 \<or> r = (3::nat)"
  by arith

lemma shape_ok_nth: "i < 7 \<Longrightarrow> shape_ok (SHAPES ! i)"
  by (auto dest!: nat_less_7_cases simp: SHAPES_def shape_ok_shapes)

text \<open>C28: every shape of the catalogue has exactly four rotation states, and
  every rotation state is four distinct offsets, each within two cells of the
  pivot, forming one edge-connected piece.\<close>

theorem SHAPES_ok: "list_all shape_ok SHAPES"
  by (simp add: SHAPES_def shape_ok_shapes)

lemma state_ok_nth: "i < 7 \<Longrightarrow> r < 4 \<Longrightarrow> state_ok (SHAPES ! i ! r)"
  using shape_ok_nth [of i] by (simp add: shape_ok_def list_all_length)

lemma length_shape_nth [simp]: "i < 7 \<Longrightarrow> length (SHAPES ! i) = 4"
  using shape_ok_nth [of i] by (simp add: shape_ok_def)

lemma length_state_nth [simp]: "i < 7 \<Longrightarrow> r < 4 \<Longrightarrow> length (SHAPES ! i ! r) = 4"
  using state_ok_nth [of i r] by (simp add: state_ok_def)

lemma distinct_state_nth: "i < 7 \<Longrightarrow> r < 4 \<Longrightarrow> distinct (SHAPES ! i ! r)"
  using state_ok_nth [of i r] by (simp add: state_ok_def)

lemma near_pivot_state_nth:
  "i < 7 \<Longrightarrow> r < 4 \<Longrightarrow> c \<in> set (SHAPES ! i ! r) \<Longrightarrow> near_pivot c"
  using state_ok_nth [of i r] by (simp add: state_ok_def list_all_iff)

section \<open>Colours\<close>

lemma SHAPE_COLORS_not_BLACK: "BLACK \<notin> set SHAPE_COLORS"
  by (simp add: SHAPE_COLORS_def color_defs BLACK_def)

lemma distinct_SHAPE_COLORS: "distinct SHAPE_COLORS"
  by (simp add: SHAPE_COLORS_def color_defs)

lemma SHAPE_COLORS_nth_not_BLACK: "i < 7 \<Longrightarrow> SHAPE_COLORS ! i \<noteq> BLACK"
  using SHAPE_COLORS_not_BLACK by (metis length_SHAPE_COLORS nth_mem)

section \<open>How the rotation states of a shape are related\<close>

lemma shape_O_constant: "r < 4 \<Longrightarrow> shape_O ! r = shape_O ! 0"
  by (auto dest!: nat_less_4_cases simp: shape_O_def)

lemma two_state_shapes:
  "s \<in> {shape_I, shape_S, shape_Z} \<Longrightarrow> r < 2 \<Longrightarrow> s ! (r + 2) = s ! r"
  by (auto simp: shape_defs less_2_cases_iff)

lemma quarter_turn_shapes:
  "s \<in> {shape_T, shape_J, shape_L} \<Longrightarrow> r < 4 \<Longrightarrow>
   set (s ! ((r + 1) mod 4)) = quarter_turn ` set (s ! r)"
  by (auto dest!: nat_less_4_cases simp: shape_defs quarter_turn_def)

text \<open>The tables of I, S and Z hold two rotation states, each listed twice, and
  the table of O holds one state four times; only T, J and L have four
  different states.\<close>

lemma repeated_states:
  "list_all (\<lambda>s. s ! 2 = s ! 0 \<and> s ! 3 = s ! 1 \<and> s ! 1 \<noteq> s ! 0) [shape_I, shape_S, shape_Z] \<and>
   list_all (\<lambda>s. s ! 1 = s ! 0 \<and> s ! 2 = s ! 0 \<and> s ! 3 = s ! 0) [shape_O] \<and>
   list_all distinct [shape_T, shape_J, shape_L]"
  by (simp add: shape_defs)

end
