(* ===== verification/Piece.thy ===== *)
theory Piece
  imports Shape_Catalog
begin

text \<open>
  The class \<^verbatim>\<open>Piece\<close> of \<^verbatim>\<open>src/tetris.py\<close> (lines 98--109): a record with the
  six attributes the constructor sets (\<^verbatim>\<open>x\<close> and \<^verbatim>\<open>y\<close> are the fields \<open>piece_x\<close>
  and \<open>piece_y\<close>), the constructor \<open>Piece\<close> and the method \<open>get_cells\<close>.

  The constructor subscripts \<^verbatim>\<open>SHAPES\<close> and \<^verbatim>\<open>SHAPE_COLORS\<close> with the index it is
  given, so it raises \<^verbatim>\<open>IndexError\<close> outside \<open>-7 \<le> idx < 7\<close> and, as every
  Python subscript, counts a negative index from the end; both are in the
  model. \<open>piece_ok\<close> is the invariant of a piece that came out of the
  constructor and was only moved and rotated since; under it \<open>get_cells\<close>
  subscripts within range, and returns four distinct cells around the pivot.
\<close>

section \<open>The record and its operations\<close>

record piece =
  piece_x :: int
  piece_y :: int
  shape_index :: int
  shape :: shape
  color :: color
  rotation :: int

definition Piece :: "int \<Rightarrow> int \<Rightarrow> int \<Rightarrow> piece result" where
  "Piece x y idx =
     bind_result (py_index SHAPES idx) (\<lambda>sh.
     bind_result (py_index SHAPE_COLORS idx) (\<lambda>c.
       Inr \<lparr>piece_x = x, piece_y = y, shape_index = idx, shape = sh, color = c,
            rotation = 0\<rparr>))"

definition get_cells :: "piece \<Rightarrow> coord list" where
  "get_cells p =
     (let offsets = shape p ! nat (rotation p mod 4)
      in map (\<lambda>(dx, dy). (piece_x p + dx, piece_y p + dy)) offsets)"

section \<open>The invariant of a piece\<close>

definition piece_ok :: "piece \<Rightarrow> bool" where
  "piece_ok p \<longleftrightarrow>
     py_index SHAPES (shape_index p) = Inr (shape p) \<and>
     py_index SHAPE_COLORS (shape_index p) = Inr (color p) \<and>
     0 \<le> rotation p \<and> rotation p < 4"

lemma piece_ok_shape:
  assumes "piece_ok p"
  obtains i where "i < 7" "shape p = SHAPES ! i" "color p = SHAPE_COLORS ! i"
proof -
  let ?k = "shape_index p"
  from assms have ok: "is_ok (py_index SHAPES ?k)"
    by (simp add: piece_ok_def)
  then have range: "- 7 \<le> ?k" "?k < 7"
    by (simp_all add: py_index_ok_iff)
  define i where "i = (if 0 \<le> ?k then nat ?k else nat (7 + ?k))"
  with range have "i < 7" by auto
  moreover from assms range have "shape p = SHAPES ! i" "color p = SHAPE_COLORS ! i"
    by (auto simp: piece_ok_def py_index_def i_def split: if_splits)
  ultimately show thesis by (rule that)
qed

lemma piece_ok_state:
  assumes "piece_ok p"
  shows "state_ok (shape p ! nat (rotation p mod 4))"
proof -
  from assms obtain i where "i < 7" "shape p = SHAPES ! i"
    by (rule piece_ok_shape)
  moreover have "nat (rotation p mod 4) < 4" by simp
  ultimately show ?thesis by (simp add: state_ok_nth)
qed

lemma piece_ok_color: "piece_ok p \<Longrightarrow> color p \<noteq> BLACK"
  by (erule piece_ok_shape) (simp add: SHAPE_COLORS_nth_not_BLACK)

lemma piece_ok_moved [simp]:
  "piece_ok (p\<lparr>piece_x := a\<rparr>) = piece_ok p"
  "piece_ok (p\<lparr>piece_y := b\<rparr>) = piece_ok p"
  by (simp_all add: piece_ok_def)

lemma piece_ok_rotated:
  "piece_ok p \<Longrightarrow> piece_ok (p\<lparr>rotation := (rotation p + 1) mod 4\<rparr>)"
  by (simp add: piece_ok_def)

section \<open>The constructor\<close>

lemma Piece_Inr_iff:
  "Piece a b idx = Inr p \<longleftrightarrow>
     (\<exists>sh c. py_index SHAPES idx = Inr sh \<and> py_index SHAPE_COLORS idx = Inr c \<and>
        p = \<lparr>piece_x = a, piece_y = b, shape_index = idx, shape = sh, color = c,
             rotation = 0\<rparr>)"
  by (auto simp: Piece_def bind_result_eq_Inr)

text \<open>C35: the constructor returns a piece exactly for an index in \<open>-7 \<le> idx < 7\<close>;
  the piece sits at the given pivot in rotation state 0 and satisfies the piece
  invariant.\<close>

theorem Piece_ok:
  assumes "- 7 \<le> idx" and "idx < 7"
  shows "\<exists>p. Piece a b idx = Inr p \<and> piece_ok p \<and> piece_x p = a \<and> piece_y p = b \<and>
           rotation p = 0 \<and> shape_index p = idx"
proof -
  from assms have "is_ok (py_index SHAPES idx)" "is_ok (py_index SHAPE_COLORS idx)"
    by (simp_all add: py_index_ok_iff)
  then obtain sh c where "py_index SHAPES idx = Inr sh" "py_index SHAPE_COLORS idx = Inr c"
    by (auto simp: is_ok_iff)
  then show ?thesis
    by (simp add: Piece_def piece_ok_def)
qed

theorem Piece_ok_witness:
  "\<exists>p. Piece 5 0 (- 1) = Inr p \<and> piece_ok p \<and> piece_x p = 5 \<and> piece_y p = 0 \<and>
         rotation p = 0 \<and> shape_index p = - 1"
  using Piece_ok [of "- 1" 5 0] by simp

text \<open>Outside that range the constructor raises \<^verbatim>\<open>IndexError\<close>, and it raises
  nothing else.\<close>

lemma Piece_error:
  "Piece a b idx = Inl e \<longleftrightarrow> e = IndexError \<and> (idx < - 7 \<or> 7 \<le> idx)"
  by (auto simp: Piece_def py_index_def bind_result_eq_Inl)

lemma Piece_negative_index:
  "Piece a b (- 1) =
     Inr \<lparr>piece_x = a, piece_y = b, shape_index = - 1, shape = shape_L, color = COLOR_L,
          rotation = 0\<rparr>"
  by (simp add: Piece_def py_index_def SHAPES_def SHAPE_COLORS_def)

section \<open>The occupied cells\<close>

lemma get_cells_eq:
  "get_cells p = map (\<lambda>c. (piece_x p + fst c, piece_y p + snd c)) (shape p ! nat (rotation p mod 4))"
  by (simp add: get_cells_def case_prod_beta)

lemma inj_translate: "inj (\<lambda>c::coord. (a + fst c, b + snd c))"
  by (auto simp: inj_on_def prod_eq_iff)

lemma get_cells_moved_x:
  "get_cells (p\<lparr>piece_x := piece_x p + d\<rparr>) = map (\<lambda>c. (fst c + d, snd c)) (get_cells p)"
  by (simp add: get_cells_eq)

lemma get_cells_moved_y:
  "get_cells (p\<lparr>piece_y := piece_y p + d\<rparr>) = map (\<lambda>c. (fst c, snd c + d)) (get_cells p)"
  by (simp add: get_cells_eq)

lemma length_get_cells [simp]: "piece_ok p \<Longrightarrow> length (get_cells p) = 4"
  using piece_ok_state [of p] by (simp add: get_cells_eq state_ok_def)

lemma distinct_get_cells [simp]: "piece_ok p \<Longrightarrow> distinct (get_cells p)"
  using piece_ok_state [of p]
  by (simp add: get_cells_eq state_ok_def distinct_map inj_on_subset [OF inj_translate])

lemma get_cells_nonempty: "piece_ok p \<Longrightarrow> get_cells p \<noteq> []"
  by (auto dest!: length_get_cells)

text \<open>C9: a piece that satisfies the invariant occupies exactly four cells, and
  they are pairwise different.\<close>

theorem get_cells_four_distinct:
  "piece_ok p \<Longrightarrow> length (get_cells p) = 4 \<and> distinct (get_cells p)"
  by simp

theorem get_cells_four_distinct_witness:
  "piece_ok \<lparr>piece_x = 5, piece_y = 0, shape_index = 2, shape = shape_T, color = COLOR_T,
             rotation = 3\<rparr> \<and>
   length (get_cells \<lparr>piece_x = 5, piece_y = 0, shape_index = 2, shape = shape_T,
             color = COLOR_T, rotation = 3\<rparr>) = 4 \<and>
   distinct (get_cells \<lparr>piece_x = 5, piece_y = 0, shape_index = 2, shape = shape_T,
             color = COLOR_T, rotation = 3\<rparr>)"
  using get_cells_four_distinct [of "\<lparr>piece_x = 5, piece_y = 0, shape_index = 2,
    shape = shape_T, color = COLOR_T, rotation = 3\<rparr>"]
  by (simp add: piece_ok_def py_index_def SHAPES_def SHAPE_COLORS_def)

text \<open>Every cell of a piece is within two columns and two rows of the pivot.\<close>

lemma get_cells_near_pivot:
  assumes "piece_ok p" and "(a, b) \<in> set (get_cells p)"
  shows "piece_x p - 1 \<le> a \<and> a \<le> piece_x p + 2 \<and> piece_y p - 1 \<le> b \<and> b \<le> piece_y p + 2"
proof -
  from assms(2) obtain c where c: "c \<in> set (shape p ! nat (rotation p mod 4))"
    and ab: "a = piece_x p + fst c" "b = piece_y p + snd c"
    by (auto simp: get_cells_eq)
  from piece_ok_state [OF assms(1)] c have "near_pivot c"
    by (simp add: state_ok_def list_all_iff)
  with ab show ?thesis by (simp add: near_pivot_def)
qed

end
