(* ===== verification/Board.thy ===== *)
theory Board
  imports Piece
begin

text \<open>
  The board of \<^verbatim>\<open>src/tetris.py\<close>: the dictionary \<^verbatim>\<open>locked\<close> of the cells that
  fallen pieces fill (a \<open>locked\<close>, coordinates to colours) and the dense grid
  that \<open>create_grid\<close> derives from it (a \<open>grid\<close>: twenty rows of ten colours,
  \<open>BLACK\<close> for an empty cell), with the operations that write the dictionary
  (\<open>lock_piece\<close>) and read it (\<open>create_grid\<close>, \<open>check_lost\<close>).

  \<open>paint\<close> is the guarded assignment \<^verbatim>\<open>grid[y][x] = color\<close> that \<open>create_grid\<close>
  and the main loop share. \<open>cell_of\<close> is the abstract board, a total function
  from coordinates to colours; \<open>create_grid_cell\<close> is the refinement lemma that
  ties the dense grid to it. \<open>board_ok\<close> is the invariant of the dictionary:
  distinct keys, every key inside the side walls and above the floor, no entry
  coloured \<open>BLACK\<close>. Keys above the top of the grid (\<open>y < 0\<close>) are allowed,
  because \<open>lock_piece\<close> writes them.
\<close>

section \<open>Types and operations\<close>

type_synonym locked = "(coord, color) dict"
type_synonym grid = "color list list"

definition empty_grid :: grid where
  "empty_grid = replicate (nat GRID_HEIGHT) (replicate (nat GRID_WIDTH) BLACK)"

definition paint :: "coord \<Rightarrow> color \<Rightarrow> grid \<Rightarrow> grid" where
  "paint pos c g =
     (case pos of (x, y) \<Rightarrow>
        if 0 \<le> y \<and> y < GRID_HEIGHT \<and> 0 \<le> x \<and> x < GRID_WIDTH
        then g[nat y := (g ! nat y)[nat x := c]] else g)"

definition create_grid :: "locked \<Rightarrow> grid" where
  "create_grid locked = fold (\<lambda>(pos, c). paint pos c) locked empty_grid"

definition lock_piece :: "piece \<Rightarrow> locked \<Rightarrow> locked" where
  "lock_piece p locked = fold (\<lambda>pos. dict_set pos (color p)) (get_cells p) locked"

fun check_lost :: "locked \<Rightarrow> bool" where
  "check_lost [] = False"
| "check_lost (((x, y), c) # locked) = (if y < 1 then True else check_lost locked)"

section \<open>Abstract board, invariants\<close>

definition cell_of :: "locked \<Rightarrow> coord \<Rightarrow> color" where
  "cell_of locked pos = (case map_of locked pos of None \<Rightarrow> BLACK | Some c \<Rightarrow> c)"

definition in_grid :: "coord \<Rightarrow> bool" where
  "in_grid pos \<longleftrightarrow> 0 \<le> fst pos \<and> fst pos < GRID_WIDTH \<and> 0 \<le> snd pos \<and> snd pos < GRID_HEIGHT"

definition in_walls :: "coord \<Rightarrow> bool" where
  "in_walls pos \<longleftrightarrow> 0 \<le> fst pos \<and> fst pos < GRID_WIDTH \<and> snd pos < GRID_HEIGHT"

definition grid_ok :: "grid \<Rightarrow> bool" where
  "grid_ok g \<longleftrightarrow> length g = nat GRID_HEIGHT \<and> list_all (\<lambda>row. length row = nat GRID_WIDTH) g"

definition board_ok :: "locked \<Rightarrow> bool" where
  "board_ok locked \<longleftrightarrow>
     dict_wf locked \<and> list_all (\<lambda>(pos, c). in_walls pos \<and> c \<noteq> BLACK) locked"

definition cell :: "grid \<Rightarrow> coord \<Rightarrow> color" where
  "cell g pos = g ! nat (snd pos) ! nat (fst pos)"

text \<open>Example data: a board with one locked cell, and a T piece as it is
  created at the top of the grid.\<close>

definition one_cell_board :: locked where
  "one_cell_board = [((0, 7), COLOR_I)]"

definition spawn_T :: piece where
  "spawn_T = \<lparr>piece_x = 5, piece_y = 0, shape_index = 2, shape = shape_T, color = COLOR_T,
              rotation = 0\<rparr>"

lemma in_grid_in_walls: "in_grid pos \<Longrightarrow> in_walls pos"
  by (simp add: in_grid_def in_walls_def)

lemma in_grid_iff: "in_grid pos \<longleftrightarrow> in_walls pos \<and> 0 \<le> snd pos"
  by (auto simp: in_grid_def in_walls_def)

lemma board_okD:
  "board_ok locked \<Longrightarrow> dict_wf locked"
  "board_ok locked \<Longrightarrow> (pos, c) \<in> set locked \<Longrightarrow> in_walls pos"
  "board_ok locked \<Longrightarrow> (pos, c) \<in> set locked \<Longrightarrow> c \<noteq> BLACK"
  by (auto simp: board_ok_def list_all_iff)

lemma board_ok_empty [simp]: "board_ok []"
  by (simp add: board_ok_def)

lemma board_ok_map_of:
  "board_ok locked \<Longrightarrow> map_of locked pos = Some c \<Longrightarrow> in_walls pos \<and> c \<noteq> BLACK"
  by (auto simp: board_ok_def list_all_iff dest!: map_of_SomeD)

lemma cell_of_BLACK_iff:
  "board_ok locked \<Longrightarrow> cell_of locked pos = BLACK \<longleftrightarrow> pos \<notin> fst ` set locked"
  by (auto simp: cell_of_def map_of_None_iff [symmetric] split: option.splits
      dest: board_ok_map_of)

lemma board_shown:
  assumes "board_ok locked"
  shows "(if cell_of locked pos = BLACK then None else Some (cell_of locked pos)) =
           map_of locked pos"
  using board_ok_map_of [OF assms, of pos]
  by (cases "map_of locked pos") (simp_all add: cell_of_def)

section \<open>The dense grid\<close>

lemma grid_ok_rows:
  "grid_ok g \<Longrightarrow> length g = 20"
  "grid_ok g \<Longrightarrow> i < 20 \<Longrightarrow> length (g ! i) = 10"
  by (simp_all add: grid_ok_def list_all_length game_consts)

lemma grid_ok_empty [simp]: "grid_ok empty_grid"
  by (simp add: grid_ok_def empty_grid_def list_all_length)

lemma grid_ok_paint [simp]: "grid_ok g \<Longrightarrow> grid_ok (paint pos c g)"
  by (auto simp: grid_ok_def paint_def list_all_length nth_list_update split: prod.splits)

lemma grid_ok_fold_paint:
  "grid_ok g \<Longrightarrow> grid_ok (fold (\<lambda>(pos, c). paint pos c) locked g)"
  by (induction locked arbitrary: g) (auto simp: case_prod_beta)

lemma grid_ok_create_grid [simp]: "grid_ok (create_grid locked)"
  by (simp add: create_grid_def grid_ok_fold_paint)

lemma cell_empty_grid [simp]: "in_grid pos \<Longrightarrow> cell empty_grid pos = BLACK"
  by (simp add: cell_def empty_grid_def in_grid_def nat_less_iff)

lemma cell_paint:
  assumes "grid_ok g" and "in_grid pos"
  shows "cell (paint q c g) pos = (if q = pos then c else cell g pos)"
proof (cases "in_grid q")
  case False
  with assms(2) have "q \<noteq> pos" by auto
  with False show ?thesis
    by (auto simp: paint_def in_grid_def split: prod.splits)
next
  case True
  with assms have eq: "nat (snd q) = nat (snd pos) \<and> nat (fst q) = nat (fst pos) \<longleftrightarrow> q = pos"
    by (auto simp: in_grid_def prod_eq_iff)
  from True assms(1) have "nat (snd q) < length g" "nat (fst q) < length (g ! nat (snd q))"
    by (simp_all add: grid_ok_rows in_grid_def game_consts nat_less_iff)
  with True eq show ?thesis
    by (auto simp: paint_def cell_def in_grid_def nth_update_row split: prod.splits)
qed

lemma cell_fold_paint:
  assumes "dict_wf locked" and "grid_ok g" and "in_grid pos"
  shows "cell (fold (\<lambda>(q, c). paint q c) locked g) pos =
           (case map_of locked pos of None \<Rightarrow> cell g pos | Some c \<Rightarrow> c)"
  using assms(1,2)
proof (induction locked arbitrary: g)
  case Nil
  then show ?case by simp
next
  case (Cons e locked)
  obtain q c where e: "e = (q, c)" by (cases e)
  from Cons.prems e have wf: "dict_wf locked" and q: "map_of locked q = None"
    by (simp_all add: map_of_None_iff)
  from Cons.prems have "grid_ok (paint q c g)" by simp
  from Cons.IH [OF wf this] q Cons.prems(2) assms(3) e show ?case
    by (auto simp: cell_paint split: option.splits)
qed

lemma create_grid_cell:
  "dict_wf locked \<Longrightarrow> in_grid pos \<Longrightarrow> cell (create_grid locked) pos = cell_of locked pos"
  by (simp add: create_grid_def cell_fold_paint cell_of_def split: option.splits)

lemma grid_eqI:
  assumes "grid_ok g" and "grid_ok h" and "\<And>pos. in_grid pos \<Longrightarrow> cell g pos = cell h pos"
  shows "g = h"
proof (rule nth_equalityI)
  from assms(1,2) show "length g = length h"
    by (simp add: grid_ok_rows)
next
  fix i assume i: "i < length g"
  with assms(1) have i20: "i < 20" by (simp add: grid_ok_rows)
  show "g ! i = h ! i"
  proof (rule nth_equalityI)
    from assms(1,2) i20 show "length (g ! i) = length (h ! i)"
      by (simp add: grid_ok_rows)
  next
    fix j assume "j < length (g ! i)"
    with assms(1) i20 have "j < 10" by (simp add: grid_ok_rows)
    with i20 have "in_grid (int j, int i)"
      by (simp add: in_grid_def game_consts)
    from assms(3) [OF this] show "g ! i ! j = h ! i ! j"
      by (simp add: cell_def)
  qed
qed

section \<open>Locking a piece\<close>

lemma map_of_fold_dict_set:
  "map_of (fold (\<lambda>pos. dict_set pos c) ps locked) pos =
     (if pos \<in> set ps then Some c else map_of locked pos)"
  by (induction ps arbitrary: locked) (auto simp: dict_simps)

lemma keys_fold_dict_set:
  "fst ` set (fold (\<lambda>pos. dict_set pos c) ps locked) = set ps \<union> fst ` set locked"
  by (induction ps arbitrary: locked) (auto simp: dict_simps)

lemma dict_wf_fold_dict_set:
  "dict_wf locked \<Longrightarrow> dict_wf (fold (\<lambda>pos. dict_set pos c) ps locked)"
  by (induction ps arbitrary: locked) (auto intro: dict_wf_intros)

lemma map_of_lock_piece [dict_simps]:
  "map_of (lock_piece p locked) pos =
     (if pos \<in> set (get_cells p) then Some (color p) else map_of locked pos)"
  by (simp add: lock_piece_def map_of_fold_dict_set)

lemma keys_lock_piece [dict_simps]:
  "fst ` set (lock_piece p locked) = set (get_cells p) \<union> fst ` set locked"
  by (simp add: lock_piece_def keys_fold_dict_set)

lemma dict_wf_lock_piece [dict_wf_intros]:
  "dict_wf locked \<Longrightarrow> dict_wf (lock_piece p locked)"
  by (simp add: lock_piece_def dict_wf_fold_dict_set)

lemma cell_of_lock_piece:
  "cell_of (lock_piece p locked) pos =
     (if pos \<in> set (get_cells p) then color p else cell_of locked pos)"
  by (simp add: cell_of_def dict_simps)

lemma board_ok_iff:
  "board_ok locked \<longleftrightarrow>
     dict_wf locked \<and> (\<forall>pos c. map_of locked pos = Some c \<longrightarrow> in_walls pos \<and> c \<noteq> BLACK)"
proof (cases "dict_wf locked")
  case True
  then show ?thesis by (fastforce simp: board_ok_def list_all_iff)
next
  case False
  then show ?thesis by (simp add: board_ok_def)
qed

lemma board_ok_lock_piece:
  assumes "board_ok locked" and "piece_ok p" and "list_all in_walls (get_cells p)"
  shows "board_ok (lock_piece p locked)"
  using assms
  by (auto simp: board_ok_iff dict_simps list_all_iff piece_ok_color
      intro: dict_wf_intros split: if_splits)

section \<open>Loss detection\<close>

lemma check_lost_iff: "check_lost locked \<longleftrightarrow> (\<exists>pos \<in> fst ` set locked. snd pos < 1)"
  by (induction locked rule: check_lost.induct) auto


lemma board_ok_one_cell_board: "board_ok one_cell_board"
  by (simp add: one_cell_board_def board_ok_def in_walls_def game_consts color_defs)

lemma piece_ok_spawn_T: "piece_ok spawn_T"
  by (simp add: spawn_T_def piece_ok_def py_index_def SHAPES_def SHAPE_COLORS_def)

lemma get_cells_spawn_T: "get_cells spawn_T = [(5, 0), (4, 0), (6, 0), (5, - 1)]"
  by (simp add: spawn_T_def get_cells_def shape_T_def)

section \<open>The contract of the board\<close>

text \<open>C17: the dense grid that \<open>create_grid\<close> builds from a dictionary has twenty
  rows of ten cells, and each cell holds the colour the dictionary gives its
  coordinate, \<open>BLACK\<close> where the coordinate is no key.\<close>

theorem create_grid_refines_cell_of:
  assumes "dict_wf locked"
  shows "grid_ok (create_grid locked) \<and>
         (\<forall>pos. in_grid pos \<longrightarrow> cell (create_grid locked) pos = cell_of locked pos)"
  using assms by (simp add: create_grid_cell)

theorem create_grid_refines_cell_of_witness:
  "dict_wf one_cell_board \<and> cell (create_grid one_cell_board) (0, 7) = COLOR_I \<and>
   cell (create_grid one_cell_board) (1, 7) = BLACK"
proof -
  have "dict_wf one_cell_board" "in_grid (0, 7)" "in_grid (1, 7)"
    by (simp_all add: one_cell_board_def in_grid_def game_consts)
  with create_grid_refines_cell_of [of one_cell_board] show ?thesis
    by (simp add: cell_of_def one_cell_board_def)
qed

text \<open>\<open>lock_piece\<close> stores the colour of the piece under each of its four
  cells, whatever was stored there and also when the cell is above the top of
  the grid, and leaves every other entry of the dictionary as it was.\<close>

lemma lock_piece_stores_cells:
  "map_of (lock_piece p locked) =
     (\<lambda>pos. if pos \<in> set (get_cells p) then Some (color p) else map_of locked pos)"
  by (rule ext) (simp add: map_of_lock_piece)

text \<open>\<open>check_lost\<close> reports a loss exactly when some key of the dictionary
  lies in the top row of the grid or above it.\<close>

lemma check_lost_top_row:
  "check_lost locked \<longleftrightarrow> list_ex (\<lambda>pos. snd pos < 1) (dict_keys locked)"
  by (simp add: check_lost_iff list_ex_iff dict_keys_def)

text \<open>C38: \<open>lock_piece\<close> stores the cells of the piece that lie above the top of the
  grid as well: for a piece between the walls on a well-formed board, a cell
  of the piece with a negative row is a key of the dictionary afterwards, with
  the colour of the piece, although it is no cell of the grid; the dictionary
  is still well formed, and the board counts as lost.\<close>

theorem lock_piece_above_top:
  assumes "board_ok locked" and "piece_ok p" and "list_all in_walls (get_cells p)"
    and "pos \<in> set (get_cells p)" and "snd pos < 0"
  shows "map_of (lock_piece p locked) pos = Some (color p) \<and> \<not> in_grid pos \<and>
         board_ok (lock_piece p locked) \<and> check_lost (lock_piece p locked)"
proof -
  from assms(4,5) have "\<exists>k \<in> fst ` set (lock_piece p locked). snd k < 1"
    unfolding keys_lock_piece by (intro bexI [of _ pos]) simp_all
  with assms show ?thesis
    by (simp add: map_of_lock_piece in_grid_def check_lost_iff board_ok_lock_piece)
qed

theorem lock_piece_above_top_witness:
  "Piece (GRID_WIDTH div 2) 0 2 = Inr spawn_T \<and>
   map_of (lock_piece spawn_T []) (5, - 1) = Some COLOR_T \<and>
   \<not> in_grid (5, - 1) \<and> board_ok (lock_piece spawn_T []) \<and> check_lost (lock_piece spawn_T [])"
proof -
  have "Piece (GRID_WIDTH div 2) 0 2 = Inr spawn_T"
    by (simp add: Piece_def spawn_T_def py_index_def SHAPES_def SHAPE_COLORS_def game_consts)
  moreover have "color spawn_T = COLOR_T"
    by (simp add: spawn_T_def)
  moreover have "board_ok []"
    by (simp add: board_ok_def)
  ultimately show ?thesis
    using lock_piece_above_top [of "[]" spawn_T "(5, - 1)"]
    by (simp add: piece_ok_spawn_T get_cells_spawn_T in_walls_def game_consts)
qed

end
