(* ===== verification/Collision.thy ===== *)
theory Collision
  imports Board
begin

text \<open>
  Collision detection and rotation (\<^verbatim>\<open>src/tetris.py\<close>: \<open>valid_space\<close>, lines
  124--131; \<open>in_bounds\<close>, lines 134--138; \<open>try_rotate_with_kicks\<close>, lines
  261--279).

  \<open>valid_space\<close> is modelled as the source computes it: the list \<open>accepted\<close> of
  the empty positions of the grid is built first (\<open>accepted_positions\<close>), then
  the cells of the piece are visited in order and the first offending cell ends
  the loop (\<open>cells_valid\<close>). \<open>placement_ok\<close> is the specification it is proved
  equivalent to: every cell is between the walls and above the floor, and every
  cell at or below the top row is empty.

  \<open>try_rotate_with_kicks\<close> mutates the piece and returns a flag; the model
  returns the flag and the piece. \<open>try_kicks\<close> is its loop over the kick
  offsets, which restores \<open>piece_x\<close> after each failed attempt.
\<close>

section \<open>Operations\<close>

definition accepted_positions :: "grid \<Rightarrow> coord list" where
  "accepted_positions grid =
     [(x, y). y \<leftarrow> py_range GRID_HEIGHT, x \<leftarrow> py_range GRID_WIDTH,
              grid ! nat y ! nat x = BLACK]"

fun cells_valid :: "coord list \<Rightarrow> coord list \<Rightarrow> bool" where
  "cells_valid accepted [] = True"
| "cells_valid accepted ((x, y) # cells) =
     (if x < 0 \<or> x \<ge> GRID_WIDTH \<or> y \<ge> GRID_HEIGHT then False
      else if y \<ge> 0 \<and> (x, y) \<notin> set accepted then False
      else cells_valid accepted cells)"

definition valid_space :: "piece \<Rightarrow> grid \<Rightarrow> bool" where
  "valid_space p grid = cells_valid (accepted_positions grid) (get_cells p)"

fun cells_in_bounds :: "coord list \<Rightarrow> bool" where
  "cells_in_bounds [] = True"
| "cells_in_bounds ((x, y) # cells) =
     (if x < 0 \<or> x \<ge> GRID_WIDTH \<or> y \<ge> GRID_HEIGHT then False
      else cells_in_bounds cells)"

definition in_bounds :: "piece \<Rightarrow> bool" where
  "in_bounds p = cells_in_bounds (get_cells p)"

fun try_kicks :: "piece \<Rightarrow> grid \<Rightarrow> int list \<Rightarrow> piece option" where
  "try_kicks p grid [] = None"
| "try_kicks p grid (dx # kicks) =
     (let old_x = piece_x p; p' = p\<lparr>piece_x := piece_x p + dx\<rparr>
      in if valid_space p' grid then Some p'
         else try_kicks (p'\<lparr>piece_x := old_x\<rparr>) grid kicks)"

definition try_rotate_with_kicks :: "piece \<Rightarrow> grid \<Rightarrow> bool \<times> piece" where
  "try_rotate_with_kicks p grid =
     (let prev_rot = rotation p; p1 = p\<lparr>rotation := (rotation p + 1) mod 4\<rparr>
      in if valid_space p1 grid then (True, p1)
         else (case try_kicks p1 grid [1, - 1, 2, - 2] of
                 Some p2 \<Rightarrow> (True, p2)
               | None \<Rightarrow> (False, p1\<lparr>rotation := prev_rot\<rparr>)))"

section \<open>Specification of a valid placement\<close>

definition free_cell :: "grid \<Rightarrow> coord \<Rightarrow> bool" where
  "free_cell grid pos \<longleftrightarrow> in_walls pos \<and> (snd pos < 0 \<or> cell grid pos = BLACK)"

definition placement_ok :: "piece \<Rightarrow> grid \<Rightarrow> bool" where
  "placement_ok p grid = list_all (free_cell grid) (get_cells p)"

definition kicked :: "piece \<Rightarrow> int \<Rightarrow> piece" where
  "kicked p dx = p\<lparr>piece_x := piece_x p + dx\<rparr>"

definition turned :: "piece \<Rightarrow> piece" where
  "turned p = p\<lparr>rotation := (rotation p + 1) mod 4\<rparr>"

definition kick_offsets :: "int list" where
  "kick_offsets = [0, 1, - 1, 2, - 2]"

text \<open>Example data: a T piece standing against the left wall, and an I piece
  lying in the middle of the grid.\<close>

definition wall_T :: piece where
  "wall_T = \<lparr>piece_x = 0, piece_y = 5, shape_index = 2, shape = shape_T, color = COLOR_T,
             rotation = 1\<rparr>"

definition flat_I :: piece where
  "flat_I = \<lparr>piece_x = 4, piece_y = 5, shape_index = 0, shape = shape_I, color = COLOR_I,
             rotation = 0\<rparr>"

lemma kicked_0 [simp]: "kicked p 0 = p"
  by (simp add: kicked_def)

lemma kicked_fields [simp]:
  "piece_x (kicked p dx) = piece_x p + dx" "piece_y (kicked p dx) = piece_y p"
  "rotation (kicked p dx) = rotation p" "shape (kicked p dx) = shape p"
  "color (kicked p dx) = color p" "shape_index (kicked p dx) = shape_index p"
  by (simp_all add: kicked_def)

lemma turned_fields [simp]:
  "piece_x (turned p) = piece_x p" "piece_y (turned p) = piece_y p"
  "rotation (turned p) = (rotation p + 1) mod 4" "shape (turned p) = shape p"
  "color (turned p) = color p" "shape_index (turned p) = shape_index p"
  by (simp_all add: turned_def)

lemma piece_ok_kicked [simp]: "piece_ok (kicked p dx) = piece_ok p"
  by (simp add: kicked_def)

lemma piece_ok_turned [simp]: "piece_ok p \<Longrightarrow> piece_ok (turned p)"
  by (simp add: turned_def piece_ok_rotated)

section \<open>valid_space and in_bounds meet their specification\<close>

lemma set_accepted_positions:
  "set (accepted_positions grid) = {pos. in_grid pos \<and> cell grid pos = BLACK}"
  by (auto simp: accepted_positions_def in_grid_def cell_def)

lemma cells_valid_iff:
  "cells_valid accepted cells \<longleftrightarrow>
     list_all (\<lambda>pos. in_walls pos \<and> (snd pos < 0 \<or> pos \<in> set accepted)) cells"
  by (induction accepted cells rule: cells_valid.induct) (auto simp: in_walls_def)

lemma valid_space_iff: "valid_space p grid \<longleftrightarrow> placement_ok p grid"
  by (auto simp: valid_space_def placement_ok_def cells_valid_iff set_accepted_positions
      free_cell_def list_all_iff in_grid_iff)

lemma cells_in_bounds_iff: "cells_in_bounds cells \<longleftrightarrow> list_all in_walls cells"
  by (induction cells rule: cells_in_bounds.induct) (auto simp: in_walls_def)

lemma in_bounds_iff: "in_bounds p \<longleftrightarrow> list_all in_walls (get_cells p)"
  by (simp add: in_bounds_def cells_in_bounds_iff)

lemma valid_space_in_walls:
  "valid_space p grid \<Longrightarrow> pos \<in> set (get_cells p) \<Longrightarrow> in_walls pos"
  by (simp add: valid_space_iff placement_ok_def free_cell_def list_all_iff)

lemma valid_space_in_bounds: "valid_space p grid \<Longrightarrow> in_bounds p"
  by (simp add: in_bounds_iff list_all_iff valid_space_in_walls)

lemma free_cell_empty_grid [simp]: "free_cell empty_grid pos \<longleftrightarrow> in_walls pos"
  by (cases "snd pos < 0") (auto simp: free_cell_def in_grid_iff)

lemma valid_space_empty_grid: "valid_space p empty_grid \<longleftrightarrow> in_bounds p"
  by (simp add: valid_space_iff placement_ok_def in_bounds_iff list_all_iff)

text \<open>On the grid of a board, an empty cell is a coordinate that is no key of
  the dictionary.\<close>

lemma free_cell_create_grid:
  assumes "board_ok locked"
  shows "free_cell (create_grid locked) pos \<longleftrightarrow>
           in_walls pos \<and> (snd pos < 0 \<or> pos \<notin> fst ` set locked)"
proof (cases "in_grid pos")
  case True
  with assms show ?thesis
    by (simp add: free_cell_def create_grid_cell board_okD cell_of_BLACK_iff in_grid_def)
next
  case False
  then show ?thesis
    by (auto simp: free_cell_def in_grid_iff)
qed

lemma valid_space_create_grid:
  "board_ok locked \<Longrightarrow>
   valid_space p (create_grid locked) \<longleftrightarrow>
     list_all (\<lambda>pos. in_walls pos \<and> (snd pos < 0 \<or> pos \<notin> fst ` set locked)) (get_cells p)"
  by (simp add: valid_space_iff placement_ok_def free_cell_create_grid list_all_iff)

section \<open>The kick search\<close>

lemma try_kicks_unfold:
  "try_kicks p grid (dx # kicks) =
     (if valid_space (kicked p dx) grid then Some (kicked p dx) else try_kicks p grid kicks)"
  by (simp add: try_kicks.simps(2) kicked_def Let_def)

declare try_kicks.simps(2) [simp del] try_kicks_unfold [simp]

lemma try_kicks_None:
  "try_kicks p grid kicks = None \<longleftrightarrow> list_all (\<lambda>dx. \<not> valid_space (kicked p dx) grid) kicks"
  by (induction kicks) simp_all

lemma try_kicks_first:
  "list_all (\<lambda>dx. \<not> valid_space (kicked p dx) grid) failed \<Longrightarrow>
   valid_space (kicked p dx) grid \<Longrightarrow>
   try_kicks p grid (failed @ dx # rest) = Some (kicked p dx)"
  by (induction failed) simp_all

lemma try_kicks_Some:
  "try_kicks p grid kicks = Some q \<Longrightarrow>
   \<exists>failed dx rest. kicks = failed @ dx # rest \<and> q = kicked p dx \<and> valid_space q grid \<and>
      list_all (\<lambda>dx. \<not> valid_space (kicked p dx) grid) failed"
proof (induction kicks)
  case Nil
  then show ?case by simp
next
  case (Cons d kicks)
  show ?case
  proof (cases "valid_space (kicked p d) grid")
    case True
    with Cons.prems have "q = kicked p d" by simp
    with True show ?thesis by (intro exI [of _ "[]"] exI [of _ d] exI [of _ kicks]) simp
  next
    case False
    with Cons obtain failed dx rest where
      "kicks = failed @ dx # rest" "q = kicked p dx" "valid_space q grid"
      "list_all (\<lambda>dx. \<not> valid_space (kicked p dx) grid) failed"
      by auto
    with False show ?thesis
      by (intro exI [of _ "d # failed"] exI [of _ dx] exI [of _ rest]) simp
  qed
qed

lemma try_rotate_with_kicks_unfold:
  "try_rotate_with_kicks p grid =
     (if valid_space (turned p) grid then (True, turned p)
      else case try_kicks (turned p) grid [1, - 1, 2, - 2] of
             Some q \<Rightarrow> (True, q) | None \<Rightarrow> (False, p))"
  by (simp add: try_rotate_with_kicks_def turned_def Let_def)


lemma try_kicks_find:
  "try_kicks p grid kicks =
     map_option (kicked p) (find (\<lambda>dx. valid_space (kicked p dx) grid) kicks)"
  by (induction kicks) simp_all

lemma try_rotate_True:
  assumes "try_rotate_with_kicks p grid = (True, q)"
  shows "valid_space q grid \<and> list_ex (\<lambda>dx. q = kicked (turned p) dx) kick_offsets"
proof (cases "valid_space (turned p) grid")
  case True
  with assms show ?thesis by (auto simp: try_rotate_with_kicks_unfold kick_offsets_def)
next
  case False
  with assms have "try_kicks (turned p) grid [1, - 1, 2, - 2] = Some q"
    by (auto simp: try_rotate_with_kicks_unfold split: option.splits simp del: try_kicks_unfold)
  from try_kicks_Some [OF this] obtain failed dx rest where
    "[1, - 1, 2, - 2] = failed @ dx # rest" "q = kicked (turned p) dx" "valid_space q grid"
    by blast
  moreover from this(1) have "dx \<in> set [1, - 1, 2, - 2]"
    by (metis in_set_conv_decomp)
  ultimately show ?thesis by (auto simp: list_ex_iff kick_offsets_def)
qed

lemma try_rotate_False:
  assumes "try_rotate_with_kicks p grid = (False, q)"
  shows "q = p \<and> list_all (\<lambda>dx. \<not> valid_space (kicked (turned p) dx) grid) kick_offsets"
  using assms
  by (auto simp: try_rotate_with_kicks_unfold kick_offsets_def split: if_splits option.splits)

lemma try_rotate_piece_ok:
  "piece_ok p \<Longrightarrow> piece_ok (snd (try_rotate_with_kicks p grid))"
  by (cases "try_rotate_with_kicks p grid"; cases "fst (try_rotate_with_kicks p grid)")
    (auto dest!: try_rotate_True try_rotate_False simp: list_ex_iff)

lemma rotation_four_times:
  "0 \<le> r \<Longrightarrow> r < 4 \<Longrightarrow> ((((r + 1) mod 4 + 1) mod 4 + 1) mod 4 + 1) mod 4 = (r::int)"
  by presburger

lemma turn_valid:
  "valid_space (turned p) grid \<Longrightarrow> snd (try_rotate_with_kicks p grid) = turned p"
  by (simp add: try_rotate_with_kicks_unfold)

lemma turned_4:
  "0 \<le> rotation p \<Longrightarrow> rotation p < 4 \<Longrightarrow> turned (turned (turned (turned p))) = p"
  by (simp add: turned_def rotation_four_times)

lemma piece_ok_wall_T: "piece_ok wall_T"
  by (simp add: wall_T_def piece_ok_def py_index_def SHAPES_def SHAPE_COLORS_def)

section \<open>The contract of valid_space\<close>

text \<open>C4: on the grid of a board that satisfies the board invariant,
  \<open>valid_space\<close> holds exactly when every cell of the piece is between the side
  walls and above the floor, and every cell that is not above the top of the
  grid is no key of the dictionary.\<close>

theorem valid_space_on_board:
  assumes "board_ok locked"
  shows "valid_space p (create_grid locked) \<longleftrightarrow>
           list_all in_walls (get_cells p) \<and>
           list_all (\<lambda>pos. snd pos < 0 \<or> pos \<notin> fst ` set locked) (get_cells p)"
  using assms by (auto simp: valid_space_create_grid list_all_iff)

theorem valid_space_on_board_witness:
  "board_ok one_cell_board \<and> \<not> valid_space (wall_T\<lparr>piece_y := 6\<rparr>) (create_grid one_cell_board) \<and>
   valid_space wall_T (create_grid one_cell_board)"
proof -
  have "get_cells wall_T = [(0, 5), (0, 4), (0, 6), (1, 5)]"
    "get_cells (wall_T\<lparr>piece_y := 6\<rparr>) = [(0, 6), (0, 5), (0, 7), (1, 6)]"
    by (simp_all add: wall_T_def get_cells_def shape_T_def)
  moreover have "fst ` set one_cell_board = {(0, 7)}"
    by (simp add: one_cell_board_def)
  ultimately show ?thesis
    using valid_space_on_board [OF board_ok_one_cell_board, of wall_T]
      valid_space_on_board [OF board_ok_one_cell_board, of "wall_T\<lparr>piece_y := 6\<rparr>"]
    by (simp add: board_ok_one_cell_board in_walls_def game_consts)
qed

text \<open>Whatever the grid holds, a piece with a cell outside the side walls
  or below the floor is not in a valid position.\<close>

lemma valid_space_out_of_bounds:
  "list_ex (\<lambda>pos. fst pos < 0 \<or> GRID_WIDTH \<le> fst pos \<or> GRID_HEIGHT \<le> snd pos) (get_cells p) \<Longrightarrow>
   \<not> valid_space p grid"
  by (auto simp: list_ex_iff in_walls_def dest!: valid_space_in_walls)

lemma valid_space_out_of_bounds_witness:
  "list_ex (\<lambda>pos. fst pos < 0 \<or> GRID_WIDTH \<le> fst pos \<or> GRID_HEIGHT \<le> snd pos)
     (get_cells (wall_T\<lparr>rotation := 2\<rparr>)) \<and>
   \<not> valid_space (wall_T\<lparr>rotation := 2\<rparr>) empty_grid"
proof -
  have "list_ex (\<lambda>pos. fst pos < 0 \<or> GRID_WIDTH \<le> fst pos \<or> GRID_HEIGHT \<le> snd pos)
     (get_cells (wall_T\<lparr>rotation := 2\<rparr>))"
    by (simp add: wall_T_def get_cells_def shape_T_def)
  with valid_space_out_of_bounds [of "wall_T\<lparr>rotation := 2\<rparr>" empty_grid] show ?thesis
    by simp
qed

section \<open>The contract of try_rotate_with_kicks\<close>

text \<open>C10: \<open>try_rotate_with_kicks\<close> turns the piece to the next rotation state
  and takes the first of the horizontal offsets 0, +1, -1, +2, -2 at which the
  turned piece is valid; if there is none it reports failure and returns the
  piece unchanged.\<close>

theorem try_rotate_with_kicks_find:
  "try_rotate_with_kicks p grid =
     (case find (\<lambda>dx. valid_space (kicked (turned p) dx) grid) kick_offsets of
        None \<Rightarrow> (False, p)
      | Some dx \<Rightarrow> (True, kicked (turned p) dx))"
  by (simp add: try_rotate_with_kicks_unfold try_kicks_find kick_offsets_def
      split: option.splits)

text \<open>C33: a successful rotation leaves the piece in a valid position, in the
  next rotation state, in the same row and at most two columns from where it
  was, and it keeps the piece invariant.\<close>

theorem try_rotate_success:
  assumes "try_rotate_with_kicks p grid = (True, q)" and "piece_ok p"
  shows "valid_space q grid \<and> piece_ok q \<and> rotation q = (rotation p + 1) mod 4 \<and>
         piece_y q = piece_y p \<and> \<bar>piece_x q - piece_x p\<bar> \<le> 2"
  using try_rotate_True [OF assms(1)] assms(2)
  by (auto simp: list_ex_iff kick_offsets_def)

theorem try_rotate_success_witness:
  "try_rotate_with_kicks wall_T empty_grid = (True, wall_T\<lparr>rotation := 2, piece_x := 1\<rparr>) \<and>
   piece_ok wall_T \<and> valid_space (wall_T\<lparr>rotation := 2, piece_x := 1\<rparr>) empty_grid"
proof -
  have "try_rotate_with_kicks wall_T empty_grid = (True, wall_T\<lparr>rotation := 2, piece_x := 1\<rparr>)"
    by code_simp
  with try_rotate_success [OF this piece_ok_wall_T] show ?thesis
    by (simp add: piece_ok_wall_T)
qed

text \<open>C34: four rotations in a row, each valid without a kick, bring the piece
  back to the rotation state and the pivot it started from.\<close>

theorem four_rotations_restore:
  assumes "0 \<le> rotation p" and "rotation p < 4"
    and "list_all (\<lambda>r. valid_space (p\<lparr>rotation := r\<rparr>) grid) [0, 1, 2, 3]"
  shows "((\<lambda>q. snd (try_rotate_with_kicks q grid)) ^^ 4) p = p"
proof -
  have valid: "valid_space (p\<lparr>rotation := r mod 4\<rparr>) grid" for r
  proof -
    have "r mod 4 = 0 \<or> r mod 4 = 1 \<or> r mod 4 = 2 \<or> r mod 4 = 3" by presburger
    with assms(3) show ?thesis by auto
  qed
  have t1: "valid_space (turned p) grid"
    using valid [of "rotation p + 1"] by (simp add: turned_def)
  have t2: "valid_space (turned (turned p)) grid"
    using valid [of "(rotation p + 1) mod 4 + 1"] by (simp add: turned_def)
  have t3: "valid_space (turned (turned (turned p))) grid"
    using valid [of "((rotation p + 1) mod 4 + 1) mod 4 + 1"] by (simp add: turned_def)
  have t4: "valid_space (turned (turned (turned (turned p)))) grid"
    using valid [of "(((rotation p + 1) mod 4 + 1) mod 4 + 1) mod 4 + 1"] by (simp add: turned_def)
  from t1 t2 t3 t4 assms(1,2) show ?thesis
    by (simp add: numeral_eq_Suc turn_valid turned_4)
qed

theorem four_rotations_restore_witness:
  "list_all (\<lambda>r. valid_space (wall_T\<lparr>piece_x := 4, rotation := r\<rparr>) empty_grid) [0, 1, 2, 3] \<and>
   ((\<lambda>q. snd (try_rotate_with_kicks q empty_grid)) ^^ 4) (wall_T\<lparr>piece_x := 4\<rparr>) =
     wall_T\<lparr>piece_x := 4\<rparr>"
proof -
  have "list_all (\<lambda>r. valid_space (wall_T\<lparr>piece_x := 4, rotation := r\<rparr>) empty_grid) [0, 1, 2, 3]"
    by code_simp
  with four_rotations_restore [of "wall_T\<lparr>piece_x := 4\<rparr>" empty_grid] show ?thesis
    by (simp add: wall_T_def)
qed

section \<open>What a rotation does to the cells\<close>

text \<open>Two pieces with the same pivot occupy the same cells exactly when their
  rotation states hold the same offsets; which states of a shape do is decided
  on the tables.\<close>

lemma set_get_cells_eq_iff:
  assumes "piece_x q = piece_x p" and "piece_y q = piece_y p"
  shows "set (get_cells q) = set (get_cells p) \<longleftrightarrow>
         set (shape q ! nat (rotation q mod 4)) = set (shape p ! nat (rotation p mod 4))"
  using assms inj_image_eq_iff [OF inj_translate [of "piece_x p" "piece_y p"]]
  by (simp add: get_cells_eq)

lemma turn_table:
  "list_all (\<lambda>s. list_all (\<lambda>r.
      (set (s ! ((r + 2) mod 4)) = set (s ! r)) = (s \<in> set [shape_I, shape_O, shape_S, shape_Z]) \<and>
      (set (s ! ((r + 1) mod 4)) = set (s ! r)) = (s = shape_O)) [0..<4]) SHAPES"
  by code_simp

lemma turn_states:
  assumes "i < 7" and "r < 4"
  shows "set (SHAPES ! i ! ((r + 2) mod 4)) = set (SHAPES ! i ! r) \<longleftrightarrow>
         SHAPES ! i \<in> {shape_I, shape_O, shape_S, shape_Z}"
    and "set (SHAPES ! i ! ((r + 1) mod 4)) = set (SHAPES ! i ! r) \<longleftrightarrow> SHAPES ! i = shape_O"
proof -
  from assms(1) have "SHAPES ! i \<in> set SHAPES" by (intro nth_mem) simp
  with turn_table assms(2) show
    "set (SHAPES ! i ! ((r + 2) mod 4)) = set (SHAPES ! i ! r) \<longleftrightarrow>
       SHAPES ! i \<in> {shape_I, shape_O, shape_S, shape_Z}"
    "set (SHAPES ! i ! ((r + 1) mod 4)) = set (SHAPES ! i ! r) \<longleftrightarrow> SHAPES ! i = shape_O"
    by (simp_all add: list_all_iff)
qed

lemma piece_ok_flat_I: "piece_ok flat_I"
  by (simp add: flat_I_def piece_ok_def py_index_def SHAPES_def SHAPE_COLORS_def)

text \<open>C39: Turning a piece twice leaves it on the cells it was on exactly when it
  is an I, O, S or Z piece, and turning it once does so for the O piece only:
  in whatever rotation state and place, the pieces I, S and Z have two
  orientations, not four, and only T, J and L have four.\<close>

theorem rotation_states_repeat:
  assumes "piece_ok p"
  shows "(set (get_cells (turned (turned p))) = set (get_cells p)) =
           (shape p \<in> {shape_I, shape_O, shape_S, shape_Z}) \<and>
         (set (get_cells (turned p)) = set (get_cells p)) = (shape p = shape_O)"
proof -
  from assms obtain i where i: "i < 7" "shape p = SHAPES ! i" by (rule piece_ok_shape)
  from assms have r: "0 \<le> rotation p" "rotation p < 4"
    by (simp_all add: piece_ok_def)
  then have n: "nat (rotation p) < 4" by simp
  from r have "nat (((rotation p + 1) mod 4 + 1) mod 4) = (nat (rotation p) + 2) mod 4"
    "nat ((rotation p + 1) mod 4) = (nat (rotation p) + 1) mod 4"
    by (simp_all add: nat_mod_distrib nat_add_distrib mod_simps)
  with turn_states [OF i(1) n] i(2) r show ?thesis
    by (simp add: set_get_cells_eq_iff turned_def)
qed

theorem rotation_states_repeat_witness:
  "piece_ok flat_I \<and> set (get_cells (turned (turned flat_I))) = set (get_cells flat_I) \<and>
   set (get_cells (turned flat_I)) \<noteq> set (get_cells flat_I)"
  using rotation_states_repeat [OF piece_ok_flat_I]
  by (simp add: piece_ok_flat_I) (simp add: flat_I_def shape_defs)

end
