(* ===== verification/Line_Clear.thy ===== *)
theory Line_Clear
  imports Board
begin

text \<open>
  The line-clear engine, \<open>clear_rows\<close> of \<^verbatim>\<open>src/tetris.py\<close> (lines 146--173).
  The source works on the dictionary in place, in three phases that the model
  keeps apart:
  \<^item> \<open>rows_to_clear\<close>: the rows of the dense grid without a \<open>BLACK\<close> cell;
  \<^item> \<open>remove_rows\<close>: \<^verbatim>\<open>del locked[(x, y)]\<close> for every column of every such row,
    a missing key being ignored (\<open>del_ignoring\<close> is the \<^verbatim>\<open>try\<close>/\<^verbatim>\<open>except\<close>);
  \<^item> the loop over the remaining keys in descending order of \<open>y\<close>
    (\<open>sorted_keys\<close>, a stable sort), which pops a key and stores its colour
    \<open>shift_of rows y\<close> rows further down (\<open>shift_key\<close>).
  \<^verbatim>\<open>locked.pop\<close> raises \<^verbatim>\<open>KeyError\<close> on a missing key, so the operations return
  a \<open>result\<close>; \<open>clear_rows\<close> returns the count together with the dictionary it
  leaves behind. The variable \<^verbatim>\<open>rows_cleared\<close> of the source is written and
  never read, and is left out.

  \<open>compact\<close> is the specification: the board computed in one step from the
  board before the call. The refinement theorem says that the in-place loop
  never raises and leaves a dictionary that is, as a map, \<open>compact\<close> of the old
  one: the descending order keeps a moved cell from overwriting one that has
  not moved yet.
\<close>

section \<open>Operations\<close>

definition rows_to_clear :: "grid \<Rightarrow> int list" where
  "rows_to_clear grid = filter (\<lambda>y. BLACK \<notin> set (grid ! nat y)) (py_range GRID_HEIGHT)"

definition del_ignoring :: "coord \<Rightarrow> locked \<Rightarrow> locked result" where
  "del_ignoring key locked =
     (case dict_del key locked of
        Inr locked' \<Rightarrow> Inr locked'
      | Inl e \<Rightarrow> if e = KeyError then Inr locked else Inl e)"

definition row_positions :: "int list \<Rightarrow> coord list" where
  "row_positions rows = [(x, y). y \<leftarrow> rows, x \<leftarrow> py_range GRID_WIDTH]"

definition remove_rows :: "int list \<Rightarrow> locked \<Rightarrow> locked result" where
  "remove_rows rows locked = fold_result del_ignoring (row_positions rows) locked"

definition shift_of :: "int list \<Rightarrow> int \<Rightarrow> int" where
  "shift_of rows y = sum_list (map (\<lambda>row. 1) (filter (\<lambda>row. y < row) rows))"

definition sorted_keys :: "locked \<Rightarrow> coord list" where
  "sorted_keys locked = sort_key (\<lambda>p. - snd p) (dict_keys locked)"

definition shift_key :: "int list \<Rightarrow> coord \<Rightarrow> locked \<Rightarrow> locked result" where
  "shift_key rows key locked =
     (case key of (x, y) \<Rightarrow>
        let shift = shift_of rows y
        in if shift > 0
           then bind_result (dict_pop key locked)
                  (\<lambda>(c, locked'). Inr (dict_set (x, y + shift) c locked'))
           else Inr locked)"

definition shift_rows :: "int list \<Rightarrow> locked \<Rightarrow> locked result" where
  "shift_rows rows locked = fold_result (shift_key rows) (sorted_keys locked) locked"

definition clear_rows :: "grid \<Rightarrow> locked \<Rightarrow> (int \<times> locked) result" where
  "clear_rows grid locked =
     (let rows = rows_to_clear grid
      in if rows = [] then Inr (0, locked)
         else bind_result (remove_rows rows locked) (\<lambda>locked1.
              bind_result (shift_rows rows locked1) (\<lambda>locked2.
              Inr (int (length rows), locked2))))"

section \<open>Specification: the compacted board\<close>

definition moved :: "int list \<Rightarrow> coord \<Rightarrow> coord" where
  "moved rows pos = (fst pos, snd pos + shift_of rows (snd pos))"

definition kept :: "int list \<Rightarrow> locked \<Rightarrow> locked" where
  "kept rows locked = filter (\<lambda>(pos, c). snd pos \<notin> set rows) locked"

definition compact :: "int list \<Rightarrow> locked \<Rightarrow> locked" where
  "compact rows locked = map (\<lambda>(pos, c). (moved rows pos, c)) (kept rows locked)"

definition row_full :: "locked \<Rightarrow> int \<Rightarrow> bool" where
  "row_full locked y \<longleftrightarrow> list_all (\<lambda>x. (x, y) \<in> fst ` set locked) (py_range GRID_WIDTH)"

definition full_rows :: "locked \<Rightarrow> int list" where
  "full_rows locked = filter (row_full locked) (py_range GRID_HEIGHT)"

definition demo_board :: locked where
  "demo_board = map (\<lambda>x. ((x, 19), COLOR_I)) (py_range GRID_WIDTH) @ [((3, 18), COLOR_T)]"

fun safe_order :: "(coord \<Rightarrow> coord) \<Rightarrow> coord list \<Rightarrow> bool" where
  "safe_order f [] = True"
| "safe_order f (k # ks) = (f k \<notin> set ks \<and> safe_order f ks)"

section \<open>The shift of a row\<close>

lemma shift_of_length: "shift_of rows y = int (length (filter (\<lambda>row. y < row) rows))"
  by (simp add: shift_of_def sum_list_triv)

lemma shift_of_nonneg [simp]: "0 \<le> shift_of rows y"
  by (simp add: shift_of_length)

lemma shift_of_Nil [simp]: "shift_of [] y = 0"
  by (simp add: shift_of_def)

lemma shift_of_card:
  "distinct rows \<Longrightarrow> shift_of rows y = int (card {r \<in> set rows. y < r})"
  by (simp add: shift_of_length distinct_length_filter Int_def conj_commute)

lemma shift_of_le_length: "shift_of rows y \<le> int (length rows)"
  by (simp add: shift_of_length)

lemma shift_of_antimono: "y \<le> y' \<Longrightarrow> shift_of rows y' \<le> shift_of rows y"
proof -
  assume "y \<le> y'"
  then have "length (filter (\<lambda>row. y' < row) rows) \<le> length (filter (\<lambda>row. y < row) rows)"
    by (induction rows) auto
  then show ?thesis by (simp add: shift_of_length)
qed

text \<open>Between two rows, the lower of which stays, fewer rows are cleared than
  the rows are apart: cells keep their vertical order when they fall.\<close>

lemma shift_of_diff_bound:
  assumes "distinct rows" and "y < y'" and "y' \<notin> set rows"
  shows "shift_of rows y - shift_of rows y' < y' - y"
proof -
  let ?A = "{r \<in> set rows. y < r}" and ?B = "{r \<in> set rows. y' < r}"
  have fin: "finite ?A" by simp
  from assms(2) have sub: "?B \<subseteq> ?A" by auto
  from assms(2,3) have "?A - ?B \<subseteq> {y<..<y'}" by (auto simp: not_less le_less)
  then have "card (?A - ?B) \<le> card {y<..<y'}"
    by (rule card_mono [OF finite_greaterThanLessThan_int])
  also from assms(2) have "card {y<..<y'} = nat (y' - y - 1)" by simp
  finally have bound: "card (?A - ?B) \<le> nat (y' - y - 1)" .
  have diff: "card (?A - ?B) = card ?A - card ?B"
    by (rule card_Diff_subset) (use sub in auto)
  have "card ?B \<le> card ?A"
    by (rule card_mono [OF fin sub])
  with bound diff assms(2) have "int (card ?A) - int (card ?B) \<le> y' - y - 1"
    by linarith
  with assms(1) show ?thesis by (simp add: shift_of_card)
qed

lemma moved_strict_mono:
  "distinct rows \<Longrightarrow> y < y' \<Longrightarrow> y' \<notin> set rows \<Longrightarrow>
   y + shift_of rows y < y' + shift_of rows y'"
  using shift_of_diff_bound [of rows y y'] by simp

lemma moved_fields [simp]:
  "fst (moved rows pos) = fst pos" "snd (moved rows pos) = snd pos + shift_of rows (snd pos)"
  by (simp_all add: moved_def)

lemma moved_Nil [simp]: "moved [] pos = pos"
  by (simp add: moved_def)

lemma moved_eq_iff: "moved rows pos = pos \<longleftrightarrow> shift_of rows (snd pos) = 0"
  by (simp add: moved_def prod_eq_iff)

lemma inj_on_moved:
  assumes "distinct rows"
  shows "inj_on (moved rows) {pos. snd pos \<notin> set rows}"
proof (rule inj_onI)
  fix p q
  assume p: "p \<in> {pos. snd pos \<notin> set rows}" and q: "q \<in> {pos. snd pos \<notin> set rows}"
    and eq: "moved rows p = moved rows q"
  have "snd p = snd q"
  proof (rule ccontr)
    assume "snd p \<noteq> snd q"
    then consider "snd p < snd q" | "snd q < snd p" by linarith
    then show False
      using moved_strict_mono [OF assms, of "snd p" "snd q"]
        moved_strict_mono [OF assms, of "snd q" "snd p"] p q eq
      by cases (auto simp: moved_def)
  qed
  with eq show "p = q" by (simp add: moved_def prod_eq_iff)
qed

section \<open>Removing the full rows\<close>

lemma del_ignoring_eq [simp]: "del_ignoring key locked = Inr (AList.delete key locked)"
proof (cases "key \<in> fst ` set locked")
  case True
  then show ?thesis
    by (auto simp: del_ignoring_def dict_del_def map_of_None_iff split: option.splits sum.splits)
next
  case False
  then show ?thesis
    by (auto simp: del_ignoring_def dict_del_def map_of_None_iff split: option.splits sum.splits)
qed

lemma fold_delete_filter:
  "fold AList.delete ks locked = filter (\<lambda>e. fst e \<notin> set ks) locked"
  by (induction ks arbitrary: locked)
    (auto simp: AList.delete_eq case_prod_beta intro!: filter_cong)

lemma set_row_positions:
  "set (row_positions rows) = {pos. snd pos \<in> set rows \<and> 0 \<le> fst pos \<and> fst pos < GRID_WIDTH}"
  by (auto simp: row_positions_def)

lemma remove_rows_filter:
  "remove_rows rows locked = Inr (filter (\<lambda>e. fst e \<notin> set (row_positions rows)) locked)"
  by (simp add: remove_rows_def fold_result_total [where g = AList.delete] fold_delete_filter)

lemma remove_rows_eq:
  assumes "list_all (\<lambda>(pos, c). in_walls pos) locked"
  shows "remove_rows rows locked = Inr (kept rows locked)"
proof -
  from assms have "filter (\<lambda>e. fst e \<notin> set (row_positions rows)) locked = kept rows locked"
    unfolding kept_def
    by (intro filter_cong refl) (auto simp: set_row_positions list_all_iff in_walls_def)
  then show ?thesis by (simp add: remove_rows_filter)
qed

section \<open>Moving one key\<close>

lemma shift_key_unfold:
  "shift_key rows key locked =
     (if 0 < shift_of rows (snd key)
      then bind_result (dict_pop key locked) (\<lambda>(c, l). Inr (dict_set (moved rows key) c l))
      else Inr locked)"
  by (cases key) (simp add: shift_key_def moved_def Let_def)

lemma shift_of_pos_iff: "0 < shift_of rows y \<longleftrightarrow> shift_of rows y \<noteq> 0"
  using shift_of_nonneg [of rows y] by linarith

lemma shift_key_unmoved:
  "shift_of rows (snd key) = 0 \<Longrightarrow> shift_key rows key locked = Inr locked"
  by (simp add: shift_key_unfold)

lemma shift_key_moved:
  "map_of locked key = Some c \<Longrightarrow> shift_of rows (snd key) \<noteq> 0 \<Longrightarrow>
   shift_key rows key locked = Inr (dict_set (moved rows key) c (AList.delete key locked))"
  by (simp add: shift_key_unfold shift_of_pos_iff dict_pop_def)

lemma shift_key_missing:
  "map_of locked key = None \<Longrightarrow> shift_of rows (snd key) \<noteq> 0 \<Longrightarrow>
   shift_key rows key locked = Inl KeyError"
  by (simp add: shift_key_unfold shift_of_pos_iff dict_pop_def)

text \<open>One step of the loop, seen through \<open>map_of\<close>: the entry of the key
  moves to \<open>moved rows key\<close>, everything else stays.\<close>

lemma shift_key_step:
  assumes "dict_wf locked" and "map_of locked key = Some c"
  obtains locked' where "shift_key rows key locked = Inr locked'" "dict_wf locked'"
    "map_of locked' = ((map_of locked)(key := None))(moved rows key \<mapsto> c)"
    "fst ` set locked' = insert (moved rows key) (fst ` set locked - {key})"
proof (cases "shift_of rows (snd key) = 0")
  case True
  then have same: "moved rows key = key" by (simp add: moved_eq_iff)
  show thesis
  proof (rule that [of locked])
    from assms(2) same show "map_of locked = ((map_of locked)(key := None))(moved rows key \<mapsto> c)"
      by (auto simp: fun_eq_iff)
    from assms(2) same show "fst ` set locked = insert (moved rows key) (fst ` set locked - {key})"
      by (auto dest: map_of_Some_key)
  qed (use True assms(1) in \<open>simp_all add: shift_key_unmoved\<close>)
next
  case False
  show thesis
  proof (rule that [of "dict_set (moved rows key) c (AList.delete key locked)"])
    from assms(2) False
    show "shift_key rows key locked = Inr (dict_set (moved rows key) c (AList.delete key locked))"
      by (rule shift_key_moved)
  qed (use assms(1) in \<open>simp_all add: dict_simps dict_wf_intros\<close>)
qed

section \<open>The loop over the keys\<close>

lemma safe_order_sorted:
  "distinct ks \<Longrightarrow> sorted (map (\<lambda>p. - snd p) ks) \<Longrightarrow> safe_order (moved rows) ks"
proof (induction ks)
  case Nil
  then show ?case by simp
next
  case (Cons k ks)
  have "moved rows k \<notin> set ks"
  proof
    assume mem: "moved rows k \<in> set ks"
    with Cons.prems(2) have "snd (moved rows k) \<le> snd k" by auto
    then have "shift_of rows (snd k) = 0"
      using shift_of_nonneg [of rows "snd k"] by simp
    then have "moved rows k = k" by (simp add: moved_eq_iff)
    with mem Cons.prems(1) show False by simp
  qed
  with Cons show ?case by simp
qed

lemma safe_order_sorted_keys:
  "dict_wf locked \<Longrightarrow> safe_order (moved rows) (sorted_keys locked)"
  by (simp add: sorted_keys_def safe_order_sorted)

lemma set_sorted_keys [simp]: "set (sorted_keys locked) = fst ` set locked"
  by (simp add: sorted_keys_def)

lemma distinct_sorted_keys [simp]: "distinct (sorted_keys locked) = dict_wf locked"
  by (simp add: sorted_keys_def)

text \<open>The loop never pops a key that is gone: the keys still to be visited are
  keys of the dictionary at every step.\<close>

lemma fold_shift_key_ok:
  assumes "dict_wf locked" and "distinct ks" and "set ks \<subseteq> fst ` set locked"
  shows "is_ok (fold_result (shift_key rows) ks locked)"
  using assms
proof (induction ks arbitrary: locked)
  case Nil
  then show ?case by simp
next
  case (Cons k ks)
  from Cons.prems(3) obtain c where c: "map_of locked k = Some c"
    using map_of_key_Some [of k locked] by auto
  from Cons.prems(1) c obtain locked' where step: "shift_key rows k locked = Inr locked'"
    "dict_wf locked'" "fst ` set locked' = insert (moved rows k) (fst ` set locked - {k})"
    by (rule shift_key_step [where rows = rows]) blast
  from Cons.prems(2,3) step(3) have "set ks \<subseteq> fst ` set locked'" by auto
  with Cons.IH [OF step(2)] Cons.prems(2) step(1) show ?case by simp
qed

text \<open>The effect of the loop, when no key moves onto a key that is still to be
  visited (\<open>safe_order\<close>) and no two keys move to the same place.\<close>


lemma shift_then_rest:
  fixes m m1 m2 :: "'a \<rightharpoonup> 'b"
  assumes "m1 = (m(k := None))(f k \<mapsto> c)" and "m k = Some c"
    and "k \<notin> set ks" and "f k \<notin> set ks" and "f k \<notin> f ` set ks"
    and "\<forall>k' \<in> set ks. m2 (f k') = m1 k'"
    and "\<forall>q. q \<notin> f ` set ks \<longrightarrow> m2 q = (if q \<in> set ks then None else m1 q)"
  shows "\<forall>k' \<in> set (k # ks). m2 (f k') = m k'"
    and "\<forall>q. q \<notin> f ` set (k # ks) \<longrightarrow> m2 q = (if q \<in> set (k # ks) then None else m q)"
proof -
  from assms(4,5,7) have "m2 (f k) = m1 (f k)" by simp
  with assms(1,2) have "m2 (f k) = m k" by simp
  moreover have "m2 (f k') = m k'" if "k' \<in> set ks" for k'
  proof -
    from that assms(3,4) have "k' \<noteq> k" "k' \<noteq> f k" by auto
    with that assms(1,6) show ?thesis by simp
  qed
  ultimately show "\<forall>k' \<in> set (k # ks). m2 (f k') = m k'" by simp
  show "\<forall>q. q \<notin> f ` set (k # ks) \<longrightarrow> m2 q = (if q \<in> set (k # ks) then None else m q)"
    using assms(1,7) by auto
qed

lemma fold_shift_key:
  assumes "dict_wf locked" and "distinct ks" and "set ks \<subseteq> fst ` set locked"
    and "inj_on (moved rows) (set ks)" and "safe_order (moved rows) ks"
  shows "\<exists>locked'. fold_result (shift_key rows) ks locked = Inr locked' \<and> dict_wf locked' \<and>
    (\<forall>k \<in> set ks. map_of locked' (moved rows k) = map_of locked k) \<and>
    (\<forall>q. q \<notin> moved rows ` set ks \<longrightarrow>
       map_of locked' q = (if q \<in> set ks then None else map_of locked q))"
  using assms
proof (induction ks arbitrary: locked)
  case Nil
  then show ?case by simp
next
  case (Cons k ks)
  note prems = Cons.prems
  from prems(3) obtain c where c: "map_of locked k = Some c"
    using map_of_key_Some [of k locked] by auto
  from prems(1) c obtain l1 where step: "shift_key rows k locked = Inr l1" "dict_wf l1"
    "map_of l1 = ((map_of locked)(k := None))(moved rows k \<mapsto> c)"
    "fst ` set l1 = insert (moved rows k) (fst ` set locked - {k})"
    by (rule shift_key_step)
  from prems have k: "k \<notin> set ks" "moved rows k \<notin> set ks" "moved rows k \<notin> moved rows ` set ks"
    by auto
  from prems(2,3) step(4) have sub: "set ks \<subseteq> fst ` set l1" by auto
  from prems have "distinct ks" "inj_on (moved rows) (set ks)" "safe_order (moved rows) ks"
    by simp_all
  with step(2) sub obtain l2 where rest: "fold_result (shift_key rows) ks l1 = Inr l2"
    "dict_wf l2"
    "\<forall>k' \<in> set ks. map_of l2 (moved rows k') = map_of l1 k'"
    "\<forall>q. q \<notin> moved rows ` set ks \<longrightarrow>
       map_of l2 q = (if q \<in> set ks then None else map_of l1 q)"
    using Cons.IH [of l1] by blast
  from step(1) rest(1) have "fold_result (shift_key rows) (k # ks) locked = Inr l2"
    by simp
  with rest(2) shift_then_rest [OF step(3) c k rest(3,4)] show ?case by blast
qed


lemma shift_rows_renames:
  assumes "dict_wf locked" and "distinct rows"
    and "list_all (\<lambda>(pos, c). snd pos \<notin> set rows) locked"
  shows "\<exists>locked'. shift_rows rows locked = Inr locked' \<and> dict_wf locked' \<and>
           map_of locked' = map_of (map (\<lambda>(pos, c). (moved rows pos, c)) locked)"
proof -
  from assms(3) have keys: "fst ` set locked \<subseteq> {pos. snd pos \<notin> set rows}"
    by (auto simp: list_all_iff)
  with assms(2) have inj: "inj_on (moved rows) (fst ` set locked)"
    by (rule inj_on_subset [OF inj_on_moved])
  with assms(1) obtain locked' where l: "shift_rows rows locked = Inr locked'" "dict_wf locked'"
    "\<forall>k \<in> fst ` set locked. map_of locked' (moved rows k) = map_of locked k"
    "\<forall>q. q \<notin> moved rows ` fst ` set locked \<longrightarrow>
       map_of locked' q = (if q \<in> fst ` set locked then None else map_of locked q)"
    using fold_shift_key [of locked "sorted_keys locked" rows]
    by (auto simp: shift_rows_def safe_order_sorted_keys)
  have "map_of locked' q = map_of (map (\<lambda>(pos, c). (moved rows pos, c)) locked) q" for q
  proof (cases "q \<in> moved rows ` fst ` set locked")
    case True
    then obtain k where k: "k \<in> fst ` set locked" "q = moved rows k" by auto
    with l(3) have "map_of locked' q = map_of locked k" by blast
    with inj k show ?thesis by (simp add: map_of_rename_key)
  next
    case False
    with l(4) have "map_of locked' q = (if q \<in> fst ` set locked then None else map_of locked q)"
      by blast
    then have "map_of locked' q = None" by (auto simp: map_of_None_iff)
    with False show ?thesis by (simp add: map_of_rename_None)
  qed
  with l(1,2) show ?thesis by auto
qed


section \<open>The rows that are cleared\<close>

lemma rows_to_clear_props [simp]:
  "distinct (rows_to_clear grid)" "sorted (rows_to_clear grid)"
  by (simp_all add: rows_to_clear_def sorted_wrt_filter)

lemma set_rows_to_clear:
  "set (rows_to_clear grid) = {y. 0 \<le> y \<and> y < GRID_HEIGHT \<and> BLACK \<notin> set (grid ! nat y)}"
  by (auto simp: rows_to_clear_def)

lemma full_rows_props [simp]:
  "distinct (full_rows locked)" "sorted (full_rows locked)"
  by (simp_all add: full_rows_def sorted_wrt_filter)

lemma set_full_rows:
  "set (full_rows locked) = {y. 0 \<le> y \<and> y < GRID_HEIGHT \<and> row_full locked y}"
  by (auto simp: full_rows_def)

lemma row_full_iff:
  "row_full locked y \<longleftrightarrow> (\<forall>x. 0 \<le> x \<and> x < GRID_WIDTH \<longrightarrow> (x, y) \<in> fst ` set locked)"
  by (auto simp: row_full_def list_all_iff)

lemma set_grid_row:
  assumes "grid_ok g" and "0 \<le> y" and "y < GRID_HEIGHT"
  shows "set (g ! nat y) = (\<lambda>x. cell g (x, y)) ` {0..<GRID_WIDTH}"
proof -
  from assms have len: "length (g ! nat y) = 10"
    by (simp add: grid_ok_rows game_consts nat_less_iff)
  have "set (g ! nat y) = (\<lambda>j. g ! nat y ! j) ` {0..<10}"
    by (simp add: set_conv_nth len image_def Bex_def conj_commute)
  also have "\<dots> = (\<lambda>x. g ! nat y ! nat x) ` {0..<10::int}"
  proof (intro equalityI subsetI)
    fix c assume "c \<in> (\<lambda>j. g ! nat y ! j) ` {0..<10}"
    then obtain j where "j < 10" "c = g ! nat y ! j" by auto
    then show "c \<in> (\<lambda>x. g ! nat y ! nat x) ` {0..<10::int}"
      by (intro image_eqI [where x = "int j"]) simp_all
  next
    fix c assume "c \<in> (\<lambda>x. g ! nat y ! nat x) ` {0..<10::int}"
    then obtain x :: int where "0 \<le> x" "x < 10" "c = g ! nat y ! nat x" by auto
    then show "c \<in> (\<lambda>j. g ! nat y ! j) ` {0..<10}"
      by (intro image_eqI [where x = "nat x"]) simp_all
  qed
  finally show ?thesis by (simp add: cell_def game_consts)
qed

lemma rows_to_clear_create_grid:
  assumes "board_ok locked"
  shows "rows_to_clear (create_grid locked) = full_rows locked"
proof -
  have "BLACK \<notin> set (create_grid locked ! nat y) \<longleftrightarrow> row_full locked y"
    if y: "y \<in> set (py_range GRID_HEIGHT)" for y
  proof -
    from y have "set (create_grid locked ! nat y) =
        (\<lambda>x. cell (create_grid locked) (x, y)) ` {0..<GRID_WIDTH}"
      by (simp add: set_grid_row)
    then have "BLACK \<notin> set (create_grid locked ! nat y) \<longleftrightarrow>
        (\<forall>x \<in> {0..<GRID_WIDTH}. cell (create_grid locked) (x, y) \<noteq> BLACK)"
      by (simp add: image_iff) metis
    also from y assms have "\<dots> \<longleftrightarrow> (\<forall>x \<in> {0..<GRID_WIDTH}. (x, y) \<in> fst ` set locked)"
      by (intro ball_cong refl)
        (simp add: create_grid_cell board_okD cell_of_BLACK_iff in_grid_def)
    finally show ?thesis by (auto simp: row_full_iff)
  qed
  then show ?thesis
    unfolding rows_to_clear_def full_rows_def by (intro filter_cong refl)
qed


section \<open>The compacted board\<close>


lemma keys_kept [simp]:
  "fst ` set (kept rows locked) = {pos \<in> fst ` set locked. snd pos \<notin> set rows}"
  unfolding kept_def by force

lemma dict_wf_kept [simp]: "dict_wf locked \<Longrightarrow> dict_wf (kept rows locked)"
  by (simp add: kept_def distinct_map_filter)

lemma map_of_kept:
  "map_of (kept rows locked) pos = (if snd pos \<in> set rows then None else map_of locked pos)"
  unfolding kept_def by (induction locked) auto

lemma kept_Nil [simp]: "kept [] locked = locked"
  by (simp add: kept_def)

lemma compact_Nil [simp]: "compact [] locked = locked"
  unfolding compact_def kept_Nil by (induction locked) auto

lemma list_all_kept: "list_all P locked \<Longrightarrow> list_all P (kept rows locked)"
  by (simp add: kept_def list_all_iff)

lemma kept_rows_gone: "list_all (\<lambda>(pos, c). snd pos \<notin> set rows) (kept rows locked)"
  by (simp add: kept_def list_all_iff)

lemma inj_on_moved_kept:
  "distinct rows \<Longrightarrow> inj_on (moved rows) (fst ` set (kept rows locked))"
  by (rule inj_on_subset [OF inj_on_moved]) auto

lemma dict_wf_compact: "distinct rows \<Longrightarrow> dict_wf locked \<Longrightarrow> dict_wf (compact rows locked)"
  unfolding compact_def by (intro dict_wf_rename inj_on_moved_kept) simp_all

lemma keys_compact:
  "fst ` set (compact rows locked) = moved rows ` {pos \<in> fst ` set locked. snd pos \<notin> set rows}"
  by (simp only: compact_def keys_rename keys_kept)

text \<open>What \<open>compact\<close> means cell by cell: a cell of a row that stays is found
  \<open>shift_of rows y\<close> rows further down, and nothing else is on the board.\<close>

lemma map_of_compact_moved:
  assumes "distinct rows" and "snd pos \<notin> set rows"
  shows "map_of (compact rows locked) (moved rows pos) = map_of locked pos"
proof (cases "pos \<in> fst ` set locked")
  case True
  with assms(2) have "pos \<in> fst ` set (kept rows locked)"
    by simp
  with assms show ?thesis
    by (simp add: compact_def map_of_rename_key inj_on_moved_kept map_of_kept del: keys_kept)
next
  case False
  have "moved rows pos \<notin> fst ` set (compact rows locked)"
  proof
    assume "moved rows pos \<in> fst ` set (compact rows locked)"
    then obtain q where q: "q \<in> fst ` set locked" "snd q \<notin> set rows"
      "moved rows pos = moved rows q"
      unfolding keys_compact by blast
    from inj_onD [OF inj_on_moved [OF assms(1)] q(3)] assms(2) q(2) have "pos = q"
      by simp
    with q(1) False show False by simp
  qed
  with False have "map_of (compact rows locked) (moved rows pos) = None" "map_of locked pos = None"
    by (simp_all add: map_of_None_iff)
  then show ?thesis by simp
qed

lemma map_of_compact_None:
  "q \<notin> moved rows ` {pos \<in> fst ` set locked. snd pos \<notin> set rows} \<Longrightarrow>
   map_of (compact rows locked) q = None"
  by (simp add: map_of_None_iff keys_compact)

lemma moved_below_floor:
  assumes "distinct rows" and "set rows \<subseteq> {0..<GRID_HEIGHT}" and "y < GRID_HEIGHT"
  shows "y + shift_of rows y < GRID_HEIGHT"
proof -
  from assms(2) have "GRID_HEIGHT \<notin> set rows" by auto
  moreover from assms(2) have "filter (\<lambda>row. GRID_HEIGHT < row) rows = []"
    by (auto simp: filter_empty_conv)
  then have "shift_of rows GRID_HEIGHT = 0" by (simp add: shift_of_length)
  ultimately show ?thesis
    using moved_strict_mono [OF assms(1,3)] by simp
qed

lemma in_walls_moved:
  "distinct rows \<Longrightarrow> set rows \<subseteq> {0..<GRID_HEIGHT} \<Longrightarrow> in_walls pos \<Longrightarrow>
   in_walls (moved rows pos)"
  by (simp add: in_walls_def moved_below_floor)

lemma board_ok_compact:
  assumes "board_ok locked" and "distinct rows" and "set rows \<subseteq> {0..<GRID_HEIGHT}"
  shows "board_ok (compact rows locked)"
proof -
  from assms have "dict_wf (compact rows locked)"
    by (simp add: dict_wf_compact board_okD)
  moreover from assms have "list_all (\<lambda>(pos, c). in_walls pos \<and> c \<noteq> BLACK) (compact rows locked)"
    by (auto simp: compact_def kept_def list_all_iff in_walls_moved dest: board_okD)
  ultimately show ?thesis by (simp add: board_ok_def)
qed

lemma board_ok_cong:
  "dict_wf locked' \<Longrightarrow> map_of locked' = map_of locked \<Longrightarrow> board_ok locked \<Longrightarrow> board_ok locked'"
  by (simp add: board_ok_iff)

section \<open>clear_rows refines compact\<close>

lemma clear_rows_compact:
  assumes "dict_wf locked" and "list_all (\<lambda>(pos, c). in_walls pos) locked"
  shows "\<exists>locked'. clear_rows grid locked = Inr (int (length (rows_to_clear grid)), locked') \<and>
           dict_wf locked' \<and> map_of locked' = map_of (compact (rows_to_clear grid) locked)"
proof (cases "rows_to_clear grid = []")
  case True
  with assms(1) show ?thesis by (simp add: clear_rows_def)
next
  case False
  let ?rows = "rows_to_clear grid"
  let ?kept = "kept ?rows locked"
  from assms(2) have rm: "remove_rows ?rows locked = Inr ?kept"
    by (rule remove_rows_eq)
  from assms(1) obtain locked' where "shift_rows ?rows ?kept = Inr locked'" "dict_wf locked'"
    "map_of locked' = map_of (compact ?rows locked)"
    using shift_rows_renames [of ?kept ?rows] by (auto simp: compact_def kept_rows_gone)
  with rm False show ?thesis by (simp add: clear_rows_def)
qed

lemma clear_rows_ok:
  assumes "dict_wf locked"
  shows "is_ok (clear_rows grid locked)"
proof (cases "rows_to_clear grid = []")
  case True
  then show ?thesis by (simp add: clear_rows_def)
next
  case False
  let ?kept = "filter (\<lambda>e. fst e \<notin> set (row_positions (rows_to_clear grid))) locked"
  from assms have "dict_wf ?kept" by (simp add: distinct_map_filter)
  then have "is_ok (shift_rows (rows_to_clear grid) ?kept)"
    unfolding shift_rows_def by (intro fold_shift_key_ok) simp_all
  with False show ?thesis
    by (auto simp: clear_rows_def remove_rows_filter is_ok_iff)
qed


section \<open>The contract of clear_rows\<close>

lemma set_full_rows_bounds: "set (full_rows locked) \<subseteq> {0..<GRID_HEIGHT}"
  by (auto simp: set_full_rows)

lemma board_ok_walls: "board_ok locked \<Longrightarrow> list_all (\<lambda>(pos, c). in_walls pos) locked"
  by (auto simp: board_ok_def list_all_iff)

lemma board_ok_demo_board: "board_ok demo_board"
  by (simp add: board_ok_def demo_board_def py_range_def upto_rec1 in_walls_def game_consts
      color_defs)

lemma keys_cong: "map_of a = map_of b \<Longrightarrow> fst ` set a = fst ` set b"
  by (simp only: dom_map_of_keys [symmetric])

lemma row_full_cong:
  assumes "map_of a = map_of b"
  shows "row_full a = row_full b"
  using keys_cong [OF assms] by (simp add: row_full_def fun_eq_iff)

lemma full_rows_cong:
  assumes "map_of a = map_of b"
  shows "full_rows a = full_rows b"
  using row_full_cong [OF assms] by (simp add: full_rows_def)

lemma key_compact_iff:
  assumes "distinct rows" and "y \<notin> set rows"
  shows "(x, y + shift_of rows y) \<in> fst ` set (compact rows locked) \<longleftrightarrow> (x, y) \<in> fst ` set locked"
proof -
  have "(x, y + shift_of rows y) \<in> fst ` set (compact rows locked) \<longleftrightarrow>
      map_of (compact rows locked) (moved rows (x, y)) \<noteq> None"
    by (simp add: map_of_None_iff moved_def)
  also from assms have "\<dots> \<longleftrightarrow> map_of locked (x, y) \<noteq> None"
    by (simp add: map_of_compact_moved)
  finally show ?thesis by (simp add: map_of_None_iff)
qed

lemma row_full_compact:
  "distinct rows \<Longrightarrow> y \<notin> set rows \<Longrightarrow>
   row_full (compact rows locked) (y + shift_of rows y) \<longleftrightarrow> row_full locked y"
  by (simp add: row_full_def key_compact_iff)

lemma row_full_key: "row_full locked y \<Longrightarrow> (0, y) \<in> fst ` set locked"
  by (simp add: row_full_iff game_consts)

lemma row_full_compact_origin:
  assumes "distinct rows" and "row_full (compact rows locked) y'"
  shows "\<exists>y. y \<notin> set rows \<and> y' = y + shift_of rows y \<and> row_full locked y"
proof -
  from row_full_key [OF assms(2)]
  have "(0, y') \<in> moved rows ` {pos \<in> fst ` set locked. snd pos \<notin> set rows}"
    by (simp only: keys_compact)
  then obtain pos where "snd pos \<notin> set rows" "(0, y') = moved rows pos"
    by blast
  then have pos: "snd pos \<notin> set rows" "y' = snd pos + shift_of rows (snd pos)"
    by (simp_all add: moved_def)
  with assms show ?thesis
    by (auto simp: row_full_compact intro!: exI [of _ "snd pos"])
qed

lemma full_rows_compact:
  assumes "board_ok locked" and "\<forall>y<0. \<not> row_full locked y"
  shows "full_rows (compact (full_rows locked) locked) = []"
proof (rule ccontr)
  let ?rows = "full_rows locked"
  assume "full_rows (compact ?rows locked) \<noteq> []"
  then obtain y' where "y' \<in> set (full_rows (compact ?rows locked))"
    by (cases "full_rows (compact ?rows locked)") auto
  then have "row_full (compact ?rows locked) y'"
    by (simp add: set_full_rows)
  with row_full_compact_origin [of ?rows locked y'] obtain y
    where y: "y \<notin> set ?rows" "row_full locked y"
    by auto
  from row_full_key [OF y(2)] assms(1) have "y < GRID_HEIGHT"
    by (auto simp: in_walls_def dest: board_okD)
  with y assms(2) show False
    by (auto simp: set_full_rows not_less)
qed

lemma length_cong:
  assumes "dict_wf a" and "dict_wf b" and "map_of a = map_of b"
  shows "length a = length b"
proof -
  from assms(1,2) have "length a = card (fst ` set a)" "length b = card (fst ` set b)"
    using distinct_card [of "map fst a"] distinct_card [of "map fst b"] by simp_all
  with keys_cong [OF assms(3)] show ?thesis by simp
qed

lemma keys_full_rows:
  assumes "board_ok locked"
  shows "{pos \<in> fst ` set locked. snd pos \<in> set (full_rows locked)} =
         {0..<GRID_WIDTH} \<times> set (full_rows locked)"
  using assms
  by (auto simp: set_full_rows row_full_iff in_walls_def dest: board_okD)

lemma length_filter_keys:
  "dict_wf locked \<Longrightarrow>
   length (filter (\<lambda>(pos, c). P pos) locked) = card {pos \<in> fst ` set locked. P pos}"
proof -
  assume wf: "dict_wf locked"
  have "map fst (filter (\<lambda>(pos, c). P pos) locked) = filter P (map fst locked)"
    by (induction locked) auto
  then have "length (filter (\<lambda>(pos, c). P pos) locked) = length (filter P (map fst locked))"
    by (metis length_map)
  also from wf have "\<dots> = card (set (filter P (map fst locked)))"
    by (simp add: distinct_card del: set_filter)
  also have "set (filter P (map fst locked)) = {pos \<in> fst ` set locked. P pos}"
    by auto
  finally show ?thesis .
qed

lemma length_kept_full_rows:
  assumes "board_ok locked"
  shows "int (length (kept (full_rows locked) locked)) =
         int (length locked) - GRID_WIDTH * int (length (full_rows locked))"
proof -
  let ?rows = "full_rows locked"
  have "length locked = length (filter (\<lambda>(pos, c). snd pos \<in> set ?rows) locked) +
      length (kept ?rows locked)"
    using sum_length_filter_compl [of "\<lambda>e. snd (fst e) \<in> set ?rows" locked]
    by (simp add: kept_def split_def)
  moreover from assms have "length (filter (\<lambda>(pos, c). snd pos \<in> set ?rows) locked) =
      card ({0..<GRID_WIDTH} \<times> set ?rows)"
    by (simp add: length_filter_keys board_okD keys_full_rows)
  moreover have "card ({0..<GRID_WIDTH} \<times> set ?rows) = 10 * length ?rows"
    by (simp add: card_cartesian_product distinct_card game_consts)
  ultimately show ?thesis by (simp add: game_consts)
qed

lemma length_compact [simp]: "length (compact rows locked) = length (kept rows locked)"
  by (simp add: compact_def)

lemma clear_rows_total:
  assumes "dict_wf locked"
  shows "\<exists>locked'. clear_rows grid locked = Inr (int (length (rows_to_clear grid)), locked')"
proof -
  from clear_rows_ok [OF assms, of grid] obtain n locked' where "clear_rows grid locked = Inr (n, locked')"
    by (auto simp: is_ok_iff)
  moreover from this have "n = int (length (rows_to_clear grid))"
    by (auto simp: clear_rows_def Let_def bind_result_eq_Inr split: if_splits)
  ultimately show ?thesis by simp
qed

lemma clear_rows_board:
  assumes "board_ok locked" and "clear_rows (create_grid locked) locked = Inr (n, locked')"
  shows "n = int (length (full_rows locked))" and "board_ok locked'"
    and "map_of locked' = map_of (compact (full_rows locked) locked)"
proof -
  from assms(1) obtain l where l: "clear_rows (create_grid locked) locked =
      Inr (int (length (full_rows locked)), l)" "dict_wf l"
    "map_of l = map_of (compact (full_rows locked) locked)"
    using clear_rows_compact [of locked "create_grid locked"]
    by (auto simp: rows_to_clear_create_grid board_okD board_ok_walls)
  with assms(2) show "n = int (length (full_rows locked))"
    and "map_of locked' = map_of (compact (full_rows locked) locked)"
    by simp_all
  from assms(1) have "board_ok (compact (full_rows locked) locked)"
    by (simp add: board_ok_compact set_full_rows_bounds)
  with l assms(2) show "board_ok locked'"
    by (auto intro: board_ok_cong)
qed

lemma no_row_above_top:
  assumes "list_all (\<lambda>pos. 0 \<le> snd pos) (dict_keys locked)"
  shows "\<forall>y<0. \<not> row_full locked y"
proof (intro allI impI notI)
  fix y :: int assume "y < 0" "row_full locked y"
  with row_full_key [of locked y] assms show False
    by (auto simp: list_all_iff dict_keys_def)
qed

lemma clear_rows_demo_board:
  "clear_rows (create_grid demo_board) demo_board = Inr (1, [((3, 19), COLOR_T)])"
  by code_simp

lemma full_rows_demo_board: "full_rows demo_board = [19]"
  by code_simp

lemma demo_board_visible: "list_all (\<lambda>pos. 0 \<le> snd pos) (dict_keys demo_board)"
  by code_simp

lemma length_demo_board: "length demo_board = 11"
  by code_simp

text \<open>C1: on the grid of a board that satisfies the board invariant, the
  in-place loop of \<open>clear_rows\<close> raises nothing, returns the number of full rows
  and leaves a dictionary that satisfies the invariant again and is, as a map,
  the board \<open>compact\<close> computes in one step from the board before the call.\<close>

theorem clear_rows_refines_compact:
  assumes "board_ok locked"
  shows "\<exists>locked'. clear_rows (create_grid locked) locked =
             Inr (int (length (full_rows locked)), locked') \<and>
           board_ok locked' \<and> map_of locked' = map_of (compact (full_rows locked) locked)"
proof -
  let ?rows = "full_rows locked"
  from assms obtain locked' where l: "clear_rows (create_grid locked) locked =
      Inr (int (length ?rows), locked')" "dict_wf locked'"
    "map_of locked' = map_of (compact ?rows locked)"
    using clear_rows_compact [of locked "create_grid locked"]
    by (auto simp: rows_to_clear_create_grid board_okD board_ok_walls)
  from assms have "board_ok (compact ?rows locked)"
    by (simp add: board_ok_compact set_full_rows_bounds)
  with l(2,3) have "board_ok locked'" by (rule board_ok_cong)
  with l(1,3) show ?thesis by blast
qed

theorem clear_rows_refines_compact_witness:
  "board_ok demo_board \<and>
   (\<exists>locked'. clear_rows (create_grid demo_board) demo_board =
        Inr (int (length (full_rows demo_board)), locked') \<and>
      board_ok locked' \<and> map_of locked' = map_of (compact (full_rows demo_board) demo_board))"
  using clear_rows_refines_compact [of demo_board] by (simp add: board_ok_demo_board)


text \<open>C29: whatever the cells of the grid and the keys of the dictionary are,
  also when the two do not belong together, \<open>clear_rows\<close> raises no \<^verbatim>\<open>KeyError\<close>:
  none escapes the removal of the rows or the loop that pops the remaining
  keys, and the count it returns is the number of rows of the grid without a
  \<open>BLACK\<close> cell, between 0 and \<open>GRID_HEIGHT\<close>. (The \<^verbatim>\<open>IndexError\<close> of a grid with
  fewer than twenty rows is not modelled.)\<close>

theorem clear_rows_never_raises:
  assumes "dict_wf locked"
  shows "\<exists>locked'. clear_rows grid locked = Inr (int (length (rows_to_clear grid)), locked') \<and>
           0 \<le> length (rows_to_clear grid) \<and> int (length (rows_to_clear grid)) \<le> GRID_HEIGHT"
proof -
  have "length (rows_to_clear grid) \<le> length (py_range GRID_HEIGHT)"
    unfolding rows_to_clear_def by (rule length_filter_le)
  with clear_rows_total [OF assms] show ?thesis
    by (auto simp: game_consts)
qed

theorem clear_rows_never_raises_witness:
  "dict_wf demo_board \<and>
   (\<exists>locked'. clear_rows empty_grid demo_board =
      Inr (int (length (rows_to_clear empty_grid)), locked'))"
  using clear_rows_never_raises [of demo_board empty_grid] board_ok_demo_board
  by (simp add: board_okD)

text \<open>C13: after \<open>clear_rows\<close> no row of the grid is full, provided no row
  above the top of the grid held ten keys before the call.\<close>

theorem clear_rows_leaves_no_full_row:
  assumes "board_ok locked" and "\<forall>y<0. \<not> row_full locked y"
    and "clear_rows (create_grid locked) locked = Inr (n, locked')"
  shows "full_rows locked' = []"
proof -
  from clear_rows_board(3) [OF assms(1,3)]
  have "full_rows locked' = full_rows (compact (full_rows locked) locked)"
    by (rule full_rows_cong)
  with full_rows_compact [OF assms(1,2)] show ?thesis by simp
qed

theorem clear_rows_leaves_no_full_row_witness:
  "board_ok demo_board \<and> list_all (\<lambda>pos. 0 \<le> snd pos) (dict_keys demo_board) \<and>
   clear_rows (create_grid demo_board) demo_board = Inr (1, [((3, 19), COLOR_T)]) \<and>
   full_rows [((3, 19), COLOR_T)] = []"
  using clear_rows_leaves_no_full_row [OF board_ok_demo_board
      no_row_above_top [OF demo_board_visible] clear_rows_demo_board]
  by (simp add: board_ok_demo_board clear_rows_demo_board demo_board_visible)

text \<open>\<open>clear_rows\<close> removes exactly \<open>GRID_WIDTH\<close> entries of the
  dictionary for each row it reports as cleared.\<close>

lemma clear_rows_count:
  assumes "board_ok locked" and "clear_rows (create_grid locked) locked = Inr (n, locked')"
  shows "int (length locked') = int (length locked) - GRID_WIDTH * n"
proof -
  note r = clear_rows_board [OF assms]
  from r(2) assms(1) have "length locked' = length (compact (full_rows locked) locked)"
    by (intro length_cong r(3)) (simp_all add: board_okD dict_wf_compact)
  with r(1) length_kept_full_rows [OF assms(1)] show ?thesis by simp
qed

lemma clear_rows_count_witness:
  "board_ok demo_board \<and>
   clear_rows (create_grid demo_board) demo_board = Inr (1, [((3, 19), COLOR_T)]) \<and>
   int (length ([((3, 19), COLOR_T)] :: locked)) = int (length demo_board) - GRID_WIDTH * 1"
  using clear_rows_count [OF board_ok_demo_board clear_rows_demo_board]
  by (simp only: board_ok_demo_board clear_rows_demo_board simp_thms)

text \<open>C31: when exactly one row \<open>r\<close> is full, \<open>clear_rows\<close> returns 1, every
  row above \<open>r\<close> moves down by one and the rows below \<open>r\<close> stay as they were.\<close>

theorem clear_single_row:
  assumes "board_ok locked" and "full_rows locked = [r]"
    and "clear_rows (create_grid locked) locked = Inr (n, locked')"
  shows "n = 1 \<and> cell_of locked' (x, y) = cell_of locked (x, if y \<le> r then y - 1 else y)"
proof -
  note c = clear_rows_board [OF assms(1,3)]
  let ?y = "if y \<le> r then y - 1 else y"
  have "?y \<notin> set [r]" by auto
  then have "map_of (compact [r] locked) (moved [r] (x, ?y)) = map_of locked (x, ?y)"
    by (intro map_of_compact_moved) simp_all
  moreover have "moved [r] (x, ?y) = (x, y)"
    by (simp add: moved_def shift_of_def)
  ultimately show ?thesis
    using c(1,3) assms(2) by (simp add: cell_of_def)
qed

theorem clear_single_row_witness:
  "board_ok demo_board \<and> full_rows demo_board = [19] \<and>
   clear_rows (create_grid demo_board) demo_board = Inr (1, [((3, 19), COLOR_T)]) \<and>
   cell_of [((3, 19), COLOR_T)] (3, 19) = cell_of demo_board (3, 18) \<and>
   cell_of [((3, 19), COLOR_T)] (4, 19) = cell_of demo_board (4, 18)"
  using clear_single_row [OF board_ok_demo_board full_rows_demo_board clear_rows_demo_board, of 3 19]
    clear_single_row [OF board_ok_demo_board full_rows_demo_board clear_rows_demo_board, of 4 19]
  by (simp add: board_ok_demo_board full_rows_demo_board clear_rows_demo_board)

text \<open>On a board without a full row \<open>clear_rows\<close> returns 0 and the dictionary
  unchanged, its order of insertion included.\<close>

lemma clear_rows_nothing_full:
  assumes "board_ok locked" and "full_rows locked = []"
  shows "clear_rows (create_grid locked) locked = Inr (0, locked)"
  using assms by (simp add: clear_rows_def rows_to_clear_create_grid)

lemma clear_rows_nothing_full_example:
  "board_ok one_cell_board \<and> full_rows one_cell_board = [] \<and>
   clear_rows (create_grid one_cell_board) one_cell_board = Inr (0, one_cell_board)"
proof -
  have "full_rows one_cell_board = []" by code_simp
  with clear_rows_nothing_full [OF board_ok_one_cell_board] show ?thesis
    by (simp add: board_ok_one_cell_board)
qed

end
