(* ===== verification/Session.thy ===== *)
theory Session
  imports Collision Line_Clear
begin

text \<open>
  The game session, \<^verbatim>\<open>main\<close> of \<^verbatim>\<open>src/tetris.py\<close> (lines 286--399), and the loop
  of \<^verbatim>\<open>game_over\<close> (416--432).

  The local variables of \<^verbatim>\<open>main\<close> are the fields of the record \<open>session\<close>.
  What the loop reads from outside in one pass, it reads from an \<open>input\<close>: the
  milliseconds \<^verbatim>\<open>clock.tick\<close> returns, the list of events, the keys that are
  held, and the number the random generator draws if the pass creates a piece.
  One pass of the loop is \<open>frame\<close>, composed of the phases in the order of the
  source: \<open>tick\<close>, \<open>gravity\<close>, \<open>handle_events\<close>, \<open>handle_keys\<close> (the five key
  blocks \<open>key_left\<close> \<dots> \<open>key_up\<close> in \<open>arrow_keys\<close>, \<open>key_space\<close>, then the reset of
  the cooldown) and \<open>compose_grid\<close>, which together are \<open>moves\<close>, the part of the
  pass before the window is drawn, and then \<open>resolve_lock\<close>. \<open>run_frames\<close> is the
  \<^verbatim>\<open>while run\<close> loop over a list of inputs. The drawing of a pass and the calls
  between \<^verbatim>\<open>main\<close> and \<^verbatim>\<open>game_over\<close> are in the theory \<open>Program\<close>.

  \<^verbatim>\<open>sys.exit\<close> is the exception \<open>SystemExit\<close>; the loop of the hard drop is a
  \<open>partial_function\<close> in the option monad, so that a frame that does not return
  is the value \<open>None\<close>; \<open>drop_loop_terminates\<close> shows that it returns for every
  piece of the catalogue. Times are real numbers: the rounding of Python's
  floats is not modelled.

  \<open>session_inv\<close> is what holds of a session at every point of a pass,
  \<open>session_ok\<close> what holds between two passes; \<open>reachable\<close> are the sessions
  that \<^verbatim>\<open>main\<close> can be in.
\<close>

section \<open>Inputs and state\<close>

datatype key = K_LEFT | K_RIGHT | K_DOWN | K_UP | K_SPACE | K_ESCAPE | K_RETURN | K_OTHER

datatype event = QUIT | KEYDOWN key | OTHER_EVENT

record input =
  tick_ms :: nat
  events :: "event list"
  pressed :: "key list"
  draw :: nat

record session =
  locked_positions :: locked
  grid :: grid
  change_piece :: bool
  run :: bool
  current_piece :: piece
  next_piece :: piece
  fall_time :: real
  fall_speed :: real
  move_cooldown :: real
  score :: int

definition move_delay :: real where
  "move_delay = 0.08"

section \<open>Creating a piece\<close>

definition randrange :: "int \<Rightarrow> nat \<Rightarrow> int" where
  "randrange n r = int r mod n"

definition get_new_piece :: "nat \<Rightarrow> piece result" where
  "get_new_piece r = Piece (GRID_WIDTH div 2) 0 (randrange (int (length SHAPES)) r)"

definition init_session :: "nat \<Rightarrow> nat \<Rightarrow> session result" where
  "init_session r1 r2 =
     bind_result (get_new_piece r1) (\<lambda>cur.
     bind_result (get_new_piece r2) (\<lambda>nxt.
       Inr \<lparr>locked_positions = [], grid = create_grid [], change_piece = False, run = True,
            current_piece = cur, next_piece = nxt, fall_time = 0, fall_speed = 0.5,
            move_cooldown = 0, score = 0\<rparr>))"

section \<open>The phases of a frame\<close>

definition tick :: "real \<Rightarrow> session \<Rightarrow> session" where
  "tick dt s = s\<lparr>fall_time := fall_time s + dt, move_cooldown := move_cooldown s + dt\<rparr>"

definition gravity :: "session \<Rightarrow> session" where
  "gravity s =
     (if fall_time s \<ge> fall_speed s
      then let p = (current_piece s)\<lparr>piece_y := piece_y (current_piece s) + 1\<rparr>;
               g = create_grid (locked_positions s);
               s1 = s\<lparr>fall_time := 0, grid := g\<rparr>
           in if \<not> valid_space p g
              then s1\<lparr>current_piece := p\<lparr>piece_y := piece_y p - 1\<rparr>, change_piece := True\<rparr>
              else s1\<lparr>current_piece := p\<rparr>
      else s)"

fun handle_events :: "event list \<Rightarrow> session \<Rightarrow> session result" where
  "handle_events [] s = Inr s"
| "handle_events (e # es) s =
     (if e = QUIT then Inl SystemExit
      else if e = KEYDOWN K_ESCAPE then Inl SystemExit
      else handle_events es s)"

definition held :: "key list \<Rightarrow> session \<Rightarrow> key \<Rightarrow> bool" where
  "held keys s k \<longleftrightarrow> k \<in> set keys \<and> move_cooldown s \<ge> move_delay"

definition key_left :: "session \<times> bool \<Rightarrow> session \<times> bool" where
  "key_left = (\<lambda>(s, has_moved).
     let p = (current_piece s)\<lparr>piece_x := piece_x (current_piece s) - 1\<rparr>
     in if \<not> valid_space p (create_grid (locked_positions s))
        then (s\<lparr>current_piece := p\<lparr>piece_x := piece_x p + 1\<rparr>\<rparr>, has_moved)
        else (s\<lparr>current_piece := p\<rparr>, True))"

definition key_right :: "session \<times> bool \<Rightarrow> session \<times> bool" where
  "key_right = (\<lambda>(s, has_moved).
     let p = (current_piece s)\<lparr>piece_x := piece_x (current_piece s) + 1\<rparr>
     in if \<not> valid_space p (create_grid (locked_positions s))
        then (s\<lparr>current_piece := p\<lparr>piece_x := piece_x p - 1\<rparr>\<rparr>, has_moved)
        else (s\<lparr>current_piece := p\<rparr>, True))"

definition key_down :: "session \<times> bool \<Rightarrow> session \<times> bool" where
  "key_down = (\<lambda>(s, has_moved).
     let p = (current_piece s)\<lparr>piece_y := piece_y (current_piece s) + 1\<rparr>
     in if \<not> valid_space p (create_grid (locked_positions s))
        then (s\<lparr>current_piece := p\<lparr>piece_y := piece_y p - 1\<rparr>\<rparr>, has_moved)
        else (s\<lparr>current_piece := p\<rparr>, True))"

definition key_up :: "session \<times> bool \<Rightarrow> session \<times> bool" where
  "key_up = (\<lambda>(s, has_moved).
     case try_rotate_with_kicks (current_piece s) (create_grid (locked_positions s)) of
       (ok, p) \<Rightarrow> (s\<lparr>current_piece := p\<rparr>, if ok then True else has_moved))"

partial_function (option) drop_loop :: "piece \<Rightarrow> locked \<Rightarrow> piece option" where
  "drop_loop p locked =
     (if valid_space p (create_grid locked)
      then drop_loop (p\<lparr>piece_y := piece_y p + 1\<rparr>) locked
      else Some p)"

declare drop_loop.simps [code]

definition key_space :: "session \<times> bool \<Rightarrow> (session \<times> bool) option" where
  "key_space = (\<lambda>(s, has_moved).
     case drop_loop (current_piece s) (locked_positions s) of
       None \<Rightarrow> None
     | Some p \<Rightarrow> Some (s\<lparr>current_piece := p\<lparr>piece_y := piece_y p - 1\<rparr>, change_piece := True\<rparr>,
                       True))"

definition arrow_keys :: "key list \<Rightarrow> session \<Rightarrow> session \<times> bool" where
  "arrow_keys keys s =
     (let sm = (s, False);
          sm = (if held keys (fst sm) K_LEFT then key_left sm else sm);
          sm = (if held keys (fst sm) K_RIGHT then key_right sm else sm);
          sm = (if held keys (fst sm) K_DOWN then key_down sm else sm)
      in if held keys (fst sm) K_UP then key_up sm else sm)"

definition handle_keys :: "key list \<Rightarrow> session \<Rightarrow> session option" where
  "handle_keys keys s =
     (let sm = arrow_keys keys s
      in case (if held keys (fst sm) K_SPACE then key_space sm else Some sm) of
           None \<Rightarrow> None
         | Some (s', has_moved) \<Rightarrow> Some (if has_moved then s'\<lparr>move_cooldown := 0\<rparr> else s'))"

definition paint_piece :: "piece \<Rightarrow> grid \<Rightarrow> grid" where
  "paint_piece p g =
     fold (\<lambda>(x, y) g.
            if y \<ge> 0
            then if 0 \<le> x \<and> x < GRID_WIDTH \<and> 0 \<le> y \<and> y < GRID_HEIGHT
                 then g[nat y := (g ! nat y)[nat x := color p]] else g
            else g)
       (get_cells p) g"

definition compose_grid :: "session \<Rightarrow> session" where
  "compose_grid s = s\<lparr>grid := paint_piece (current_piece s) (create_grid (locked_positions s))\<rparr>"

definition score_for :: "int \<Rightarrow> int" where
  "score_for cleared =
     (if cleared = 1 then 100
      else if cleared = 2 then 300
      else if cleared = 3 then 500
      else if cleared \<ge> 4 then 800
      else 0)"

definition speed_up :: "real \<Rightarrow> real" where
  "speed_up v = max 0.08 (v * 0.995)"

definition resolve_lock :: "nat \<Rightarrow> session \<Rightarrow> session result" where
  "resolve_lock r s =
     (if change_piece s
      then let locked1 = lock_piece (current_piece s) (locked_positions s)
           in bind_result (clear_rows (grid s) locked1) (\<lambda>(cleared, locked2).
              bind_result (get_new_piece r) (\<lambda>new_piece.
                let s1 = s\<lparr>locked_positions := locked2,
                            score := score s + score_for cleared,
                            current_piece := next_piece s,
                            next_piece := new_piece,
                            change_piece := False,
                            fall_speed := speed_up (fall_speed s)\<rparr>
                in Inr (if check_lost locked2 then s1\<lparr>run := False\<rparr> else s1)))
      else Inr s)"

definition moves :: "input \<Rightarrow> session \<Rightarrow> session result option" where
  "moves i s =
     (let s1 = gravity (tick (real (tick_ms i) / 1000) s)
      in case handle_events (events i) s1 of
           Inl e \<Rightarrow> Some (Inl e)
         | Inr s2 \<Rightarrow>
             (case handle_keys (pressed i) s2 of
                None \<Rightarrow> None
              | Some s3 \<Rightarrow> Some (Inr (compose_grid s3))))"

definition frame :: "input \<Rightarrow> session \<Rightarrow> session result option" where
  "frame i s =
     (case moves i s of
        None \<Rightarrow> None
      | Some (Inl e) \<Rightarrow> Some (Inl e)
      | Some (Inr s4) \<Rightarrow> Some (resolve_lock (draw i) s4))"

fun run_frames :: "input list \<Rightarrow> session \<Rightarrow> session result option" where
  "run_frames [] s = Some (Inr s)"
| "run_frames (i # inputs) s =
     (if run s
      then case frame i s of
             None \<Rightarrow> None
           | Some (Inl e) \<Rightarrow> Some (Inl e)
           | Some (Inr s') \<Rightarrow> run_frames inputs s'
      else Some (Inr s))"

section \<open>The game-over screen\<close>

datatype choice = Restart | Waiting

fun game_over_events :: "event list \<Rightarrow> choice result" where
  "game_over_events [] = Inr Waiting"
| "game_over_events (e # es) =
     (if e = QUIT then Inl SystemExit
      else if e = KEYDOWN K_RETURN then Inr Restart
      else if e = KEYDOWN K_ESCAPE then Inl SystemExit
      else game_over_events es)"

section \<open>Invariant and reachable sessions\<close>

definition spawned :: "piece \<Rightarrow> bool" where
  "spawned p \<longleftrightarrow> piece_ok p \<and> piece_x p = GRID_WIDTH div 2 \<and> piece_y p = 0 \<and> rotation p = 0"

definition placed :: "piece \<Rightarrow> bool" where
  "placed p \<longleftrightarrow> piece_ok p \<and> in_bounds p"

definition session_inv :: "session \<Rightarrow> bool" where
  "session_inv s \<longleftrightarrow>
     board_ok (locked_positions s) \<and> full_rows (locked_positions s) = [] \<and>
     placed (current_piece s) \<and> spawned (next_piece s) \<and> grid_ok (grid s) \<and>
     0.08 \<le> fall_speed s \<and> fall_speed s \<le> 0.5 \<and>
     0 \<le> fall_time s \<and> 0 \<le> move_cooldown s \<and> 0 \<le> score s \<and> score s mod 100 = 0"

definition session_ok :: "session \<Rightarrow> bool" where
  "session_ok s \<longleftrightarrow>
     session_inv s \<and> \<not> change_piece s \<and> run s = (\<not> check_lost (locked_positions s))"

text \<open>The vocabulary of the lemmas: a piece \<open>k\<close> rows further down; a piece that
  stayed where it was or went to a valid position; a session that differs from
  another one in the current piece only.\<close>

definition lowered :: "piece \<Rightarrow> nat \<Rightarrow> piece" where
  "lowered p k = p\<lparr>piece_y := piece_y p + int k\<rparr>"

definition settled :: "locked \<Rightarrow> piece \<Rightarrow> piece \<Rightarrow> bool" where
  "settled locked p q \<longleftrightarrow> piece_ok q \<and> (q = p \<or> valid_space q (create_grid locked))"

definition piece_step :: "session \<Rightarrow> session \<Rightarrow> bool" where
  "piece_step s s' \<longleftrightarrow>
     s' = s\<lparr>current_piece := current_piece s'\<rparr> \<and>
     settled (locked_positions s) (current_piece s) (current_piece s')"

text \<open>The vocabulary of a pass: an event that ends the program; a session
  that is still in the same game with the same board; a session in which a
  piece has just been locked.\<close>

definition exits :: "event \<Rightarrow> bool" where
  "exits e \<longleftrightarrow> e = QUIT \<or> e = KEYDOWN K_ESCAPE"

definition same_game :: "session \<Rightarrow> session \<Rightarrow> bool" where
  "same_game s t \<longleftrightarrow>
     session_inv t \<and> locked_positions t = locked_positions s \<and> next_piece t = next_piece s \<and>
     score t = score s \<and> fall_speed t = fall_speed s \<and> run t = run s"

definition piece_locked :: "session \<Rightarrow> session \<Rightarrow> bool" where
  "piece_locked s t \<longleftrightarrow>
     (\<exists>q. placed q \<and>
        map_of (locked_positions t) =
          map_of (compact (full_rows (lock_piece q (locked_positions s)))
            (lock_piece q (locked_positions s))) \<and>
        score t = score s +
          score_for (int (length (full_rows (lock_piece q (locked_positions s)))))) \<and>
     current_piece t = next_piece s \<and> fall_speed t = speed_up (fall_speed s) \<and>
     run t = (\<not> check_lost (locked_positions t))"

inductive reachable :: "session \<Rightarrow> bool" where
  start: "init_session r1 r2 = Inr s \<Longrightarrow> reachable s"
| step: "reachable s \<Longrightarrow> run s \<Longrightarrow> frame i s = Some (Inr s') \<Longrightarrow> reachable s'"

text \<open>Example data: the session that starts with an I piece and a T piece
  next, the same session after the piece has fallen one row; a session whose O
  piece rests on one locked cell; inputs with no event and no key half a second
  after the last one, and with the space bar held.\<close>

definition spawn_I :: piece where
  "spawn_I = \<lparr>piece_x = 5, piece_y = 0, shape_index = 0, shape = shape_I, color = COLOR_I,
              rotation = 0\<rparr>"

definition demo_start :: session where
  "demo_start = \<lparr>locked_positions = [], grid = empty_grid, change_piece = False, run = True,
       current_piece = spawn_I, next_piece = spawn_T, fall_time = 0, fall_speed = 0.5,
       move_cooldown = 0, score = 0\<rparr>"

definition demo_fallen :: session where
  "demo_fallen = demo_start\<lparr>fall_time := 0, move_cooldown := 0.5,
       current_piece := lowered spawn_I 1, grid := paint_piece (lowered spawn_I 1) empty_grid\<rparr>"

definition ledge :: session where
  "ledge = \<lparr>locked_positions = [((0, 19), COLOR_I)], grid = empty_grid, change_piece = False,
       run = True,
       current_piece = \<lparr>piece_x = 0, piece_y = 17, shape_index = 1, shape = shape_O,
                          color = COLOR_O, rotation = 0\<rparr>,
       next_piece = spawn_T, fall_time = 0.25, fall_speed = 0.5, move_cooldown = 0.5,
       score = 0\<rparr>"

definition idle :: input where
  "idle = \<lparr>tick_ms = 500, events = [], pressed = [], draw = 1\<rparr>"

definition drop_now :: input where
  "drop_now = \<lparr>tick_ms = 100, events = [], pressed = [K_SPACE], draw = 1\<rparr>"

section \<open>Creating a piece: lemmas\<close>

lemma randrange_range: "0 < n \<Longrightarrow> 0 \<le> randrange n r \<and> randrange n r < n"
  by (simp add: randrange_def)

lemma get_new_piece_spawned: "\<exists>p. get_new_piece r = Inr p \<and> spawned p"
proof -
  let ?i = "randrange (int (length SHAPES)) r"
  from randrange_range [of "int (length SHAPES)" r] have i: "0 \<le> ?i" "?i < 7"
    by (simp_all add: length_SHAPES)
  then have "is_ok (py_index SHAPES ?i)" "is_ok (py_index SHAPE_COLORS ?i)"
    by (simp_all add: py_index_ok_iff length_SHAPES length_SHAPE_COLORS)
  then obtain sh c where "py_index SHAPES ?i = Inr sh" "py_index SHAPE_COLORS ?i = Inr c"
    by (auto simp: is_ok_iff)
  then show ?thesis
    by (simp add: get_new_piece_def Piece_def spawned_def piece_ok_def game_consts)
qed

lemma spawned_piece_ok: "spawned p \<Longrightarrow> piece_ok p"
  by (simp add: spawned_def)

lemma spawned_in_walls:
  assumes "spawned p"
  shows "list_all in_walls (get_cells p)"
proof -
  have "in_walls (a, b)" if "(a, b) \<in> set (get_cells p)" for a b
    using get_cells_near_pivot [OF spawned_piece_ok [OF assms] that] assms
    by (simp add: spawned_def in_walls_def game_consts)
  then show ?thesis by (auto simp: list_all_iff)
qed

lemma init_session_ok:
  "\<exists>s. init_session r1 r2 = Inr s \<and> session_ok s"
proof -
  from get_new_piece_spawned [of r1] get_new_piece_spawned [of r2]
  obtain p q where "get_new_piece r1 = Inr p" "spawned p" "get_new_piece r2 = Inr q" "spawned q"
    by blast
  then show ?thesis
    by (simp add: init_session_def session_ok_def session_inv_def placed_def in_bounds_iff
        spawned_piece_ok spawned_in_walls full_rows_def row_full_def py_range_def game_consts
        upto_rec1)
qed


section \<open>The arrow keys and gravity\<close>

lemma piece_restore [simp]:
  "p\<lparr>piece_x := piece_x p\<rparr> = p" "p\<lparr>piece_y := piece_y p\<rparr> = p"
  by simp_all

lemma session_restore [simp]: "s\<lparr>current_piece := current_piece s\<rparr> = s"
  by simp

lemma key_left_unfold:
  "key_left (s, m) =
     (let p = (current_piece s)\<lparr>piece_x := piece_x (current_piece s) - 1\<rparr>
      in if valid_space p (create_grid (locked_positions s))
         then (s\<lparr>current_piece := p\<rparr>, True) else (s, m))"
  by (simp add: key_left_def Let_def)

lemma key_right_unfold:
  "key_right (s, m) =
     (let p = (current_piece s)\<lparr>piece_x := piece_x (current_piece s) + 1\<rparr>
      in if valid_space p (create_grid (locked_positions s))
         then (s\<lparr>current_piece := p\<rparr>, True) else (s, m))"
  by (simp add: key_right_def Let_def)

lemma key_down_unfold:
  "key_down (s, m) =
     (let p = (current_piece s)\<lparr>piece_y := piece_y (current_piece s) + 1\<rparr>
      in if valid_space p (create_grid (locked_positions s))
         then (s\<lparr>current_piece := p\<rparr>, True) else (s, m))"
  by (simp add: key_down_def Let_def)

lemma key_up_unfold:
  "key_up (s, m) =
     (case find (\<lambda>dx. valid_space (kicked (turned (current_piece s)) dx)
                  (create_grid (locked_positions s))) kick_offsets of
        None \<Rightarrow> (s, m)
      | Some dx \<Rightarrow> (s\<lparr>current_piece := kicked (turned (current_piece s)) dx\<rparr>, True))"
  by (simp add: key_up_def try_rotate_with_kicks_unfold try_kicks_find kick_offsets_def
      split: option.splits)

lemma gravity_unfold:
  "gravity s =
     (if fall_time s \<ge> fall_speed s
      then let p = (current_piece s)\<lparr>piece_y := piece_y (current_piece s) + 1\<rparr>;
               s1 = s\<lparr>fall_time := 0, grid := create_grid (locked_positions s)\<rparr>
           in if valid_space p (create_grid (locked_positions s))
              then s1\<lparr>current_piece := p\<rparr> else s1\<lparr>change_piece := True\<rparr>
      else s)"
  by (simp add: gravity_def Let_def)

lemma settled_refl [simp]: "piece_ok p \<Longrightarrow> settled locked p p"
  by (simp add: settled_def)

lemma settled_trans: "settled locked p q \<Longrightarrow> settled locked q r \<Longrightarrow> settled locked p r"
  by (auto simp: settled_def)

lemma settled_valid:
  "settled locked p q \<Longrightarrow> valid_space p (create_grid locked) \<Longrightarrow>
   valid_space q (create_grid locked)"
  by (auto simp: settled_def)

lemma settled_in_walls:
  "settled locked p q \<Longrightarrow> list_all in_walls (get_cells p) \<Longrightarrow> list_all in_walls (get_cells q)"
  by (auto simp: settled_def list_all_iff dest: valid_space_in_walls)

text \<open>Each of the four key blocks leaves the session as it was except for the
  current piece, which it leaves where it was or at a valid position.\<close>

lemma piece_step_refl [simp]: "piece_ok (current_piece s) \<Longrightarrow> piece_step s s"
  by (simp add: piece_step_def)

lemma piece_step_trans: "piece_step s s' \<Longrightarrow> piece_step s' s'' \<Longrightarrow> piece_step s s''"
  unfolding piece_step_def
  by (metis settled_trans session.select_convs(1) session.surjective session.update_convs(5))

lemma piece_step_piece_ok: "piece_step s s' \<Longrightarrow> piece_ok (current_piece s')"
  by (simp add: piece_step_def settled_def)

lemma piece_step_left:
  "piece_ok (current_piece s) \<Longrightarrow> piece_step s (fst (key_left (s, m)))"
  by (simp add: key_left_unfold Let_def piece_step_def settled_def)

lemma piece_step_right:
  "piece_ok (current_piece s) \<Longrightarrow> piece_step s (fst (key_right (s, m)))"
  by (simp add: key_right_unfold Let_def piece_step_def settled_def)

lemma piece_step_down:
  "piece_ok (current_piece s) \<Longrightarrow> piece_step s (fst (key_down (s, m)))"
  by (simp add: key_down_unfold Let_def piece_step_def settled_def)

lemma piece_step_up:
  "piece_ok (current_piece s) \<Longrightarrow> piece_step s (fst (key_up (s, m)))"
  by (auto simp: key_up_unfold piece_step_def settled_def split: option.splits
      dest: find_Some_iff [THEN iffD1])


section \<open>The hard drop\<close>

lemma lowered_0 [simp]: "lowered p 0 = p"
  by (simp add: lowered_def)

lemma lowered_Suc: "lowered (p\<lparr>piece_y := piece_y p + 1\<rparr>) k = lowered p (Suc k)"
  by (simp add: lowered_def add.assoc)

lemma piece_ok_lowered [simp]: "piece_ok (lowered p k) = piece_ok p"
  by (simp add: lowered_def)

lemma valid_space_height:
  assumes "piece_ok p" and "valid_space p g"
  shows "piece_y p \<le> GRID_HEIGHT"
proof -
  from assms(1) obtain a b where ab: "(a, b) \<in> set (get_cells p)"
    by (cases "get_cells p") (auto dest: length_get_cells)
  from valid_space_in_walls [OF assms(2) ab] get_cells_near_pivot [OF assms(1) ab]
  show ?thesis by (simp add: in_walls_def)
qed

text \<open>The loop of the hard drop returns: it stops at the first row, counted
  from the row of the piece, where the piece is not valid.\<close>

lemma drop_loop_lowered:
  assumes "piece_ok p"
  shows "\<exists>k. drop_loop p locked = Some (lowered p k) \<and>
           \<not> valid_space (lowered p k) (create_grid locked) \<and>
           (\<forall>j<k. valid_space (lowered p j) (create_grid locked))"
  using assms
proof (induction "nat (GRID_HEIGHT + 1 - piece_y p)" arbitrary: p rule: less_induct)
  case less
  show ?case
  proof (cases "valid_space p (create_grid locked)")
    case False
    then have "drop_loop p locked = Some (lowered p 0)"
      by (simp add: drop_loop.simps [of p])
    with False show ?thesis by (intro exI [of _ 0]) simp
  next
    case True
    let ?p = "p\<lparr>piece_y := piece_y p + 1\<rparr>"
    from valid_space_height [OF less.prems True]
    have "nat (GRID_HEIGHT + 1 - piece_y ?p) < nat (GRID_HEIGHT + 1 - piece_y p)"
      by simp
    from less.hyps [OF this] less.prems obtain k where k:
      "drop_loop ?p locked = Some (lowered p (Suc k))"
      "\<not> valid_space (lowered p (Suc k)) (create_grid locked)"
      "\<forall>j<k. valid_space (lowered p (Suc j)) (create_grid locked)"
      by (auto simp: lowered_Suc)
    from k(3) True have "\<forall>j<Suc k. valid_space (lowered p j) (create_grid locked)"
      by (auto simp: less_Suc_eq_0_disj)
    with k(1,2) True show ?thesis
      by (intro exI [of _ "Suc k"]) (simp add: drop_loop.simps [of p])
  qed
qed

lemma drop_loop_invalid:
  "\<not> valid_space p (create_grid locked) \<Longrightarrow> drop_loop p locked = Some p"
  by (simp add: drop_loop.simps [of p])

lemma drop_loop_valid:
  "valid_space p (create_grid locked) \<Longrightarrow>
   drop_loop p locked = drop_loop (p\<lparr>piece_y := piece_y p + 1\<rparr>) locked"
  by (simp add: drop_loop.simps [of p])


section \<open>The keys\<close>

lemma piece_step_fields:
  assumes "piece_step s s'"
  shows "locked_positions s' = locked_positions s" "move_cooldown s' = move_cooldown s"
    "change_piece s' = change_piece s" "piece_ok (current_piece s')"
  using assms unfolding piece_step_def settled_def
  by (metis session.select_convs(1) session.surjective session.update_convs(5),
      metis session.select_convs(9) session.surjective session.update_convs(5),
      metis session.select_convs(3) session.surjective session.update_convs(5), simp)

lemma piece_step_if:
  assumes "piece_step s (fst sm)"
    and "\<And>t m. piece_ok (current_piece t) \<Longrightarrow> piece_step t (fst (f (t, m)))"
  shows "piece_step s (fst (if b then f sm else sm))"
proof (cases b)
  case True
  from assms(2) [of "fst sm" "snd sm"] piece_step_fields(4) [OF assms(1)]
  have "piece_step (fst sm) (fst (f sm))" by simp
  with assms(1) True show ?thesis by (auto intro: piece_step_trans)
next
  case False
  with assms(1) show ?thesis by simp
qed

lemma piece_step_arrow_keys:
  assumes "piece_ok (current_piece s)"
  shows "piece_step s (fst (arrow_keys keys s))"
  unfolding arrow_keys_def Let_def
  by (intro piece_step_if piece_step_left piece_step_right piece_step_down piece_step_up)
    (simp add: assms)


lemma lowered_back:
  "(lowered p (Suc k))\<lparr>piece_y := piece_y (lowered p (Suc k)) - 1\<rparr> = lowered p k"
  by (simp add: lowered_def)

lemma in_bounds_raised: "in_bounds p \<Longrightarrow> in_bounds (p\<lparr>piece_y := piece_y p - 1\<rparr>)"
  using get_cells_moved_y [of p "- 1"]
  by (auto simp: in_bounds_iff list_all_iff in_walls_def)

lemma key_space_result:
  assumes "piece_ok (current_piece s)"
  shows "\<exists>k. key_space (s, m) =
           Some (s\<lparr>current_piece := (lowered (current_piece s) k)
                    \<lparr>piece_y := piece_y (lowered (current_piece s) k) - 1\<rparr>,
                   change_piece := True\<rparr>, True) \<and>
           \<not> valid_space (lowered (current_piece s) k) (create_grid (locked_positions s)) \<and>
           (\<forall>j<k. valid_space (lowered (current_piece s) j) (create_grid (locked_positions s)))"
  using drop_loop_lowered [OF assms, of "locked_positions s"]
  by (auto simp: key_space_def)

lemma landing_in_bounds:
  assumes "in_bounds p" and "\<forall>j<k. valid_space (lowered p j) g"
  shows "in_bounds ((lowered p k)\<lparr>piece_y := piece_y (lowered p k) - 1\<rparr>)"
proof (cases k)
  case 0
  with assms(1) show ?thesis by (simp add: in_bounds_raised)
next
  case (Suc j)
  with assms(2) have "valid_space (lowered p j) g" by simp
  with Suc show ?thesis by (simp add: lowered_back valid_space_in_bounds)
qed

lemma settled_in_bounds: "settled locked p q \<Longrightarrow> in_bounds p \<Longrightarrow> in_bounds q"
  by (auto simp: settled_def dest: valid_space_in_bounds)

lemma piece_stepD:
  assumes "piece_step s s'"
  obtains q where "s' = s\<lparr>current_piece := q\<rparr>" and "settled (locked_positions s) (current_piece s) q"
  using assms that [of "current_piece s'"] by (simp add: piece_step_def)

text \<open>The two ways through \<open>handle_keys\<close>: without the space bar the arrow
  keys leave the piece where it was or at a valid position; with it the piece
  then goes down to the row above the first one where it is not valid.\<close>

lemma handle_keys_cases:
  assumes "piece_ok (current_piece s)"
  shows "\<exists>q m k. arrow_keys keys s = (s\<lparr>current_piece := q\<rparr>, m) \<and>
           settled (locked_positions s) (current_piece s) q \<and>
           (if held keys s K_SPACE
            then handle_keys keys s =
                   Some (s\<lparr>current_piece := (lowered q k)\<lparr>piece_y := piece_y (lowered q k) - 1\<rparr>,
                           change_piece := True, move_cooldown := 0\<rparr>) \<and>
                 \<not> valid_space (lowered q k) (create_grid (locked_positions s)) \<and>
                 (\<forall>j<k. valid_space (lowered q j) (create_grid (locked_positions s)))
            else handle_keys keys s =
                   Some (s\<lparr>current_piece := q,
                           move_cooldown := if m then 0 else move_cooldown s\<rparr>))"
proof -
  from piece_step_arrow_keys [OF assms, of keys] obtain q m
    where sm: "arrow_keys keys s = (s\<lparr>current_piece := q\<rparr>, m)"
      and settled: "settled (locked_positions s) (current_piece s) q"
    by (cases "arrow_keys keys s") (auto elim: piece_stepD)
  from settled have q: "piece_ok q" by (simp add: settled_def)
  have held: "held keys (s\<lparr>current_piece := q\<rparr>) k = held keys s k" for k
    by (simp add: held_def)
  from key_space_result [of "s\<lparr>current_piece := q\<rparr>" m] q obtain k where
    "key_space (s\<lparr>current_piece := q\<rparr>, m) =
       Some (s\<lparr>current_piece := (lowered q k)\<lparr>piece_y := piece_y (lowered q k) - 1\<rparr>,
               change_piece := True\<rparr>, True)"
    "\<not> valid_space (lowered q k) (create_grid (locked_positions s))"
    "\<forall>j<k. valid_space (lowered q j) (create_grid (locked_positions s))"
    by auto
  with sm settled held show ?thesis
    by (intro exI [of _ q] exI [of _ m] exI [of _ k]) (simp add: handle_keys_def)
qed

lemma landing_valid:
  assumes "valid_space p g" and "\<not> valid_space (lowered p k) g"
    and "\<forall>j<k. valid_space (lowered p j) g"
  shows "valid_space ((lowered p k)\<lparr>piece_y := piece_y (lowered p k) - 1\<rparr>) g"
proof (cases k)
  case 0
  with assms(1,2) show ?thesis by simp
next
  case (Suc j)
  with assms(3) show ?thesis by (simp add: lowered_back)
qed

lemma handle_keys_result:
  assumes "piece_ok (current_piece s)"
  shows "\<exists>q mc. handle_keys keys s =
           Some (s\<lparr>current_piece := q, change_piece := change_piece s \<or> held keys s K_SPACE,
                   move_cooldown := mc\<rparr>) \<and>
           piece_ok q \<and> (in_bounds (current_piece s) \<longrightarrow> in_bounds q) \<and>
           (valid_space (current_piece s) (create_grid (locked_positions s)) \<longrightarrow>
              valid_space q (create_grid (locked_positions s))) \<and>
           (mc = 0 \<or> mc = move_cooldown s)"
proof -
  from handle_keys_cases [OF assms, of keys] obtain q m k where
    settled: "settled (locked_positions s) (current_piece s) q" and
    c: "if held keys s K_SPACE
        then handle_keys keys s =
               Some (s\<lparr>current_piece := (lowered q k)\<lparr>piece_y := piece_y (lowered q k) - 1\<rparr>,
                       change_piece := True, move_cooldown := 0\<rparr>) \<and>
             \<not> valid_space (lowered q k) (create_grid (locked_positions s)) \<and>
             (\<forall>j<k. valid_space (lowered q j) (create_grid (locked_positions s)))
        else handle_keys keys s =
               Some (s\<lparr>current_piece := q, move_cooldown := if m then 0 else move_cooldown s\<rparr>)"
    by blast
  from settled have q: "piece_ok q" by (simp add: settled_def)
  show ?thesis
  proof (cases "held keys s K_SPACE")
    case False
    with c q settled_in_bounds [OF settled] settled_valid [OF settled] show ?thesis
      by (intro exI [of _ q] exI [of _ "if m then 0 else move_cooldown s"]) auto
  next
    case True
    let ?q = "(lowered q k)\<lparr>piece_y := piece_y (lowered q k) - 1\<rparr>"
    from True c have k: "\<not> valid_space (lowered q k) (create_grid (locked_positions s))"
      "\<forall>j<k. valid_space (lowered q j) (create_grid (locked_positions s))"
      by simp_all
    have "in_bounds (current_piece s) \<longrightarrow> in_bounds ?q"
      using landing_in_bounds [OF _ k(2)] settled_in_bounds [OF settled] by blast
    moreover have "valid_space (current_piece s) (create_grid (locked_positions s)) \<longrightarrow>
        valid_space ?q (create_grid (locked_positions s))"
      using landing_valid [OF _ k] settled_valid [OF settled] by blast
    ultimately show ?thesis using True c q
      by (intro exI [of _ ?q] exI [of _ 0]) simp
  qed
qed

section \<open>The grid that is drawn\<close>

lemma paint_piece_fold:
  "paint_piece p g = fold (\<lambda>pos. paint pos (color p)) (get_cells p) g"
  unfolding paint_piece_def
  by (intro arg_cong [where f = "\<lambda>f. fold f (get_cells p) g"] ext)
    (auto simp: paint_def split: prod.splits)

lemma grid_ok_fold_paint_cells:
  "grid_ok g \<Longrightarrow> grid_ok (fold (\<lambda>pos. paint pos c) ps g)"
  by (induction ps arbitrary: g) auto

lemma cell_fold_paint_cells:
  "grid_ok g \<Longrightarrow> in_grid pos \<Longrightarrow>
   cell (fold (\<lambda>q. paint q c) ps g) pos = (if pos \<in> set ps then c else cell g pos)"
  by (induction ps arbitrary: g) (auto simp: cell_paint)

lemma grid_ok_paint_piece [simp]: "grid_ok g \<Longrightarrow> grid_ok (paint_piece p g)"
  by (simp add: paint_piece_fold grid_ok_fold_paint_cells)

text \<open>The grid with the current piece painted on it is the grid of the board
  with the piece locked: this is why \<open>clear_rows\<close>, which is given the grid
  composed before \<open>lock_piece\<close>, sees the rows the piece has completed.\<close>

lemma paint_piece_create_grid:
  assumes "dict_wf locked"
  shows "paint_piece p (create_grid locked) = create_grid (lock_piece p locked)"
proof (rule grid_eqI)
  fix pos assume "in_grid pos"
  with assms show "cell (paint_piece p (create_grid locked)) pos =
      cell (create_grid (lock_piece p locked)) pos"
    by (simp add: paint_piece_fold cell_fold_paint_cells create_grid_cell dict_wf_lock_piece
        cell_of_lock_piece)
qed simp_all

section \<open>Rows completed by one piece\<close>

lemma row_full_lock_piece:
  assumes "row_full (lock_piece p locked) y" and "\<not> row_full locked y"
  shows "y \<in> snd ` set (get_cells p)"
proof -
  from assms(2) obtain x where "0 \<le> x" "x < GRID_WIDTH" "(x, y) \<notin> fst ` set locked"
    by (auto simp: row_full_iff)
  with assms(1) have "(x, y) \<in> set (get_cells p)"
    by (auto simp: row_full_iff keys_lock_piece)
  then show ?thesis by force
qed

lemma full_rows_lock_piece:
  assumes "full_rows locked = []" and "piece_ok p"
  shows "length (full_rows (lock_piece p locked)) \<le> 4"
proof -
  have "set (full_rows (lock_piece p locked)) \<subseteq> snd ` set (get_cells p)"
  proof
    fix y assume y: "y \<in> set (full_rows (lock_piece p locked))"
    with assms(1) have "\<not> row_full locked y"
      by (auto simp: set_full_rows dest: arg_cong [where f = set])
    with y show "y \<in> snd ` set (get_cells p)"
      by (auto simp: set_full_rows intro: row_full_lock_piece)
  qed
  then have "card (set (full_rows (lock_piece p locked))) \<le> card (snd ` set (get_cells p))"
    by (intro card_mono) simp_all
  also have "\<dots> \<le> card (set (get_cells p))" by (intro card_image_le) simp
  also have "\<dots> \<le> length (get_cells p)" by (rule card_length)
  finally show ?thesis using assms(2) by (simp add: distinct_card)
qed

text \<open>A piece alone does not fill a row: its cells are at most four columns
  apart.\<close>

lemma row_not_full_of_piece:
  assumes "piece_ok p" and "\<forall>pos \<in> fst ` set locked. y \<noteq> snd pos"
  shows "\<not> row_full (lock_piece p locked) y"
proof
  assume "row_full (lock_piece p locked) y"
  then have "(0, y) \<in> fst ` set (lock_piece p locked)" "(9, y) \<in> fst ` set (lock_piece p locked)"
    by (simp_all add: row_full_iff game_consts)
  with assms(2) have "(0, y) \<in> set (get_cells p)" "(9, y) \<in> set (get_cells p)"
    by (auto simp: keys_lock_piece)
  from get_cells_near_pivot [OF assms(1) this(1)] get_cells_near_pivot [OF assms(1) this(2)]
  show False by simp
qed


section \<open>Lock resolution\<close>

lemma score_for_values: "score_for n \<in> {0, 100, 300, 500, 800}"
  by (simp add: score_for_def)

lemma score_for_nonneg [simp]: "0 \<le> score_for n" "score_for n mod 100 = 0"
  by (simp_all add: score_for_def)

lemma score_add [simp]: "a mod 100 = 0 \<Longrightarrow> (a + score_for n) mod 100 = 0"
  unfolding score_for_def by presburger

lemma spawned_placed: "spawned p \<Longrightarrow> placed p"
  by (simp add: placed_def spawned_piece_ok in_bounds_iff spawned_in_walls)

lemma check_lost_keys: "\<not> check_lost locked \<Longrightarrow> pos \<in> fst ` set locked \<Longrightarrow> 1 \<le> snd pos"
  by (auto simp: check_lost_iff not_less)

lemma board_ok_locked_piece:
  "board_ok locked \<Longrightarrow> placed p \<Longrightarrow> board_ok (lock_piece p locked)"
  by (simp add: placed_def in_bounds_iff board_ok_lock_piece)

lemma no_row_above_locked_piece:
  assumes "piece_ok p" and "\<not> check_lost locked"
  shows "\<forall>y<0. \<not> row_full (lock_piece p locked) y"
proof (intro allI impI)
  fix y :: int assume "y < 0"
  with check_lost_keys [OF assms(2)] have "\<forall>pos \<in> fst ` set locked. y \<noteq> snd pos"
    by fastforce
  with assms(1) show "\<not> row_full (lock_piece p locked) y"
    by (rule row_not_full_of_piece)
qed

text \<open>What \<open>clear_rows\<close> does in the lock resolution: it is given the grid with
  the piece painted on it and the dictionary with the piece locked.\<close>

lemma clear_rows_after_lock:
  assumes "board_ok locked" and "placed p" and "\<not> check_lost locked"
  shows "\<exists>locked'. clear_rows (paint_piece p (create_grid locked)) (lock_piece p locked) =
             Inr (int (length (full_rows (lock_piece p locked))), locked') \<and>
           board_ok locked' \<and> full_rows locked' = [] \<and>
           map_of locked' =
             map_of (compact (full_rows (lock_piece p locked)) (lock_piece p locked))"
proof -
  let ?l = "lock_piece p locked"
  from assms(1,2) have ok: "board_ok ?l" by (rule board_ok_locked_piece)
  from assms(1) have g: "paint_piece p (create_grid locked) = create_grid ?l"
    by (simp add: paint_piece_create_grid board_okD)
  from clear_rows_total [of ?l "create_grid ?l"] ok obtain locked'
    where c: "clear_rows (create_grid ?l) ?l = Inr (int (length (full_rows ?l)), locked')"
    by (auto simp: board_okD rows_to_clear_create_grid)
  note r = clear_rows_board [OF ok c]
  from assms(2,3) have "\<forall>y<0. \<not> row_full ?l y"
    by (simp add: no_row_above_locked_piece placed_def)
  from full_rows_compact [OF ok this] full_rows_cong [OF r(3)] have "full_rows locked' = []"
    by simp
  with c r(2,3) g show ?thesis by simp
qed

lemma resolve_lock_idle: "\<not> change_piece s \<Longrightarrow> resolve_lock r s = Inr s"
  by (simp add: resolve_lock_def)

lemma resolve_lock_result:
  assumes "board_ok (locked_positions s)" and "placed (current_piece s)"
    and "\<not> check_lost (locked_positions s)" and "change_piece s"
    and "grid s = paint_piece (current_piece s) (create_grid (locked_positions s))"
  shows "\<exists>locked' np. resolve_lock r s =
           Inr (s\<lparr>locked_positions := locked',
                  score := score s + score_for (int (length (full_rows
                    (lock_piece (current_piece s) (locked_positions s))))),
                  current_piece := next_piece s, next_piece := np, change_piece := False,
                  fall_speed := speed_up (fall_speed s),
                  run := run s \<and> \<not> check_lost locked'\<rparr>) \<and>
           board_ok locked' \<and> full_rows locked' = [] \<and> spawned np \<and>
           map_of locked' = map_of (compact
             (full_rows (lock_piece (current_piece s) (locked_positions s)))
             (lock_piece (current_piece s) (locked_positions s)))"
proof -
  from clear_rows_after_lock [OF assms(1,2,3)] assms(5) obtain locked' where l:
    "clear_rows (grid s) (lock_piece (current_piece s) (locked_positions s)) =
       Inr (int (length (full_rows (lock_piece (current_piece s) (locked_positions s)))), locked')"
    "board_ok locked'" "full_rows locked' = []"
    "map_of locked' = map_of (compact
       (full_rows (lock_piece (current_piece s) (locked_positions s)))
       (lock_piece (current_piece s) (locked_positions s)))"
    by auto
  from get_new_piece_spawned [of r] obtain np where np: "get_new_piece r = Inr np" "spawned np"
    by blast
  from l(1) np(1) assms(4) have "resolve_lock r s =
      Inr (s\<lparr>locked_positions := locked',
             score := score s + score_for (int (length (full_rows
               (lock_piece (current_piece s) (locked_positions s))))),
             current_piece := next_piece s, next_piece := np, change_piece := False,
             fall_speed := speed_up (fall_speed s),
             run := run s \<and> \<not> check_lost locked'\<rparr>)"
    by (simp add: resolve_lock_def Let_def)
  with l(2,3,4) np(2) show ?thesis by blast
qed


section \<open>One pass of the loop\<close>

lemma handle_events_exits:
  "handle_events es s = (if list_ex exits es then Inl SystemExit else Inr s)"
  by (induction es) (auto simp: exits_def)

lemma same_game_refl: "session_inv s \<Longrightarrow> same_game s s"
  by (simp add: same_game_def)

lemma same_game_trans: "same_game s t \<Longrightarrow> same_game t u \<Longrightarrow> same_game s u"
  by (simp add: same_game_def)

lemma same_game_tick: "session_inv s \<Longrightarrow> 0 \<le> dt \<Longrightarrow> same_game s (tick dt s)"
  by (simp add: same_game_def session_inv_def tick_def)

lemma placed_valid: "piece_ok p \<Longrightarrow> valid_space p g \<Longrightarrow> placed p"
  by (simp add: placed_def valid_space_in_bounds)

lemma same_game_gravity: "session_inv s \<Longrightarrow> same_game s (gravity s)"
  by (auto simp: same_game_def session_inv_def gravity_unfold Let_def placed_def
      dest: valid_space_in_bounds)

lemma same_game_handle_keys:
  assumes "session_inv s"
  shows "\<exists>t. handle_keys keys s = Some t \<and> same_game s t \<and>
           change_piece t = (change_piece s \<or> held keys s K_SPACE)"
proof -
  from assms have "piece_ok (current_piece s)" "in_bounds (current_piece s)"
    by (simp_all add: session_inv_def placed_def)
  with handle_keys_result [of s keys] obtain q mc where
    "handle_keys keys s = Some (s\<lparr>current_piece := q,
        change_piece := change_piece s \<or> held keys s K_SPACE, move_cooldown := mc\<rparr>)"
    "placed q" "mc = 0 \<or> mc = move_cooldown s"
    by (auto simp: placed_def)
  with assms show ?thesis
    by (auto simp: same_game_def session_inv_def)
qed

lemma same_game_compose_grid: "session_inv s \<Longrightarrow> same_game s (compose_grid s)"
  by (simp add: same_game_def session_inv_def compose_grid_def)

lemma compose_grid_fields [simp]:
  "grid (compose_grid s) = paint_piece (current_piece s) (create_grid (locked_positions s))"
  "change_piece (compose_grid s) = change_piece s"
  "current_piece (compose_grid s) = current_piece s"
  "locked_positions (compose_grid s) = locked_positions s"
  by (simp_all add: compose_grid_def)


lemma fall_speed_ramp:
  "0.08 \<le> v \<Longrightarrow> v \<le> 0.5 \<Longrightarrow>
   0.08 \<le> speed_up v \<and> speed_up v \<le> 0.5 \<and> speed_up v \<le> v"
  by (auto simp: speed_up_def max_def)

lemma resolve_lock_session:
  assumes "same_game s t" and "run s" and "\<not> check_lost (locked_positions s)"
    and "grid t = paint_piece (current_piece t) (create_grid (locked_positions t))"
  shows "\<exists>s'. resolve_lock r t = Inr s' \<and> session_ok s' \<and>
           (if change_piece t then piece_locked s s' else same_game s s')"
proof (cases "change_piece t")
  case False
  with assms(1,2,3) show ?thesis
    by (simp add: resolve_lock_idle session_ok_def same_game_def)
next
  case True
  from assms(1) have t: "session_inv t" "locked_positions t = locked_positions s"
    "next_piece t = next_piece s" "score t = score s" "fall_speed t = fall_speed s" "run t = run s"
    by (simp_all add: same_game_def)
  then have inv: "board_ok (locked_positions t)" "placed (current_piece t)" "spawned (next_piece t)"
    "grid_ok (grid t)" "0.08 \<le> fall_speed t" "fall_speed t \<le> 0.5" "0 \<le> fall_time t"
    "0 \<le> move_cooldown t" "0 \<le> score t" "score t mod 100 = 0"
    by (simp_all add: session_inv_def)
  from assms(3) t(2) have "\<not> check_lost (locked_positions t)" by simp
  from resolve_lock_result [OF inv(1,2) this True assms(4), of r] obtain locked' np s' where r:
    "resolve_lock r t = Inr s'"
    "s' = t\<lparr>locked_positions := locked',
             score := score t + score_for (int (length (full_rows
                    (lock_piece (current_piece t) (locked_positions t))))),
             current_piece := next_piece t, next_piece := np, change_piece := False,
             fall_speed := speed_up (fall_speed t),
             run := run t \<and> \<not> check_lost locked'\<rparr>"
    "board_ok locked'" "full_rows locked' = []" "spawned np"
    "map_of locked' = map_of (compact
             (full_rows (lock_piece (current_piece t) (locked_positions t)))
             (lock_piece (current_piece t) (locked_positions t)))"
    by blast
  from r(2,3,4,5) inv t(6) assms(2) fall_speed_ramp [OF inv(5,6)] have "session_ok s'"
    by (simp add: session_ok_def session_inv_def spawned_placed)
  moreover from r(2,6) inv(2) t assms(2) have "piece_locked s s'"
    unfolding piece_locked_def by (intro conjI exI [of _ "current_piece t"]) simp_all
  ultimately show ?thesis using r(1) True by simp
qed

lemma moves_exit: "list_ex exits (events i) \<Longrightarrow> moves i s = Some (Inl SystemExit)"
  by (simp add: moves_def handle_events_exits)

lemma frame_exit: "list_ex exits (events i) \<Longrightarrow> frame i s = Some (Inl SystemExit)"
  by (simp add: frame_def moves_exit)

lemma moves_step:
  assumes "session_inv s" and "\<not> list_ex exits (events i)"
  shows "\<exists>t. moves i s = Some (Inr t) \<and> same_game s t \<and>
           grid t = paint_piece (current_piece t) (create_grid (locked_positions t))"
proof -
  let ?s1 = "gravity (tick (real (tick_ms i) / 1000) s)"
  from assms(1) have "same_game s (tick (real (tick_ms i) / 1000) s)"
    by (simp add: same_game_tick)
  moreover from this have "same_game (tick (real (tick_ms i) / 1000) s) ?s1"
    by (intro same_game_gravity) (simp add: same_game_def)
  ultimately have s1: "same_game s ?s1" by (rule same_game_trans)
  then have "session_inv ?s1" by (simp add: same_game_def)
  from same_game_handle_keys [OF this, of "pressed i"] obtain s3 where
    s3: "handle_keys (pressed i) ?s1 = Some s3" "same_game ?s1 s3"
    by blast
  from s1 s3(2) have "same_game s s3" by (rule same_game_trans)
  moreover from this have "same_game s3 (compose_grid s3)"
    by (intro same_game_compose_grid) (simp add: same_game_def)
  ultimately have "same_game s (compose_grid s3)" by (rule same_game_trans)
  with s3(1) assms(2) show ?thesis
    by (simp add: moves_def handle_events_exits)
qed

lemma frame_step:
  assumes "session_ok s" and "run s" and "\<not> list_ex exits (events i)"
  shows "\<exists>s'. frame i s = Some (Inr s') \<and> session_ok s' \<and>
           (same_game s s' \<or> piece_locked s s')"
proof -
  from assms(1,2) have inv: "session_inv s" and lost: "\<not> check_lost (locked_positions s)"
    by (simp_all add: session_ok_def)
  from moves_step [OF inv assms(3)] obtain t where t: "moves i s = Some (Inr t)"
    "same_game s t" "grid t = paint_piece (current_piece t) (create_grid (locked_positions t))"
    by blast
  from resolve_lock_session [OF t(2) assms(2) lost t(3), of "draw i"] obtain s' where
    "resolve_lock (draw i) t = Inr s'" "session_ok s'" "same_game s s' \<or> piece_locked s s'"
    by (auto split: if_splits)
  with t(1) show ?thesis by (simp add: frame_def)
qed

section \<open>The contract of the session\<close>

lemma init_demo_start: "init_session 0 2 = Inr demo_start"
  by code_simp

lemma session_ok_demo_start: "session_ok demo_start"
  using init_session_ok [of 0 2] by (simp add: init_demo_start)

lemma run_demo_start: "run demo_start"
  by (simp add: demo_start_def)

lemma frame_idle_demo_start: "frame idle demo_start = Some (Inr demo_fallen)"
  by code_simp

lemma moves_idle_demo_start: "moves idle demo_start = Some (Inr demo_fallen)"
  by code_simp

lemma events_idle [simp]: "events idle = []" "events drop_now = []"
  by (simp_all add: idle_def drop_now_def)

text \<open>C2: one pass of the loop of \<^verbatim>\<open>main\<close> that returns normally keeps the
  invariant of the session: the board and both pieces are well formed, no row
  of the board is full, no lock is pending, the speed stays between 0.08 and
  0.5 seconds per row, the score is a non-negative multiple of 100, and the
  flag \<open>run\<close> tells whether the board is lost.\<close>

theorem frame_keeps_session_ok:
  assumes "session_ok s" and "run s" and "frame i s = Some (Inr s')"
  shows "session_ok s'"
proof (cases "list_ex exits (events i)")
  case True
  with assms(3) show ?thesis by (simp add: frame_exit)
next
  case False
  from frame_step [OF assms(1,2) False] assms(3) show ?thesis by auto
qed

theorem frame_keeps_session_ok_witness:
  "session_ok demo_start \<and> run demo_start \<and> frame idle demo_start = Some (Inr demo_fallen) \<and>
   session_ok demo_fallen"
  using frame_keeps_session_ok [OF session_ok_demo_start run_demo_start frame_idle_demo_start]
  by (simp add: session_ok_demo_start run_demo_start frame_idle_demo_start)

text \<open>C7: in a running session a pass of the loop always returns (the loop
  of the hard drop ends), and it returns in one of two ways: when the events
  hold \<^verbatim>\<open>QUIT\<close> or the escape key it raises \<^verbatim>\<open>SystemExit\<close>, and otherwise it ends
  normally with a session. No other exception leaves the pass: neither the
  \<^verbatim>\<open>KeyError\<close> of \<open>clear_rows\<close> nor the \<^verbatim>\<open>IndexError\<close> of the creation of a piece.\<close>

theorem frame_returns:
  assumes "session_ok s" and "run s"
  shows "\<exists>s'. frame i s = Some (if list_ex exits (events i) then Inl SystemExit else Inr s')"
proof (cases "list_ex exits (events i)")
  case True
  then show ?thesis by (simp add: frame_exit)
next
  case False
  with frame_step [OF assms False] show ?thesis by auto
qed

theorem frame_returns_witness:
  "session_ok demo_start \<and> run demo_start \<and>
   (\<exists>s'. frame drop_now demo_start = Some (Inr s'))"
  using frame_returns [OF session_ok_demo_start run_demo_start, of drop_now]
  by (simp add: session_ok_demo_start run_demo_start)

lemma reachable_demo_fallen: "reachable demo_fallen"
proof -
  have "reachable demo_start" by (rule reachable.start) (rule init_demo_start)
  then show ?thesis
    by (rule reachable.step [where i = idle]) (simp_all add: run_demo_start frame_idle_demo_start)
qed

lemma reachable_invariant: "reachable s \<Longrightarrow> session_ok s"
proof (induction rule: reachable.induct)
  case (start r1 r2 s)
  with init_session_ok [of r1 r2] show ?case by auto
next
  case (step s i s')
  show ?case
  proof (cases "list_ex exits (events i)")
    case True
    with step.hyps(3) show ?thesis by (simp add: frame_exit)
  next
    case False
    from frame_step [OF step.IH step.hyps(2) False] step.hyps(3) show ?thesis by auto
  qed
qed

text \<open>C5: every session that \<^verbatim>\<open>main\<close> can reach, from any two draws of the
  random generator and through any inputs, satisfies the invariant of the
  session.\<close>

theorem reachable_session_ok: "reachable s \<Longrightarrow> session_ok s"
  by (rule reachable_invariant)

theorem reachable_session_ok_witness: "reachable demo_fallen \<and> session_ok demo_fallen"
  using reachable_session_ok [of demo_fallen] by (simp add: reachable_demo_fallen)

text \<open>C15: for a piece of the catalogue the loop of the hard drop ends: it
  returns the piece in the first row, counted downwards from where it is, in
  which it is not valid.\<close>

theorem drop_loop_terminates:
  assumes "piece_ok p"
  shows "\<exists>k. drop_loop p locked = Some (p\<lparr>piece_y := piece_y p + int k\<rparr>) \<and>
           \<not> valid_space (p\<lparr>piece_y := piece_y p + int k\<rparr>) (create_grid locked) \<and>
           (\<forall>j<k. valid_space (p\<lparr>piece_y := piece_y p + int j\<rparr>) (create_grid locked))"
  using drop_loop_lowered [OF assms, of locked] by (simp add: lowered_def)

theorem drop_loop_terminates_witness:
  "piece_ok spawn_T \<and>
   (\<exists>k. drop_loop spawn_T one_cell_board = Some (spawn_T\<lparr>piece_y := piece_y spawn_T + int k\<rparr>))"
  using drop_loop_terminates [OF piece_ok_spawn_T, of one_cell_board]
  by (auto simp: piece_ok_spawn_T)

text \<open>One pass of the loop adds 0, 100, 300, 500 or 800 to the score.\<close>

lemma frame_score:
  assumes "session_ok s" and "run s" and "frame i s = Some (Inr s')"
  shows "score s' - score s \<in> {0, 100, 300, 500, 800}"
proof (cases "list_ex exits (events i)")
  case True
  with assms(3) show ?thesis by (simp add: frame_exit)
next
  case False
  from frame_step [OF assms(1,2) False] assms(3) have "same_game s s' \<or> piece_locked s s'"
    by auto
  then obtain n where "score s' = score s \<or> score s' = score s + score_for n"
    by (auto simp: same_game_def piece_locked_def)
  with score_for_values [of n] show ?thesis by auto
qed

lemma frame_score_witness:
  "session_ok demo_start \<and> run demo_start \<and> frame idle demo_start = Some (Inr demo_fallen) \<and>
   score demo_fallen - score demo_start \<in> {0, 100, 300, 500, 800}"
  using frame_score [OF session_ok_demo_start run_demo_start frame_idle_demo_start]
  by (simp only: session_ok_demo_start run_demo_start frame_idle_demo_start simp_thms)

text \<open>One pass of the loop leaves the fall speed as it is or replaces it
  by \<open>speed_up\<close> of it; it never rises and never falls below 0.08.\<close>

lemma frame_fall_speed:
  assumes "session_ok s" and "run s" and "frame i s = Some (Inr s')"
  shows "0.08 \<le> fall_speed s' \<and> fall_speed s' \<le> fall_speed s \<and>
         (fall_speed s' = fall_speed s \<or> fall_speed s' = speed_up (fall_speed s))"
proof (cases "list_ex exits (events i)")
  case True
  with assms(3) show ?thesis by (simp add: frame_exit)
next
  case False
  from frame_step [OF assms(1,2) False] assms(3) have "same_game s s' \<or> piece_locked s s'"
    by auto
  moreover from assms(1) have "0.08 \<le> fall_speed s" "fall_speed s \<le> 0.5"
    by (simp_all add: session_ok_def session_inv_def)
  ultimately show ?thesis
    using fall_speed_ramp [of "fall_speed s"] by (auto simp: same_game_def piece_locked_def)
qed

lemma frame_fall_speed_witness:
  "session_ok demo_start \<and> run demo_start \<and> frame idle demo_start = Some (Inr demo_fallen) \<and>
   0.08 \<le> fall_speed demo_fallen \<and> fall_speed demo_fallen \<le> fall_speed demo_start"
  using frame_fall_speed [OF session_ok_demo_start run_demo_start frame_idle_demo_start]
  by (simp only: session_ok_demo_start run_demo_start frame_idle_demo_start simp_thms)

text \<open>After \<open>n\<close> locks the fall speed is \<open>0.5 * 0.995 ^ n\<close>, clamped
  from below at 0.08.\<close>

lemma speed_up_closed_form:
  "(speed_up ^^ n) 0.5 = max 0.08 (0.5 * 0.995 ^ n)"
proof (induction n)
  case 0
  show ?case by simp
next
  case (Suc n)
  have "speed_up (max 0.08 v) = max 0.08 (v * 0.995)" for v
    by (auto simp: speed_up_def max_def)
  with Suc show ?case by (simp add: mult.assoc)
qed

text \<open>The loop of \<^verbatim>\<open>main\<close> over any list of inputs returns; it ends with
  \<^verbatim>\<open>SystemExit\<close> or in a session that satisfies the invariant.\<close>

lemma run_frames_ok:
  assumes "session_ok s"
  shows "\<exists>r. run_frames inputs s = Some r \<and>
           (case r of Inl e \<Rightarrow> e = SystemExit | Inr s' \<Rightarrow> session_ok s')"
  using assms
proof (induction inputs arbitrary: s)
  case Nil
  then show ?case by simp
next
  case (Cons i inputs)
  show ?case
  proof (cases "run s \<and> \<not> list_ex exits (events i)")
    case True
    with frame_step [OF Cons.prems, of i] obtain s' where "frame i s = Some (Inr s')" "session_ok s'"
      by auto
    with Cons.IH [of s'] True show ?thesis by simp
  next
    case False
    with Cons.prems show ?thesis by (auto simp: frame_exit)
  qed
qed

lemma run_frames_ok_witness:
  "session_ok demo_start \<and>
   (\<exists>r. run_frames [idle, drop_now] demo_start = Some r \<and>
      (case r of Inl e \<Rightarrow> e = SystemExit | Inr s' \<Rightarrow> session_ok s'))"
  using run_frames_ok [OF session_ok_demo_start, of "[idle, drop_now]"]
  by (simp only: session_ok_demo_start simp_thms)

lemma gravity_fields [simp]:
  "locked_positions (gravity s) = locked_positions s"
  by (simp add: gravity_unfold Let_def)

lemma gravity_valid:
  "valid_space (current_piece s) (create_grid (locked_positions s)) \<Longrightarrow>
   valid_space (current_piece (gravity s)) (create_grid (locked_positions s))"
  by (simp add: gravity_unfold Let_def)

lemma gravity_piece_ok: "piece_ok (current_piece s) \<Longrightarrow> piece_ok (current_piece (gravity s))"
  by (simp add: gravity_unfold Let_def)

text \<open>C16: gravity and the keys never put the piece into a wall, below the
  floor or onto a locked cell: a piece in a valid position is in a valid
  position after them, and they leave the board untouched.\<close>

theorem moves_keep_valid:
  assumes "piece_ok (current_piece s)"
    and "valid_space (current_piece s) (create_grid (locked_positions s))"
    and "handle_keys keys (gravity s) = Some s'"
  shows "valid_space (current_piece s') (create_grid (locked_positions s')) \<and>
         locked_positions s' = locked_positions s"
  using handle_keys_result [OF gravity_piece_ok [OF assms(1)], of keys] gravity_valid [OF assms(2)]
    assms(3)
  by auto

theorem moves_keep_valid_witness:
  "piece_ok (current_piece demo_start) \<and>
   valid_space (current_piece demo_start) (create_grid (locked_positions demo_start)) \<and>
   (\<exists>s'. handle_keys [K_LEFT, K_UP] (gravity demo_start) = Some s' \<and>
      valid_space (current_piece s') (create_grid (locked_positions s')))"
proof -
  have 1: "piece_ok (current_piece demo_start)"
    using session_ok_demo_start by (simp add: session_ok_def session_inv_def placed_def)
  have 2: "valid_space (current_piece demo_start) (create_grid (locked_positions demo_start))"
    by code_simp
  from handle_keys_result [OF gravity_piece_ok [OF 1], of "[K_LEFT, K_UP]"]
  obtain s' where "handle_keys [K_LEFT, K_UP] (gravity demo_start) = Some s'" by blast
  with moves_keep_valid [OF 1 2 this] 1 2 show ?thesis by auto
qed

text \<open>C12: the hard drop of a piece in a valid position leaves it in the
  lowest position it reaches by falling straight down: valid, with the
  position one row further down not valid; it marks the lock as pending and
  resets the cooldown.\<close>

theorem hard_drop_lands:
  assumes "piece_ok (current_piece s)"
    and "valid_space (current_piece s) (create_grid (locked_positions s))"
    and "K_SPACE \<in> set keys" and "move_delay \<le> move_cooldown s"
  shows "\<exists>s'. handle_keys keys s = Some s' \<and> change_piece s' \<and> move_cooldown s' = 0 \<and>
           valid_space (current_piece s') (create_grid (locked_positions s)) \<and>
           \<not> valid_space ((current_piece s')\<lparr>piece_y := piece_y (current_piece s') + 1\<rparr>)
               (create_grid (locked_positions s))"
proof -
  from assms(3,4) have held: "held keys s K_SPACE" by (simp add: held_def)
  with handle_keys_cases [OF assms(1), of keys] obtain q k where
    q: "settled (locked_positions s) (current_piece s) q" and
    h: "handle_keys keys s =
          Some (s\<lparr>current_piece := (lowered q k)\<lparr>piece_y := piece_y (lowered q k) - 1\<rparr>,
                  change_piece := True, move_cooldown := 0\<rparr>)" and
    k: "\<not> valid_space (lowered q k) (create_grid (locked_positions s))"
      "\<forall>j<k. valid_space (lowered q j) (create_grid (locked_positions s))"
    by auto
  from settled_valid [OF q assms(2)] have "valid_space q (create_grid (locked_positions s))" .
  from landing_valid [OF this k] k(1) h show ?thesis
    by (simp add: lowered_def)
qed

theorem hard_drop_lands_witness:
  "piece_ok spawn_I \<and> valid_space spawn_I (create_grid []) \<and>
   (\<exists>s'. handle_keys [K_SPACE] (demo_start\<lparr>move_cooldown := 1\<rparr>) = Some s' \<and> change_piece s' \<and>
      valid_space (current_piece s') (create_grid []))"
proof -
  have 1: "piece_ok spawn_I"
    using session_ok_demo_start
    by (simp add: session_ok_def session_inv_def placed_def demo_start_def)
  have 2: "valid_space spawn_I (create_grid [])" by code_simp
  from hard_drop_lands [of "demo_start\<lparr>move_cooldown := 1\<rparr>" "[K_SPACE]"] 1 2 show ?thesis
    by (auto simp: demo_start_def move_delay_def)
qed

lemma lowered_1: "p\<lparr>piece_y := piece_y p + 1\<rparr> = lowered p 1"
  by (simp add: lowered_def)

lemma frame_no_input:
  assumes "events i = []" and "pressed i = []"
  shows "frame i s =
           Some (resolve_lock (draw i)
             (compose_grid (gravity (tick (real (tick_ms i) / 1000) s))))"
  using assms by (simp add: frame_def moves_def handle_keys_def arrow_keys_def held_def Let_def)

text \<open>A pass of the loop with no event and no key held, in which the
  fall timer expires and the position one row down is valid, lowers the piece
  by one row, resets the fall timer, advances the cooldown, redraws the grid,
  and changes nothing else.\<close>

lemma frame_free_fall:
  assumes "events i = []" and "pressed i = []" and "\<not> change_piece s"
    and "fall_speed s \<le> fall_time s + real (tick_ms i) / 1000"
    and "valid_space (lowered (current_piece s) 1) (create_grid (locked_positions s))"
  shows "frame i s =
           Some (Inr (s\<lparr>fall_time := 0,
                        move_cooldown := move_cooldown s + real (tick_ms i) / 1000,
                        current_piece := lowered (current_piece s) 1,
                        grid := paint_piece (lowered (current_piece s) 1)
                                  (create_grid (locked_positions s))\<rparr>))"
  using assms(3-)
  by (simp add: frame_no_input [OF assms(1,2)] tick_def gravity_unfold compose_grid_def
      resolve_lock_def lowered_def Let_def)

lemma frame_free_fall_witness:
  "events idle = [] \<and> pressed idle = [] \<and> \<not> change_piece demo_start \<and>
   fall_speed demo_start \<le> fall_time demo_start + real (tick_ms idle) / 1000 \<and>
   valid_space (lowered (current_piece demo_start) 1) (create_grid (locked_positions demo_start)) \<and>
   frame idle demo_start =
     Some (Inr (demo_start\<lparr>fall_time := 0, move_cooldown := 1 / 2,
                  current_piece := lowered spawn_I 1,
                  grid := paint_piece (lowered spawn_I 1) (create_grid [])\<rparr>))"
proof -
  have "valid_space (lowered (current_piece demo_start) 1)
      (create_grid (locked_positions demo_start))"
    by code_simp
  with frame_free_fall [of idle demo_start] show ?thesis
    by (simp add: idle_def demo_start_def)
qed

end
