(* ===== verification/Rendering.thy ===== *)
theory Rendering
  imports Board
begin

text \<open>
  The drawing code of \<^verbatim>\<open>src/tetris.py\<close>: the layout constants, \<open>draw_grid_lines\<close>,
  \<open>draw_window\<close> and the screen that \<open>game_over\<close> paints.

  Drawing is output, so it is modelled as a value: a \<open>surface\<close> is the list of
  the calls it has received, oldest first, and every drawing routine takes the
  surface and returns it with its own calls appended, in the order the code
  issues them. A \<open>call\<close> is one call into pygame with the arguments the code
  passes (\<open>Blit_text\<close> stands for the pair \<^verbatim>\<open>font.render(text, True, colour)\<close> and
  \<^verbatim>\<open>surface.blit(label, pos)\<close>, \<open>Draw_rect\<close> with width 0 for a filled rectangle);
  what pygame does with it (rasterising a line, the pixels of a glyph) is not
  modelled. The one value drawing reads back from pygame, the
  width of a rendered text, is a parameter (\<open>metrics\<close>). A loop that draws is a
  \<open>fold\<close> over the range it runs through; \<open>fold_append\<close> turns it into the list
  of its calls.

  \<open>block_shown\<close> reads a surface the way a player does: the colour of the last
  filled square painted on a cell since the window was last cleared. The
  lemmas show that \<open>draw_window\<close> refines the grid (\<open>block_shown\<close> of the drawn
  surface is the cell of the grid), that every call stays inside the window,
  and where the texts of the game-over screen are put.
\<close>

section \<open>Layout, colours and calls\<close>

definition BLOCK_SIZE :: int where
  "BLOCK_SIZE = 30"

definition PLAY_WIDTH :: int where
  "PLAY_WIDTH = GRID_WIDTH * BLOCK_SIZE"

definition PLAY_HEIGHT :: int where
  "PLAY_HEIGHT = GRID_HEIGHT * BLOCK_SIZE"

definition SIDE_PANEL_WIDTH :: int where
  "SIDE_PANEL_WIDTH = 200"

definition WINDOW_WIDTH :: int where
  "WINDOW_WIDTH = PLAY_WIDTH + SIDE_PANEL_WIDTH"

definition WINDOW_HEIGHT :: int where
  "WINDOW_HEIGHT = PLAY_HEIGHT"

definition TOP_LEFT_X :: int where
  "TOP_LEFT_X = 0"

definition TOP_LEFT_Y :: int where
  "TOP_LEFT_Y = 0"

definition WHITE :: color where
  "WHITE = (255, 255, 255)"

definition GREY :: color where
  "GREY = (128, 128, 128)"

type_synonym rect = "int \<times> int \<times> int \<times> int"

datatype font = SysFont string int bool

datatype call =
    Init
  | Set_caption string
  | Set_mode coord
  | Fill color
  | Draw_line color coord coord int
  | Draw_rect color rect int
  | Blit_text font string color coord
  | Update
  | Quit

type_synonym surface = "call list"
type_synonym metrics = "font \<Rightarrow> string \<Rightarrow> int"

section \<open>Formatting the score\<close>

definition digit_char :: "nat \<Rightarrow> char" where
  "digit_char d = char_of (48 + d)"

fun digits :: "nat \<Rightarrow> string" where
  "digits n = (if n < 10 then [digit_char n] else digits (n div 10) @ [digit_char (n mod 10)])"

definition str_int :: "int \<Rightarrow> string" where
  "str_int i = (if i < 0 then CHR ''-'' # digits (nat (- i)) else digits (nat i))"

text \<open>Reading a decimal numeral back, as Python's \<^verbatim>\<open>int\<close> does.\<close>

definition digit_val :: "char \<Rightarrow> nat" where
  "digit_val c = of_char c - 48"

definition nat_of_digits :: "string \<Rightarrow> nat" where
  "nat_of_digits cs = fold (\<lambda>c n. 10 * n + digit_val c) cs 0"

definition int_of_str :: "string \<Rightarrow> int" where
  "int_of_str cs =
     (case cs of
        [] \<Rightarrow> 0
      | c # rest \<Rightarrow> if c = CHR ''-'' then - int (nat_of_digits rest) else int (nat_of_digits cs))"

section \<open>The drawing routines\<close>

definition draw_grid_lines :: "surface \<Rightarrow> surface" where
  "draw_grid_lines surface =
     (let s1 = fold (\<lambda>x s. s @
                 [Draw_line GREY (TOP_LEFT_X + x * BLOCK_SIZE, TOP_LEFT_Y)
                    (TOP_LEFT_X + x * BLOCK_SIZE, TOP_LEFT_Y + PLAY_HEIGHT) 1])
               (py_range (GRID_WIDTH + 1)) surface
      in fold (\<lambda>y s. s @
                 [Draw_line GREY (TOP_LEFT_X, TOP_LEFT_Y + y * BLOCK_SIZE)
                    (TOP_LEFT_X + PLAY_WIDTH, TOP_LEFT_Y + y * BLOCK_SIZE) 1])
               (py_range (GRID_HEIGHT + 1)) s1)"

definition draw_labels :: "int \<Rightarrow> surface \<Rightarrow> surface" where
  "draw_labels score surface =
     (let font = SysFont ''arial'' 28 True;
          s1 = surface @ [Blit_text font ''TETRIS'' WHITE (PLAY_WIDTH + 20, 20)];
          small_font = SysFont ''arial'' 20 False;
          s2 = s1 @ [Blit_text small_font (''Skor: '' @ str_int score) WHITE (PLAY_WIDTH + 20, 60)]
      in s2 @ [Blit_text small_font ''Berikutnya:'' WHITE (PLAY_WIDTH + 20, 100)])"

definition draw_preview :: "piece \<Rightarrow> surface \<Rightarrow> surface" where
  "draw_preview next_piece surface =
     fold (\<lambda>(x, y) s.
        (let px = PLAY_WIDTH + 60 + x * BLOCK_SIZE;
             py = 140 + y * BLOCK_SIZE
         in s @ [Draw_rect (color next_piece) (px, py, BLOCK_SIZE, BLOCK_SIZE) 0,
                 Draw_rect (40, 40, 40) (px, py, BLOCK_SIZE, BLOCK_SIZE) 1]))
       (shape next_piece ! nat (rotation next_piece mod 4)) surface"

definition draw_blocks :: "grid \<Rightarrow> surface \<Rightarrow> surface" where
  "draw_blocks grid surface =
     fold (\<lambda>y. fold (\<lambda>x s.
        (let color = grid ! nat y ! nat x
         in if color \<noteq> BLACK
            then s @ [Draw_rect color
                        (TOP_LEFT_X + x * BLOCK_SIZE, TOP_LEFT_Y + y * BLOCK_SIZE,
                         BLOCK_SIZE, BLOCK_SIZE) 0,
                      Draw_rect (40, 40, 40)
                        (TOP_LEFT_X + x * BLOCK_SIZE, TOP_LEFT_Y + y * BLOCK_SIZE,
                         BLOCK_SIZE, BLOCK_SIZE) 1]
            else s)) (py_range GRID_WIDTH)) (py_range GRID_HEIGHT) surface"

definition draw_window :: "surface \<Rightarrow> grid \<Rightarrow> int \<Rightarrow> piece \<Rightarrow> surface" where
  "draw_window surface grid score next_piece =
     (let s1 = surface @ [Fill (20, 20, 20)];
          s2 = draw_labels score s1;
          s3 = draw_preview next_piece s2;
          s4 = s3 @ [Draw_rect WHITE (TOP_LEFT_X, TOP_LEFT_Y, PLAY_WIDTH, PLAY_HEIGHT) 2];
          s5 = draw_blocks grid s4
      in draw_grid_lines s5)"

definition game_over_screen :: "metrics \<Rightarrow> surface \<Rightarrow> int \<Rightarrow> surface" where
  "game_over_screen get_width surface score =
     (let font = SysFont ''arial'' 36 True;
          small = SysFont ''arial'' 22 False;
          s1 = surface @ [Fill (10, 10, 10)];
          text = ''Game Over'';
          score_lbl = ''Skor: '' @ str_int score;
          hint = ''Tekan Enter untuk main lagi atau Esc untuk keluar'';
          s2 = s1 @ [Blit_text font text WHITE
                       (PLAY_WIDTH div 2 - get_width font text div 2, PLAY_HEIGHT div 3)];
          s3 = s2 @ [Blit_text small score_lbl WHITE
                       (PLAY_WIDTH div 2 - get_width small score_lbl div 2,
                        PLAY_HEIGHT div 3 + 50)];
          s4 = s3 @ [Blit_text small hint WHITE
                       (PLAY_WIDTH div 2 - get_width small hint div 2, PLAY_HEIGHT div 3 + 100)]
      in s4 @ [Update])"

section \<open>Reading a surface\<close>

definition cell_rect :: "coord \<Rightarrow> rect" where
  "cell_rect pos =
     (TOP_LEFT_X + fst pos * BLOCK_SIZE, TOP_LEFT_Y + snd pos * BLOCK_SIZE, BLOCK_SIZE, BLOCK_SIZE)"

definition is_fill :: "call \<Rightarrow> bool" where
  "is_fill c = (case c of Fill col \<Rightarrow> True | _ \<Rightarrow> False)"

definition since_fill :: "surface \<Rightarrow> call list" where
  "since_fill surface = rev (takeWhile (\<lambda>c. \<not> is_fill c) (rev surface))"

definition fills :: "rect \<Rightarrow> call \<Rightarrow> color list" where
  "fills r c = (case c of Draw_rect col r' w \<Rightarrow> if r' = r \<and> w = 0 then [col] else [] | _ \<Rightarrow> [])"

definition block_shown :: "surface \<Rightarrow> coord \<Rightarrow> color option" where
  "block_shown surface pos =
     (case concat (map (fills (cell_rect pos)) (since_fill surface)) of
        [] \<Rightarrow> None | cs \<Rightarrow> Some (last cs))"

definition in_window :: "coord \<Rightarrow> bool" where
  "in_window pos \<longleftrightarrow>
     0 \<le> fst pos \<and> fst pos \<le> WINDOW_WIDTH \<and> 0 \<le> snd pos \<and> snd pos \<le> WINDOW_HEIGHT"

definition call_in_window :: "call \<Rightarrow> bool" where
  "call_in_window c =
     (case c of
        Draw_line col start end w \<Rightarrow> in_window start \<and> in_window end
      | Draw_rect col (l, t, w, h) b \<Rightarrow> 0 \<le> w \<and> 0 \<le> h \<and> in_window (l, t) \<and> in_window (l + w, t + h)
      | Blit_text f txt col pos \<Rightarrow> in_window pos
      | _ \<Rightarrow> True)"

text \<open>The calls of each routine as a list: the cells of the grid in the order
  the loops visit them, and what is drawn for a cell, for the grid lines, for
  the labels and for the preview.\<close>

definition cells_row_major :: "coord list" where
  "cells_row_major =
     concat (map (\<lambda>y. map (\<lambda>x. (x, y)) (py_range GRID_WIDTH)) (py_range GRID_HEIGHT))"

definition block_calls :: "grid \<Rightarrow> coord \<Rightarrow> call list" where
  "block_calls g pos =
     (if cell g pos \<noteq> BLACK
      then [Draw_rect (cell g pos) (cell_rect pos) 0, Draw_rect (40, 40, 40) (cell_rect pos) 1]
      else [])"

definition line_calls :: "call list" where
  "line_calls =
     map (\<lambda>x. Draw_line GREY (x * BLOCK_SIZE, 0) (x * BLOCK_SIZE, PLAY_HEIGHT) 1)
       (py_range (GRID_WIDTH + 1)) @
     map (\<lambda>y. Draw_line GREY (0, y * BLOCK_SIZE) (PLAY_WIDTH, y * BLOCK_SIZE) 1)
       (py_range (GRID_HEIGHT + 1))"

definition label_calls :: "int \<Rightarrow> call list" where
  "label_calls sc =
     [Blit_text (SysFont ''arial'' 28 True) ''TETRIS'' WHITE (PLAY_WIDTH + 20, 20),
      Blit_text (SysFont ''arial'' 20 False) (''Skor: '' @ str_int sc) WHITE (PLAY_WIDTH + 20, 60),
      Blit_text (SysFont ''arial'' 20 False) ''Berikutnya:'' WHITE (PLAY_WIDTH + 20, 100)]"

definition preview_calls :: "piece \<Rightarrow> call list" where
  "preview_calls np =
     concat (map (\<lambda>off.
        [Draw_rect (color np)
           (PLAY_WIDTH + 60 + fst off * BLOCK_SIZE, 140 + snd off * BLOCK_SIZE,
            BLOCK_SIZE, BLOCK_SIZE) 0,
         Draw_rect (40, 40, 40)
           (PLAY_WIDTH + 60 + fst off * BLOCK_SIZE, 140 + snd off * BLOCK_SIZE,
            BLOCK_SIZE, BLOCK_SIZE) 1])
       (shape np ! nat (rotation np mod 4)))"

definition hint :: string where
  "hint = ''Tekan Enter untuk main lagi atau Esc untuk keluar''"

section \<open>The score label\<close>

text \<open>The decimal numeral of a score determines the score.\<close>

declare digits.simps [simp del]

lemma of_char_digit_char: "d < 10 \<Longrightarrow> of_char (digit_char d) = 48 + d"
  by (simp add: digit_char_def)

lemma digit_val_digit_char [simp]: "d < 10 \<Longrightarrow> digit_val (digit_char d) = d"
  by (simp add: digit_val_def of_char_digit_char)

lemma digit_char_not_minus [simp]: "d < 10 \<Longrightarrow> digit_char d \<noteq> CHR ''-''"
  using of_char_digit_char [of d] by (auto simp del: of_char_of)

lemma nat_of_digits_digits [simp]: "nat_of_digits (digits n) = n"
proof (induction n rule: digits.induct)
  case (1 n)
  show ?case
  proof (cases "n < 10")
    case True
    then show ?thesis by (subst digits.simps) (simp add: nat_of_digits_def)
  next
    case False
    with 1 show ?thesis
      by (subst digits.simps) (simp add: nat_of_digits_def)
  qed
qed

lemma hd_digits: "\<exists>d rest. d < 10 \<and> digits n = digit_char d # rest"
proof (induction n rule: digits.induct)
  case (1 n)
  show ?case
  proof (cases "n < 10")
    case True
    then show ?thesis by (subst digits.simps) auto
  next
    case False
    with 1 obtain d rest where "d < 10" "digits (n div 10) = digit_char d # rest" by auto
    with False show ?thesis by (subst digits.simps) auto
  qed
qed

lemma int_of_str_str_int [simp]: "int_of_str (str_int i) = i"
proof (cases "i < 0")
  case True
  then show ?thesis by (simp add: str_int_def int_of_str_def)
next
  case False
  from hd_digits [of "nat i"] obtain d rest where "d < 10" "digits (nat i) = digit_char d # rest"
    by blast
  with False nat_of_digits_digits [of "nat i"] show ?thesis
    by (simp add: str_int_def int_of_str_def)
qed

lemma inj_str_int: "inj str_int"
  by (rule inj_on_inverseI [where g = int_of_str]) simp

lemma str_int_examples: "str_int 0 = ''0''" "str_int 300 = ''300''" "str_int (- 12) = ''-12''"
  by code_simp+

section \<open>The calls of each routine\<close>

lemmas layout_defs =
  BLOCK_SIZE_def PLAY_WIDTH_def PLAY_HEIGHT_def SIDE_PANEL_WIDTH_def WINDOW_WIDTH_def
  WINDOW_HEIGHT_def TOP_LEFT_X_def TOP_LEFT_Y_def

lemma draw_grid_lines_calls: "draw_grid_lines s = s @ line_calls"
  by (simp add: draw_grid_lines_def line_calls_def fold_append TOP_LEFT_X_def TOP_LEFT_Y_def)

lemma draw_blocks_calls:
  "draw_blocks g s = s @ concat (map (block_calls g) cells_row_major)"
proof -
  have inner: "fold (\<lambda>x s. let color = g ! nat y ! nat x
         in if color \<noteq> BLACK
            then s @ [Draw_rect color
                        (TOP_LEFT_X + x * BLOCK_SIZE, TOP_LEFT_Y + y * BLOCK_SIZE,
                         BLOCK_SIZE, BLOCK_SIZE) 0,
                      Draw_rect (40, 40, 40)
                        (TOP_LEFT_X + x * BLOCK_SIZE, TOP_LEFT_Y + y * BLOCK_SIZE,
                         BLOCK_SIZE, BLOCK_SIZE) 1]
            else s) xs = (\<lambda>s. s @ concat (map (\<lambda>x. block_calls g (x, y)) xs))" for y xs
    by (induction xs) (auto simp: block_calls_def cell_def cell_rect_def Let_def fun_eq_iff)
  show ?thesis
    unfolding draw_blocks_def inner cells_row_major_def
    by (simp add: fold_append map_concat concat_concat comp_def)
qed

lemma draw_preview_calls: "draw_preview np s = s @ preview_calls np"
  by (simp add: draw_preview_def preview_calls_def split_def Let_def fold_append)

lemma draw_labels_calls: "draw_labels sc s = s @ label_calls sc"
  by (simp add: draw_labels_def label_calls_def Let_def)

lemma draw_window_calls:
  "draw_window s g sc np =
     s @ Fill (20, 20, 20) # label_calls sc @ preview_calls np @
     Draw_rect WHITE (0, 0, PLAY_WIDTH, PLAY_HEIGHT) 2 #
     concat (map (block_calls g) cells_row_major) @ line_calls"
  by (simp add: draw_window_def draw_labels_calls draw_preview_calls draw_blocks_calls
      draw_grid_lines_calls TOP_LEFT_X_def TOP_LEFT_Y_def)

lemma since_fill_last:
  "list_all (\<lambda>c. \<not> is_fill c) rest \<Longrightarrow> since_fill (s @ Fill col # rest) = rest"
proof -
  assume "list_all (\<lambda>c. \<not> is_fill c) rest"
  then have "takeWhile (\<lambda>c. \<not> is_fill c) (rev rest @ Fill col # rev s) = rev rest"
    by (subst takeWhile_append2) (simp_all add: list_all_iff is_fill_def)
  then show ?thesis by (simp add: since_fill_def)
qed

lemma since_fill_snoc: "\<not> is_fill c \<Longrightarrow> since_fill (s @ [c]) = since_fill s @ [c]"
  by (simp add: since_fill_def)

lemma block_shown_Update [simp]: "block_shown (s @ [Update]) pos = block_shown s pos"
  by (simp add: block_shown_def since_fill_snoc is_fill_def fills_def)

lemma distinct_cells_row_major: "distinct cells_row_major"
  unfolding cells_row_major_def
  by (rule distinct_concat) (auto simp: distinct_map inj_on_def game_consts)

lemma set_cells_row_major: "pos \<in> set cells_row_major \<longleftrightarrow> in_grid pos"
  by (cases pos) (auto simp: cells_row_major_def in_grid_def image_iff)

lemma cell_rect_inj: "cell_rect p = cell_rect q \<longleftrightarrow> p = q"
  by (auto simp: cell_rect_def BLOCK_SIZE_def prod_eq_iff)

lemma fills_block_calls:
  "concat (map (fills (cell_rect pos)) (block_calls g q)) =
     (if q = pos \<and> cell g pos \<noteq> BLACK then [cell g pos] else [])"
  by (auto simp: block_calls_def fills_def cell_rect_inj)

lemma fills_blocks:
  assumes "in_grid pos"
  shows "concat (map (fills (cell_rect pos)) (concat (map (block_calls g) cells_row_major))) =
           (if cell g pos \<noteq> BLACK then [cell g pos] else [])"
proof -
  have "concat (map (fills (cell_rect pos)) (concat (map (block_calls g) cells_row_major))) =
          concat (map (\<lambda>q. concat (map (fills (cell_rect pos)) (block_calls g q))) cells_row_major)"
    by (simp add: map_concat concat_concat comp_def)
  also have "\<dots> = concat (map (fills (cell_rect pos)) (block_calls g pos))"
    using assms
    by (intro concat_map_single distinct_cells_row_major)
       (simp_all add: set_cells_row_major fills_block_calls)
  finally show ?thesis by (simp add: fills_block_calls)
qed

lemma fills_preview: "concat (map (fills (cell_rect pos)) (preview_calls np)) = []"
proof -
  have "140 + b * 30 \<noteq> y * (30::int)" for b y by presburger
  then show ?thesis
    by (simp add: preview_calls_def map_concat concat_concat comp_def fills_def cell_rect_def
        BLOCK_SIZE_def TOP_LEFT_Y_def)
qed

lemma fills_lines: "concat (map (fills r) line_calls) = []"
  by (simp add: line_calls_def fills_def comp_def)

lemma fills_labels: "concat (map (fills r) (label_calls sc)) = []"
  by (simp add: label_calls_def fills_def)

lemma no_fill_window:
  "list_all (\<lambda>c. \<not> is_fill c)
     (label_calls sc @ preview_calls np @ Draw_rect WHITE (0, 0, PLAY_WIDTH, PLAY_HEIGHT) 2 #
      concat (map (block_calls g) cells_row_major) @ line_calls)"
  by (auto simp: label_calls_def preview_calls_def block_calls_def line_calls_def
      is_fill_def list_all_iff)

text \<open>C8: What \<open>draw_window\<close> paints is the grid it is given: whatever was on the
  surface before, the square of a cell of the grid is filled with the colour of
  that cell, and no square is painted for a cell that is \<open>BLACK\<close>. The preview,
  the frame of the play area and the grid lines never fill the square of a cell.\<close>

theorem draw_window_shows_grid:
  assumes "in_grid pos"
  shows "block_shown (draw_window s g sc np) pos =
           (if cell g pos = BLACK then None else Some (cell g pos))"
  using assms
  by (simp add: block_shown_def draw_window_calls since_fill_last [OF no_fill_window]
      fills_labels fills_preview fills_blocks fills_lines) (simp add: fills_def)

lemma in_window_lines: "list_all call_in_window line_calls"
  by (auto simp: line_calls_def call_in_window_def in_window_def list_all_iff layout_defs
      game_consts)

lemma in_window_labels: "list_all call_in_window (label_calls sc)"
  by (simp add: label_calls_def call_in_window_def in_window_def layout_defs game_consts)

lemma in_window_block: "in_grid q \<Longrightarrow> list_all call_in_window (block_calls g q)"
  by (simp add: block_calls_def call_in_window_def in_window_def cell_rect_def in_grid_def
      layout_defs game_consts)

lemma in_window_preview:
  assumes "piece_ok np"
  shows "list_all call_in_window (preview_calls np)"
proof -
  have "call_in_window (Draw_rect c (PLAY_WIDTH + 60 + fst off * BLOCK_SIZE,
          140 + snd off * BLOCK_SIZE, BLOCK_SIZE, BLOCK_SIZE) w)"
    if "off \<in> set (shape np ! nat (rotation np mod 4))" for off c w
  proof -
    from piece_ok_state [OF assms] that have "near_pivot off"
      by (simp add: state_ok_def list_all_iff)
    then show ?thesis
      by (simp add: call_in_window_def in_window_def near_pivot_def layout_defs game_consts)
  qed
  then show ?thesis
    by (simp add: preview_calls_def list_all_iff)
qed

text \<open>C25: \<open>draw_window\<close> stays inside the window: when the piece shown as the next one
  is well formed, every line and every rectangle it draws starts and ends
  within \<open>WINDOW_WIDTH\<close> by \<open>WINDOW_HEIGHT\<close> pixels, and every text starts there
  (where a text ends depends on its rendered width, which is pygame's). The
  four squares of the preview fit between the labels and the right edge.\<close>

theorem draw_window_in_window:
  assumes "list_all call_in_window s" and "piece_ok np"
  shows "list_all call_in_window (draw_window s g sc np)"
proof -
  have "list_all call_in_window (concat (map (block_calls g) cells_row_major))"
    by (simp add: list_all_iff set_cells_row_major in_window_block [unfolded list_all_iff])
  with assms show ?thesis
    by (simp add: draw_window_calls in_window_labels in_window_preview in_window_lines)
       (simp add: call_in_window_def in_window_def layout_defs game_consts)
qed

theorem draw_window_in_window_witness:
  "list_all call_in_window (draw_window [] (create_grid one_cell_board) 100 spawn_T)"
  using draw_window_in_window [of "[]" spawn_T "create_grid one_cell_board" 100]
  by (simp add: piece_ok_spawn_T)

theorem draw_window_shows_grid_witness:
  "block_shown (draw_window [] (create_grid one_cell_board) 100 spawn_T) (0, 7) = Some COLOR_I \<and>
   block_shown (draw_window [] (create_grid one_cell_board) 100 spawn_T) (1, 7) = None"
  using draw_window_shows_grid [of "(0, 7)" "[]" "create_grid one_cell_board" 100 spawn_T]
    draw_window_shows_grid [of "(1, 7)" "[]" "create_grid one_cell_board" 100 spawn_T]
    board_ok_one_cell_board
  by (simp add: create_grid_cell in_grid_def game_consts cell_of_def one_cell_board_def
      COLOR_I_def)

lemma game_over_screen_calls:
  "game_over_screen gw s sc = s @
     [Fill (10, 10, 10),
      Blit_text (SysFont ''arial'' 36 True) ''Game Over'' WHITE
        (150 - gw (SysFont ''arial'' 36 True) ''Game Over'' div 2, 200),
      Blit_text (SysFont ''arial'' 22 False) (''Skor: '' @ str_int sc) WHITE
        (150 - gw (SysFont ''arial'' 22 False) (''Skor: '' @ str_int sc) div 2, 250),
      Blit_text (SysFont ''arial'' 22 False) hint WHITE
        (150 - gw (SysFont ''arial'' 22 False) hint div 2, 300),
      Update]"
  by (simp add: game_over_screen_def hint_def Let_def layout_defs game_consts)

text \<open>C40: The game-over screen centres its texts on the play area, which is
  \<open>PLAY_WIDTH = 300\<close> pixels wide, and not on the window. A hint that is
  rendered wider than 301 pixels therefore starts left of the window: its
  call is not inside the window.\<close>

theorem game_over_hint_cut_off:
  assumes "PLAY_WIDTH + 1 < gw (SysFont ''arial'' 22 False) hint"
  shows "\<not> list_all call_in_window (game_over_screen gw s sc)"
  using assms
  by (simp add: game_over_screen_calls call_in_window_def in_window_def layout_defs game_consts)
     linarith

theorem game_over_hint_cut_off_witness:
  "\<not> list_all call_in_window (game_over_screen (\<lambda>f txt. 7 * int (length txt)) [] 0)"
  using game_over_hint_cut_off [of "\<lambda>f txt. 7 * int (length txt)" "[]" 0]
  by (simp add: hint_def layout_defs game_consts)

end
