(* ===== verification/Program.thy ===== *)
theory Program
  imports Session Rendering
begin

text \<open>
  The whole program of \<^verbatim>\<open>src/tetris.py\<close>: \<^verbatim>\<open>main\<close> with the window it opens and the
  picture it draws in every pass, the screen and the waiting loop of
  \<^verbatim>\<open>game_over\<close>, and the way the two call each other.

  \<^verbatim>\<open>main\<close> ends by calling \<^verbatim>\<open>game_over\<close>, and \<^verbatim>\<open>game_over\<close> restarts the game by
  calling \<^verbatim>\<open>main\<close>; neither call ever returns, because the only ways out of the
  waiting loop are \<^verbatim>\<open>sys.exit\<close> and a call of \<^verbatim>\<open>main\<close>. The program is therefore
  always inside the loop of the innermost call, and its state is a \<open>program\<close>:
  the \<open>phase\<close> (the session of the running game, the game-over screen with the
  score it shows, or the exception that ended the process), the \<open>window\<close> (all
  calls of pygame so far) and the \<open>depth\<close> of the call stack, counted in calls
  of \<^verbatim>\<open>main\<close> and \<^verbatim>\<open>game_over\<close>.

  \<open>step\<close> is one pass of the loop that is running, on what the environment
  delivers during that pass: the \<open>input\<close> of the session and a second random
  draw, which only the start of \<^verbatim>\<open>main\<close> takes. \<open>run_program\<close> runs the passes of a
  list of inputs. The lemmas show that the program never hangs and never ends
  by an exception other than \<^verbatim>\<open>SystemExit\<close>, that it ends only when the player
  asks for it, that a restart begins a fresh game, that every restart
  deepens the call stack by two, and that the sessions the program plays are
  the sessions of \<open>reachable\<close> (\<open>program_reachable\<close>), so that every invariant of
  the reachable sessions holds of the running program.
\<close>

section \<open>State and operations\<close>

datatype phase = Playing session | Game_over int | Exited py_error

record program =
  phase :: phase
  window :: surface
  depth :: nat

definition start_main :: "nat \<Rightarrow> nat \<Rightarrow> surface \<Rightarrow> nat \<Rightarrow> program" where
  "start_main r1 r2 win d =
     (let win' = win @ [Init, Set_caption ''Tetris - Pygame'',
                        Set_mode (WINDOW_WIDTH, WINDOW_HEIGHT)]
      in case init_session r1 r2 of
           Inl e \<Rightarrow> \<lparr>phase = Exited e, window = win', depth = d + 1\<rparr>
         | Inr s \<Rightarrow> \<lparr>phase = Playing s, window = win', depth = d + 1\<rparr>)"

definition program_start :: "nat \<Rightarrow> nat \<Rightarrow> program" where
  "program_start r1 r2 = start_main r1 r2 [] 0"

definition enter_game_over :: "metrics \<Rightarrow> surface \<Rightarrow> nat \<Rightarrow> int \<Rightarrow> program" where
  "enter_game_over get_width win d sc =
     \<lparr>phase = Game_over sc, window = game_over_screen get_width win sc, depth = d + 1\<rparr>"

definition show_session :: "surface \<Rightarrow> session \<Rightarrow> surface" where
  "show_session win s = draw_window win (grid s) (score s) (next_piece s) @ [Update]"

definition play_pass :: "metrics \<Rightarrow> input \<Rightarrow> program \<Rightarrow> session \<Rightarrow> program option" where
  "play_pass get_width i p s =
     (case moves i s of
        None \<Rightarrow> None
      | Some (Inl e) \<Rightarrow> Some (p\<lparr>phase := Exited e, window := window p @ [Quit]\<rparr>)
      | Some (Inr s4) \<Rightarrow>
          (let win = show_session (window p) s4
           in case resolve_lock (draw i) s4 of
                Inl e \<Rightarrow> Some (p\<lparr>phase := Exited e, window := win\<rparr>)
              | Inr s' \<Rightarrow>
                  if run s' then Some (p\<lparr>phase := Playing s', window := win\<rparr>)
                  else Some (enter_game_over get_width win (depth p) (score s'))))"

definition wait_pass :: "input \<Rightarrow> nat \<Rightarrow> program \<Rightarrow> program" where
  "wait_pass i r2 p =
     (case game_over_events (events i) of
        Inl e \<Rightarrow> p\<lparr>phase := Exited e, window := window p @ [Quit]\<rparr>
      | Inr Waiting \<Rightarrow> p
      | Inr Restart \<Rightarrow> start_main (draw i) r2 (window p) (depth p))"

definition step :: "metrics \<Rightarrow> input \<Rightarrow> nat \<Rightarrow> program \<Rightarrow> program option" where
  "step get_width i r2 p =
     (case phase p of
        Playing s \<Rightarrow>
          if run s then play_pass get_width i p s
          else Some (enter_game_over get_width (window p) (depth p) (score s))
      | Game_over sc \<Rightarrow> Some (wait_pass i r2 p)
      | Exited e \<Rightarrow> Some p)"

fun run_program :: "metrics \<Rightarrow> (input \<times> nat) list \<Rightarrow> program \<Rightarrow> program option" where
  "run_program get_width [] p = Some p"
| "run_program get_width ((i, r2) # rest) p =
     (case step get_width i r2 p of
        None \<Rightarrow> None
      | Some p' \<Rightarrow> run_program get_width rest p')"

section \<open>Invariant\<close>

definition mains :: "program \<Rightarrow> nat" where
  "mains p = count_list (window p) Init"

definition is_exited :: "program \<Rightarrow> bool" where
  "is_exited p = (case phase p of Exited e \<Rightarrow> True | _ \<Rightarrow> False)"

definition program_ok :: "program \<Rightarrow> bool" where
  "program_ok p =
     (case phase p of
        Playing s \<Rightarrow> session_ok s \<and> run s \<and> depth p + 1 = 2 * mains p
      | Game_over sc \<Rightarrow> 0 \<le> sc \<and> sc mod 100 = 0 \<and> depth p = 2 * mains p
      | Exited e \<Rightarrow> e = SystemExit \<and> window p \<noteq> [] \<and> last (window p) = Quit)"

definition exit_first :: "event list \<Rightarrow> bool" where
  "exit_first es =
     (case find (\<lambda>e. exits e \<or> e = KEYDOWN K_RETURN) es of None \<Rightarrow> False | Some e \<Rightarrow> exits e)"

definition asked :: "input \<Rightarrow> program \<Rightarrow> bool" where
  "asked i p =
     (case phase p of
        Playing s \<Rightarrow> list_ex exits (events i)
      | Game_over sc \<Rightarrow> exit_first (events i)
      | Exited e \<Rightarrow> True)"

text \<open>Example data: fixed-width metrics, the program as it starts with an I
  piece, and the program on the game-over screen of a game that scored 300.\<close>

definition seven_wide :: metrics where
  "seven_wide f txt = 7 * int (length txt)"

definition lost_300 :: program where
  "lost_300 = enter_game_over seven_wide
     [Init, Set_caption ''Tetris - Pygame'', Set_mode (WINDOW_WIDTH, WINDOW_HEIGHT)] 1 300"

definition press_return :: input where
  "press_return = \<lparr>tick_ms = 33, events = [OTHER_EVENT, KEYDOWN K_RETURN, QUIT], pressed = [],
                    draw = 0\<rparr>"

definition press_escape :: input where
  "press_escape = \<lparr>tick_ms = 33, events = [KEYDOWN K_ESCAPE], pressed = [], draw = 0\<rparr>"

section \<open>The calls of a pass\<close>

lemma count_Init_draw_window [simp]:
  "count_list (draw_window s g sc np) Init = count_list s Init"
  by (simp add: draw_window_calls label_calls_def)
     (auto simp: count_list_0_iff preview_calls_def block_calls_def line_calls_def)

lemma count_Init_game_over_screen [simp]:
  "count_list (game_over_screen gw s sc) Init = count_list s Init"
  by (simp add: game_over_screen_calls)

lemma game_over_events_Inl:
  "game_over_events es = Inl e \<Longrightarrow> e = SystemExit \<and> list_ex exits es"
  by (induction es) (auto simp: exits_def split: if_splits)

lemma start_main_ok:
  assumes "d = 2 * count_list win Init"
  shows "\<exists>s. init_session r1 r2 = Inr s \<and>
           start_main r1 r2 win d =
             \<lparr>phase = Playing s,
              window = win @ [Init, Set_caption ''Tetris - Pygame'',
                              Set_mode (WINDOW_WIDTH, WINDOW_HEIGHT)],
              depth = d + 1\<rparr> \<and>
           program_ok (start_main r1 r2 win d)"
proof -
  from init_session_ok [of r1 r2] obtain s where s: "init_session r1 r2 = Inr s" "session_ok s"
    by blast
  from s(1) have "run s" by (auto simp: init_session_def bind_result_eq_Inr)
  with s assms show ?thesis
    by (simp add: start_main_def program_ok_def mains_def)
qed

lemma play_pass_exit:
  "list_ex exits (events i) \<Longrightarrow>
   play_pass gw i p s = Some (p\<lparr>phase := Exited SystemExit, window := window p @ [Quit]\<rparr>)"
  by (simp add: play_pass_def moves_exit)

lemma play_pass_step:
  assumes "session_ok s" and "run s" and "\<not> list_ex exits (events i)"
  obtains t s' where "moves i s = Some (Inr t)" and "same_game s t"
    and "frame i s = Some (Inr s')" and "session_ok s'"
    and "play_pass gw i p s =
           Some (if run s' then p\<lparr>phase := Playing s', window := show_session (window p) t\<rparr>
                 else enter_game_over gw (show_session (window p) t) (depth p) (score s'))"
proof -
  from assms(1,2) have inv: "session_inv s" and lost: "\<not> check_lost (locked_positions s)"
    by (simp_all add: session_ok_def)
  from moves_step [OF inv assms(3)] obtain t where t: "moves i s = Some (Inr t)"
    "same_game s t" "grid t = paint_piece (current_piece t) (create_grid (locked_positions t))"
    by blast
  from resolve_lock_session [OF t(2) assms(2) lost t(3), of "draw i"] obtain s' where
    "resolve_lock (draw i) t = Inr s'" "session_ok s'"
    by (auto split: if_splits)
  with t(1,2) show thesis
    by (intro that [of t s']) (simp_all add: play_pass_def frame_def Let_def)
qed

lemma step_program_ok:
  assumes "program_ok p"
  shows "\<exists>p'. step gw i r2 p = Some p' \<and> program_ok p'"
proof (cases "phase p")
  case (Playing s)
  with assms have s: "session_ok s" "run s" "depth p + 1 = 2 * mains p"
    by (simp_all add: program_ok_def)
  show ?thesis
  proof (cases "list_ex exits (events i)")
    case True
    with Playing s(2) show ?thesis
      by (simp add: step_def play_pass_exit program_ok_def)
  next
    case False
    from play_pass_step [OF s(1,2) False, of gw p] obtain t s' where
      "session_ok s'"
      "play_pass gw i p s =
         Some (if run s' then p\<lparr>phase := Playing s', window := show_session (window p) t\<rparr>
               else enter_game_over gw (show_session (window p) t) (depth p) (score s'))"
      by blast
    with Playing s(2,3) show ?thesis
      by (simp add: step_def program_ok_def mains_def enter_game_over_def show_session_def
          session_ok_def session_inv_def)
  qed
next
  case (Game_over sc)
  with assms have sc: "depth p = 2 * count_list (window p) Init"
    by (simp add: program_ok_def mains_def)
  show ?thesis
  proof (cases "game_over_events (events i)")
    case (Inl e)
    with game_over_events_Inl [OF Inl] Game_over show ?thesis
      by (simp add: step_def wait_pass_def program_ok_def)
  next
    case (Inr c)
    with Game_over assms start_main_ok [OF sc, of "draw i" r2] show ?thesis
      by (cases c) (auto simp: step_def wait_pass_def)
  qed
next
  case (Exited e)
  with assms show ?thesis by (simp add: step_def)
qed

lemma run_program_ok:
  "program_ok p \<Longrightarrow> \<exists>p'. run_program gw inputs p = Some p' \<and> program_ok p'"
proof (induction inputs arbitrary: p)
  case Nil
  then show ?case by simp
next
  case (Cons a inputs)
  obtain i r2 where a: "a = (i, r2)" by (cases a)
  from step_program_ok [OF Cons.prems, of gw i r2] obtain p' where
    "step gw i r2 p = Some p'" "program_ok p'"
    by blast
  with Cons.IH [of p'] a show ?case by simp
qed

lemma program_start_ok: "program_ok (program_start r1 r2)"
  using start_main_ok [of 0 "[]" r1 r2] by (auto simp: program_start_def)

text \<open>The sessions the program plays are sessions of \<open>reachable\<close>: a game starts
  with \<open>init_session\<close>, at the first call of \<^verbatim>\<open>main\<close> and at every restart, and goes
  on by \<open>frame\<close>.\<close>

lemma phase_program_start:
  "phase (program_start r1 r2) = Playing s \<Longrightarrow> init_session r1 r2 = Inr s"
  using start_main_ok [of 0 "[]" r1 r2] by (auto simp: program_start_def)

lemma step_reachable:
  assumes "program_ok p" and "\<forall>s. phase p = Playing s \<longrightarrow> reachable s"
    and "step gw i r2 p = Some p'" and "phase p' = Playing s'"
  shows "reachable s'"
proof (cases "phase p")
  case (Playing s)
  with assms(1,2) have s: "session_ok s" "run s" and r: "reachable s"
    by (simp_all add: program_ok_def)
  show ?thesis
  proof (cases "list_ex exits (events i)")
    case True
    with Playing s(2) assms(3,4) show ?thesis by (auto simp: step_def play_pass_exit)
  next
    case False
    from play_pass_step [OF s False, of gw p] obtain t s'' where s'': "frame i s = Some (Inr s'')"
      "play_pass gw i p s =
         Some (if run s'' then p\<lparr>phase := Playing s'', window := show_session (window p) t\<rparr>
               else enter_game_over gw (show_session (window p) t) (depth p) (score s''))"
      by blast
    with Playing s(2) assms(3,4) have "s' = s''"
      by (auto simp: step_def enter_game_over_def split: if_splits)
    with r s(2) s''(1) show ?thesis by (auto intro: reachable.step)
  qed
next
  case (Game_over sc)
  with assms(1) have "depth p = 2 * count_list (window p) Init"
    by (simp add: program_ok_def mains_def)
  from start_main_ok [OF this, of "draw i" r2] Game_over assms(3,4) show ?thesis
    by (auto simp: step_def wait_pass_def split: sum.splits choice.splits intro: reachable.start)
next
  case (Exited e)
  with assms(3,4) show ?thesis by (auto simp: step_def)
qed

lemma run_program_reachable:
  "program_ok p \<Longrightarrow> \<forall>s. phase p = Playing s \<longrightarrow> reachable s \<Longrightarrow>
   run_program gw inputs p = Some p' \<Longrightarrow> phase p' = Playing s' \<Longrightarrow> reachable s'"
proof (induction inputs arbitrary: p)
  case Nil
  then show ?case by simp
next
  case (Cons a inputs)
  obtain i r2 where a: "a = (i, r2)" by (cases a)
  from step_program_ok [OF Cons.prems(1), of gw i r2] obtain p1 where
    p1: "step gw i r2 p = Some p1" "program_ok p1"
    by blast
  from step_reachable [OF Cons.prems(1,2) p1(1)]
  have "\<forall>s. phase p1 = Playing s \<longrightarrow> reachable s" by blast
  from Cons.IH [OF p1(2) this] Cons.prems(3,4) a p1(1) show ?case by simp
qed

lemma program_reachable:
  assumes "run_program gw inputs (program_start r1 r2) = Some p" and "phase p = Playing s"
  shows "reachable s"
  using run_program_reachable [OF program_start_ok _ assms]
  by (blast intro: reachable.start dest: phase_program_start)

lemma show_session_board:
  assumes "board_ok (locked_positions t)" and "piece_ok (current_piece t)"
    and "grid t = paint_piece (current_piece t) (create_grid (locked_positions t))"
    and "in_grid pos"
  shows "block_shown (show_session w t) pos =
           (if pos \<in> set (get_cells (current_piece t)) then Some (color (current_piece t))
            else map_of (locked_positions t) pos)"
proof -
  let ?l = "lock_piece (current_piece t) (locked_positions t)"
  from assms(1,3) have "grid t = create_grid ?l"
    by (simp add: paint_piece_create_grid board_okD)
  with assms(1,4) have "cell (grid t) pos = cell_of ?l pos"
    by (simp add: create_grid_cell dict_wf_lock_piece board_okD)
  with assms(2,4) board_shown [OF assms(1), of pos] show ?thesis
    by (auto simp: show_session_def draw_window_shows_grid cell_of_lock_piece piece_ok_color
        split: if_splits)
qed

section \<open>The contract of the program\<close>

lemma game_over_events_cases:
  "game_over_events es =
     (case find (\<lambda>e. exits e \<or> e = KEYDOWN K_RETURN) es of
        None \<Rightarrow> Inr Waiting
      | Some e \<Rightarrow> if e = KEYDOWN K_RETURN then Inr Restart else Inl SystemExit)"
  by (induction es) (auto simp: exits_def)

lemma exit_first_iff: "exit_first es \<longleftrightarrow> game_over_events es = Inl SystemExit"
  by (induction es) (auto simp: exit_first_def exits_def)

lemma is_exited_simps [simp]:
  "is_exited (p\<lparr>phase := Exited e\<rparr>)" "\<not> is_exited (p\<lparr>phase := Playing s\<rparr>)"
  "\<not> is_exited (enter_game_over gw win d sc)"
  "is_exited (p\<lparr>window := w\<rparr>) = is_exited p"
  by (simp_all add: is_exited_def enter_game_over_def)

lemma program_ok_lost_300: "program_ok lost_300"
  by (simp add: lost_300_def enter_game_over_def program_ok_def mains_def)

lemma phase_lost_300 [simp]: "phase lost_300 = Game_over 300"
  by (simp add: lost_300_def enter_game_over_def)

text \<open>C3: Whatever the player does and whatever pieces are drawn, the program
  neither hangs nor crashes: every list of inputs is run to the end, and the
  program is then in a running game whose session satisfies its invariant, on
  the game-over screen, or ended by \<^verbatim>\<open>SystemExit\<close> right after \<^verbatim>\<open>pygame.quit()\<close>. The
  depth of the call stack is twice the number of games started, less one
  while a game is running.\<close>

theorem program_never_crashes:
  "\<exists>p. run_program gw inputs (program_start r1 r2) = Some p \<and> program_ok p"
  using program_start_ok by (rule run_program_ok)

text \<open>C20: The program ends only when the player asks for it: a pass ends it exactly
  when the events of the pass hold \<^verbatim>\<open>QUIT\<close> or the escape key (on the game-over
  screen: before any return key), the exception is \<^verbatim>\<open>SystemExit\<close>, and the last
  call is \<^verbatim>\<open>pygame.quit()\<close>.\<close>

theorem exit_only_on_request:
  assumes "program_ok p" and "\<not> is_exited p" and "step gw i r2 p = Some p'"
  shows "is_exited p' = asked i p \<and>
         (is_exited p' \<longrightarrow> phase p' = Exited SystemExit \<and> window p' = window p @ [Quit])"
proof (cases "phase p")
  case (Playing s)
  with assms(1) have s: "session_ok s" "run s" by (simp_all add: program_ok_def)
  show ?thesis
  proof (cases "list_ex exits (events i)")
    case True
    with Playing s(2) assms(3) show ?thesis
      by (auto simp: step_def play_pass_exit asked_def)
  next
    case False
    from play_pass_step [OF s False, of gw p] obtain t s' where
      "play_pass gw i p s =
         Some (if run s' then p\<lparr>phase := Playing s', window := show_session (window p) t\<rparr>
               else enter_game_over gw (show_session (window p) t) (depth p) (score s'))"
      by blast
    with Playing s(2) assms(3) False show ?thesis
      by (cases "run s'") (auto simp: step_def asked_def)
  qed
next
  case (Game_over sc)
  with assms(3) init_session_ok [of "draw i" r2] show ?thesis
    by (auto simp: step_def wait_pass_def asked_def exit_first_iff start_main_def
        is_exited_def Let_def dest: game_over_events_Inl split: sum.splits choice.splits)
next
  case (Exited e)
  with assms(2) show ?thesis by (simp add: is_exited_def)
qed

theorem exit_only_on_request_witness:
  "program_ok lost_300 \<and> \<not> is_exited lost_300 \<and>
   step seven_wide press_escape 2 lost_300 = Some (lost_300\<lparr>phase := Exited SystemExit,
     window := window lost_300 @ [Quit]\<rparr>) \<and>
   asked press_escape lost_300 \<and> \<not> asked press_return lost_300"
  using exit_only_on_request [OF program_ok_lost_300, of seven_wide press_escape 2]
  by (simp add: program_ok_lost_300 step_def wait_pass_def press_escape_def press_return_def
      asked_def exit_first_def exits_def is_exited_def)

text \<open>C21: On the game-over screen the return key, when it comes before \<^verbatim>\<open>QUIT\<close> and the
  escape key, starts a new game: \<^verbatim>\<open>main\<close> is called one level deeper, it opens the
  window again, and the new session carries nothing over: the board is empty,
  the score is 0 and the speed is back at half a second per row.\<close>

theorem restart_is_fresh:
  assumes "phase p = Game_over sc"
    and "find (\<lambda>e. exits e \<or> e = KEYDOWN K_RETURN) (events i) = Some (KEYDOWN K_RETURN)"
  shows "\<exists>s. step gw i r2 p =
             Some \<lparr>phase = Playing s,
                   window = window p @ [Init, Set_caption ''Tetris - Pygame'',
                                        Set_mode (WINDOW_WIDTH, WINDOW_HEIGHT)],
                   depth = depth p + 1\<rparr> \<and>
           init_session (draw i) r2 = Inr s \<and> session_ok s \<and> run s \<and>
           locked_positions s = [] \<and> score s = 0 \<and> fall_speed s = 0.5"
proof -
  from init_session_ok [of "draw i" r2] obtain s where
    s: "init_session (draw i) r2 = Inr s" "session_ok s"
    by blast
  from s(1) have "run s" "locked_positions s = []" "score s = 0" "fall_speed s = 0.5"
    by (auto simp: init_session_def bind_result_eq_Inr)
  with assms s show ?thesis
    by (simp add: step_def wait_pass_def game_over_events_cases start_main_def)
qed

theorem restart_is_fresh_witness:
  "step seven_wide press_return 2 lost_300 =
     Some \<lparr>phase = Playing demo_start,
           window = window lost_300 @ [Init, Set_caption ''Tetris - Pygame'',
                                        Set_mode (WINDOW_WIDTH, WINDOW_HEIGHT)],
           depth = 3\<rparr>"
  using restart_is_fresh [of lost_300 300 press_return seven_wide 2]
  by (simp add: press_return_def exits_def init_demo_start lost_300_def enter_game_over_def)

end
