(* ===== verification/Quiet_Game.thy ===== *)
theory Quiet_Game
  imports Session
begin

text \<open>
  Progress of the game of \<^verbatim>\<open>src/tetris.py\<close> when the player does nothing: the
  loop of \<^verbatim>\<open>main\<close> is left after a bounded number of passes, from every session
  that a game can reach.

  A pass is \<open>quiet\<close> when it brings no event and no held key and at least half
  a second has gone by, so that the fall timer expires in every pass. A session
  is \<open>steady\<close> when its piece is in a valid position or still in the row where
  it was created; every pass of the loop keeps a session steady
  (\<open>reachable_steady\<close>). In quiet passes the piece falls straight down and is
  locked, and every later piece is locked in the columns 4 to 7 under the
  place where pieces are created. The \<open>imbalance\<close> of a board counts its cells
  outside these columns minus its cells inside them: a completed row has six
  cells outside and four inside, so clearing it lowers the imbalance by two,
  and locking a piece in the four columns lowers it by four; a board that is
  not lost has at most 76 cells in the four columns. \<open>passes_left\<close> is the
  variant of the loop built from this: six for every unit of imbalance above
  its floor \<open>-76\<close>, 48 while the piece is not in the column where pieces are
  created, plus the rows the piece can still fall. Every pass without input in
  which the fall timer expires (\<open>fires\<close>) decreases it in a running steady
  session (\<open>fired_pass\<close>), and every quiet pass is such a pass (\<open>quiet_pass\<close>),
  which bounds the length of the game: 477 passes for a new game.

  The real loop runs at 60 passes a second, so that the timer does not expire
  in every pass. A pass is \<open>unattended\<close> when it brings no event and no held
  key and 16 ms or more have gone by, as \<^verbatim>\<open>clock.tick(60)\<close> makes it. \<open>waits\<close> counts
  the intervals of 16 ms that the fall timer is short of the fall speed, and
  \<open>frames_left\<close>, 33 times \<open>passes_left\<close> plus \<open>waits\<close>, is the variant of these
  passes (\<open>unattended_pass\<close>). \<open>variant_run\<close> is the argument that a loop whose
  passes decrease a variant ends, for any condition on the passes and any
  variant; the two kinds of passes are its instances.
\<close>

section \<open>Quiet passes, steady sessions and the variant\<close>

definition quiet :: "input \<Rightarrow> bool" where
  "quiet i \<longleftrightarrow> events i = [] \<and> pressed i = [] \<and> 500 \<le> tick_ms i"

definition unattended :: "input \<Rightarrow> bool" where
  "unattended i \<longleftrightarrow> events i = [] \<and> pressed i = [] \<and> 16 \<le> tick_ms i"

definition fires :: "input \<Rightarrow> session \<Rightarrow> bool" where
  "fires i s \<longleftrightarrow>
     events i = [] \<and> pressed i = [] \<and> fall_speed s \<le> fall_time s + real (tick_ms i) / 1000"

definition in_shaft :: "coord \<Rightarrow> bool" where
  "in_shaft pos \<longleftrightarrow> 4 \<le> fst pos \<and> fst pos \<le> 7"

definition side_weight :: "coord \<Rightarrow> int" where
  "side_weight pos = (if in_shaft pos then - 1 else 1)"

definition imbalance :: "locked \<Rightarrow> int" where
  "imbalance locked = (\<Sum>pos \<in> fst ` set locked. side_weight pos)"

definition steady :: "session \<Rightarrow> bool" where
  "steady s \<longleftrightarrow>
     session_ok s \<and> 0 \<le> piece_y (current_piece s) \<and>
     (piece_y (current_piece s) = 0 \<or>
      valid_space (current_piece s) (create_grid (locked_positions s)))"

definition passes_left :: "session \<Rightarrow> nat" where
  "passes_left s =
     (if run s
      then 6 * nat (imbalance (locked_positions s) + 76) +
           (if piece_x (current_piece s) = 5 then 0 else 48) +
           nat (21 - piece_y (current_piece s))
      else 0)"

definition waits :: "session \<Rightarrow> nat" where
  "waits s = nat \<lceil>(fall_speed s - fall_time s) * 1000 / 16\<rceil>"

definition frames_left :: "session \<Rightarrow> nat" where
  "frames_left s = 33 * passes_left s + waits s"

section \<open>The cells of a piece\<close>

lemma pivot_in_state: "i < 7 \<Longrightarrow> r < 4 \<Longrightarrow> (0, 0) \<in> set (SHAPES ! i ! r)"
  by (auto dest!: nat_less_7_cases nat_less_4_cases simp: SHAPES_def shape_defs)

lemma pivot_cell:
  assumes "piece_ok p"
  shows "(piece_x p, piece_y p) \<in> set (get_cells p)"
proof -
  from assms obtain i where "i < 7" "shape p = SHAPES ! i" by (rule piece_ok_shape)
  with pivot_in_state [of i "nat (rotation p mod 4)"]
  have "(0, 0) \<in> set (shape p ! nat (rotation p mod 4))" by simp
  then show ?thesis by (force simp: get_cells_eq)
qed

lemma valid_piece_height:
  assumes "piece_ok p" and "valid_space p g"
  shows "piece_y p < 20"
  using valid_space_in_walls [OF assms(2) pivot_cell [OF assms(1)]]
  by (simp add: in_walls_def game_consts)

lemma shaft_cells:
  assumes "piece_ok p" and "piece_x p = 5"
  shows "list_all in_shaft (get_cells p)"
proof -
  have "in_shaft (a, b)" if "(a, b) \<in> set (get_cells p)" for a b
    using get_cells_near_pivot [OF assms(1) that] assms(2) by (simp add: in_shaft_def)
  then show ?thesis by (auto simp: list_all_iff)
qed

lemma valid_piece_disjoint:
  assumes "board_ok locked" and "\<not> check_lost locked" and "valid_space p (create_grid locked)"
  shows "set (get_cells p) \<inter> fst ` set locked = {}"
proof -
  have "pos \<notin> fst ` set locked" if "pos \<in> set (get_cells p)" for pos
  proof
    assume key: "pos \<in> fst ` set locked"
    from assms(1,3) that have "snd pos < 0 \<or> pos \<notin> fst ` set locked"
      by (simp add: valid_space_create_grid list_all_iff)
    with key check_lost_keys [OF assms(2) key] show False by simp
  qed
  then show ?thesis by auto
qed



section \<open>The imbalance of a board\<close>

lemma imbalance_cong: "fst ` set a = fst ` set b \<Longrightarrow> imbalance a = imbalance b"
  by (simp add: imbalance_def)

lemma side_weight_moved [simp]: "side_weight (moved rows pos) = side_weight pos"
  by (simp add: side_weight_def in_shaft_def)

lemma row_weight: "(\<Sum>x \<in> {0..<GRID_WIDTH}. side_weight (x, y)) = 2"
proof -
  have "(\<Sum>x \<in> {0..<10::int}. if 4 \<le> x \<and> x \<le> 7 then - 1 else 1) = (2::int)"
    by code_simp
  then show ?thesis by (simp add: side_weight_def in_shaft_def game_consts)
qed

lemma full_rows_weight:
  assumes "board_ok locked"
  shows "(\<Sum>pos \<in> {pos \<in> fst ` set locked. snd pos \<in> set (full_rows locked)}. side_weight pos) =
           2 * int (length (full_rows locked))"
proof -
  have "(\<Sum>pos \<in> {0..<GRID_WIDTH} \<times> set (full_rows locked). side_weight pos) =
      (\<Sum>y \<in> set (full_rows locked). \<Sum>x \<in> {0..<GRID_WIDTH}. side_weight (x, y))"
    by (subst sum.swap) (simp add: sum.cartesian_product)
  also have "\<dots> = 2 * int (card (set (full_rows locked)))"
    by (simp add: row_weight)
  finally show ?thesis
    by (simp add: keys_full_rows [OF assms] distinct_card)
qed

lemma imbalance_compact:
  assumes "board_ok locked"
  shows "imbalance (compact (full_rows locked) locked) =
           imbalance locked - 2 * int (length (full_rows locked))"
proof -
  let ?rows = "full_rows locked" and ?keys = "fst ` set locked"
  let ?gone = "{pos \<in> ?keys. snd pos \<in> set ?rows}"
  have "imbalance (compact ?rows locked) = (\<Sum>pos \<in> ?keys - ?gone. side_weight pos)"
  proof -
    have "{pos \<in> ?keys. snd pos \<notin> set ?rows} = ?keys - ?gone" by auto
    moreover have "inj_on (moved ?rows) (?keys - ?gone)"
      using inj_on_moved_kept [of ?rows locked] by (simp add: calculation [symmetric])
    ultimately show ?thesis
      by (simp add: imbalance_def keys_compact sum.reindex)
  qed
  also have "\<dots> = imbalance locked - (\<Sum>pos \<in> ?gone. side_weight pos)"
    unfolding imbalance_def by (rule sum_diff) auto
  finally show ?thesis by (simp add: full_rows_weight [OF assms])
qed

lemma imbalance_lock_piece:
  "imbalance (lock_piece p locked) =
     imbalance locked + (\<Sum>pos \<in> set (get_cells p) - fst ` set locked. side_weight pos)"
proof -
  let ?new = "set (get_cells p) - fst ` set locked"
  have "imbalance (lock_piece p locked) = sum side_weight (?new \<union> fst ` set locked)"
    unfolding imbalance_def keys_lock_piece
    by (rule arg_cong [where f = "sum side_weight"]) auto
  also have "\<dots> = sum side_weight ?new + sum side_weight (fst ` set locked)"
    by (rule sum.union_disjoint) auto
  finally show ?thesis by (simp add: imbalance_def)
qed

text \<open>A board that is not lost has its cells in the rows 1 to 19, so a set of
  columns holds at most 19 cells each; this bounds the imbalance on both
  sides.\<close>

lemma column_capacity:
  assumes "board_ok locked" and "\<not> check_lost locked" and "finite X"
  shows "card {pos \<in> fst ` set locked. fst pos \<in> X} \<le> card X * 19"
proof -
  have "{pos \<in> fst ` set locked. fst pos \<in> X} \<subseteq> X \<times> {1..19}"
  proof
    fix pos assume "pos \<in> {pos \<in> fst ` set locked. fst pos \<in> X}"
    then have pos: "pos \<in> fst ` set locked" "fst pos \<in> X" by simp_all
    with board_ok_walls [OF assms(1)] check_lost_keys [OF assms(2) pos(1)]
    show "pos \<in> X \<times> {1..19}"
      by (cases pos) (auto simp: list_all_iff in_walls_def game_consts)
  qed
  with assms(3) have "card {pos \<in> fst ` set locked. fst pos \<in> X} \<le> card (X \<times> {1..19::int})"
    by (intro card_mono) simp_all
  then show ?thesis by (simp add: card_cartesian_product)
qed

lemma imbalance_count:
  "imbalance locked =
     int (card {pos \<in> fst ` set locked. \<not> in_shaft pos}) -
     int (card {pos \<in> fst ` set locked. in_shaft pos})"
  by (simp add: imbalance_def side_weight_def sum.If_cases Int_def)

lemma imbalance_bounds:
  assumes "board_ok locked" and "\<not> check_lost locked"
  shows "- 76 \<le> imbalance locked" and "imbalance locked \<le> 114"
proof -
  let ?keys = "fst ` set locked"
  have "{pos \<in> ?keys. in_shaft pos} = {pos \<in> ?keys. fst pos \<in> {4..7}}"
    by (auto simp: in_shaft_def)
  with column_capacity [OF assms, of "{4..7}"]
  have inside: "card {pos \<in> ?keys. in_shaft pos} \<le> 76" by simp
  from board_ok_walls [OF assms(1)]
  have "{pos \<in> ?keys. \<not> in_shaft pos} = {pos \<in> ?keys. fst pos \<in> {0..3} \<union> {8..9}}"
    by (auto simp: in_shaft_def list_all_iff in_walls_def game_consts)
  with column_capacity [OF assms, of "{0..3} \<union> {8..9}"]
  have outside: "card {pos \<in> ?keys. \<not> in_shaft pos} \<le> 114" by (simp add: card_Un_disjoint)
  from inside show "- 76 \<le> imbalance locked" by (simp add: imbalance_count)
  from outside show "imbalance locked \<le> 114" by (simp add: imbalance_count)
qed

text \<open>The cells a piece adds to a board: at most four, each of weight one at
  most, and all of them in the four columns when the piece is in the column
  where pieces are created.\<close>

lemma piece_weight:
  assumes "piece_ok p"
  shows "(\<Sum>pos \<in> set (get_cells p) - K. side_weight pos) \<le> 4"
    and "piece_x p = 5 \<Longrightarrow>
         (\<Sum>pos \<in> set (get_cells p) - K. side_weight pos) = - int (card (set (get_cells p) - K))"
proof -
  let ?new = "set (get_cells p) - K"
  from assms have "card (set (get_cells p)) = 4" by (simp add: distinct_card)
  moreover have "card ?new \<le> card (set (get_cells p))" by (intro card_mono) auto
  moreover have "sum side_weight ?new \<le> of_nat (card ?new) * 1"
    by (rule sum_bounded_above) (simp add: side_weight_def)
  ultimately show "sum side_weight ?new \<le> 4" by simp
next
  assume "piece_x p = 5"
  from shaft_cells [OF assms this] have "side_weight pos = - 1" if "pos \<in> set (get_cells p) - K" for pos
    using that by (simp add: side_weight_def list_all_iff)
  then show "(\<Sum>pos \<in> set (get_cells p) - K. side_weight pos) = - int (card (set (get_cells p) - K))"
    by simp
qed

lemma imbalance_after_lock:
  assumes "board_ok locked" and "placed p"
    and "map_of locked' = map_of (compact (full_rows (lock_piece p locked)) (lock_piece p locked))"
  shows "imbalance locked' =
           imbalance locked + (\<Sum>pos \<in> set (get_cells p) - fst ` set locked. side_weight pos) -
           2 * int (length (full_rows (lock_piece p locked)))"
  using imbalance_cong [OF keys_cong [OF assms(3)]]
    imbalance_compact [OF board_ok_locked_piece [OF assms(1,2)]]
  by (simp add: imbalance_lock_piece)


section \<open>A pass in which the fall timer expires\<close>

lemma quiet_fires: "quiet i \<Longrightarrow> session_ok s \<Longrightarrow> fires i s"
  by (simp add: quiet_def fires_def session_ok_def session_inv_def)

lemma fired_pass_unfold:
  assumes "fires i s"
  shows "frame i s =
           Some (resolve_lock (draw i) (compose_grid
             (if valid_space (lowered (current_piece s) 1) (create_grid (locked_positions s))
              then (tick (real (tick_ms i) / 1000) s)
                     \<lparr>fall_time := 0, grid := create_grid (locked_positions s),
                      current_piece := lowered (current_piece s) 1\<rparr>
              else (tick (real (tick_ms i) / 1000) s)
                     \<lparr>fall_time := 0, grid := create_grid (locked_positions s),
                      change_piece := True\<rparr>)))"
  using assms
  by (simp add: frame_no_input fires_def gravity_unfold tick_def lowered_1 Let_def)

lemma steady_positive:
  assumes "steady s" and "run s"
  shows "0 < passes_left s" and "piece_y (current_piece s) < 20"
proof -
  from assms(1) have "piece_ok (current_piece s)"
    by (simp add: steady_def session_ok_def session_inv_def placed_def)
  with assms(1) valid_piece_height [of "current_piece s"]
  show "piece_y (current_piece s) < 20" by (auto simp: steady_def)
  with assms(2) show "0 < passes_left s" by (simp add: passes_left_def)
qed

lemma steady_bound: "steady s \<Longrightarrow> passes_left s \<le> 1209"
  using imbalance_bounds(2) [of "locked_positions s"]
  by (auto simp: passes_left_def steady_def session_ok_def session_inv_def)

text \<open>When the piece can fall it falls one row, and nothing else changes but
  the timers and the grid that is drawn.\<close>

lemma fired_fall_state:
  assumes "session_ok s" and "fires i s"
    and "valid_space (lowered (current_piece s) 1) (create_grid (locked_positions s))"
  shows "frame i s =
           Some (Inr (s\<lparr>fall_time := 0,
                        move_cooldown := move_cooldown s + real (tick_ms i) / 1000,
                        current_piece := lowered (current_piece s) 1,
                        grid := paint_piece (lowered (current_piece s) 1)
                                  (create_grid (locked_positions s))\<rparr>))"
  using assms(1,3)
  by (simp add: fired_pass_unfold [OF assms(2)] resolve_lock_idle tick_def compose_grid_def
      session_ok_def)

lemma fired_fall:
  assumes "steady s" and "run s" and "fires i s"
    and "valid_space (lowered (current_piece s) 1) (create_grid (locked_positions s))"
  shows "\<exists>s'. frame i s = Some (Inr s') \<and> steady s' \<and> passes_left s' < passes_left s"
proof -
  from assms(1) have ok: "session_ok s" by (simp add: steady_def)
  from assms(3) have ev: "\<not> list_ex exits (events i)" by (simp add: fires_def)
  from frame_step [OF ok assms(2) ev] obtain s' where s': "frame i s = Some (Inr s')"
    "session_ok s'"
    by blast
  from ok have "piece_ok (lowered (current_piece s) 1)"
    by (simp add: session_ok_def session_inv_def placed_def lowered_def)
  from valid_piece_height [OF this assms(4)] have "piece_y (current_piece s) < 19"
    by (simp add: lowered_def)
  with s' assms(1,2,4) have "steady s'" "passes_left s' < passes_left s"
    by (auto simp: fired_fall_state [OF ok assms(3,4)] steady_def passes_left_def lowered_def)
  with s'(1) show ?thesis by blast
qed

text \<open>A pass in which the timer expires and the piece cannot fall locks it: the board
  afterwards is the board with the cells of the piece added and the completed
  rows cleared, and the next piece is in play.\<close>

lemma fired_lock_state:
  assumes "session_ok s" and "run s" and "fires i s"
    and "\<not> valid_space (lowered (current_piece s) 1) (create_grid (locked_positions s))"
  obtains s' where "frame i s = Some (Inr s')" and "session_ok s'"
    and "current_piece s' = next_piece s" and "run s' = (\<not> check_lost (locked_positions s'))"
    and "map_of (locked_positions s') =
           map_of (compact (full_rows (lock_piece (current_piece s) (locked_positions s)))
             (lock_piece (current_piece s) (locked_positions s)))"
proof -
  let ?p = "current_piece s" and ?l = "locked_positions s"
  let ?l1 = "lock_piece ?p ?l"
  let ?t = "compose_grid ((tick (real (tick_ms i) / 1000) s)
      \<lparr>fall_time := 0, grid := create_grid ?l, change_piece := True\<rparr>)"
  from assms(1,2) have inv: "board_ok ?l" "placed ?p" "\<not> check_lost ?l"
    by (simp_all add: session_ok_def session_inv_def)
  from assms(3) have "\<not> list_ex exits (events i)" by (simp add: fires_def)
  from frame_step [OF assms(1,2) this] obtain s' where s': "frame i s = Some (Inr s')"
    "session_ok s'"
    by blast
  from inv resolve_lock_result [of ?t "draw i"] obtain locked' np where r:
    "resolve_lock (draw i) ?t =
       Inr (?t\<lparr>locked_positions := locked',
              score := score ?t + score_for (int (length (full_rows ?l1))),
              current_piece := next_piece ?t, next_piece := np, change_piece := False,
              fall_speed := speed_up (fall_speed ?t), run := run ?t \<and> \<not> check_lost locked'\<rparr>)"
    "map_of locked' = map_of (compact (full_rows ?l1) ?l1)"
    by (auto simp: tick_def)
  from s'(1) assms(4) r(1) have "locked_positions s' = locked'"
    "current_piece s' = next_piece s" "run s' = (\<not> check_lost locked')"
    using assms(2) by (auto simp: fired_pass_unfold [OF assms(3)] compose_grid_def tick_def)
  with s' r(2) show thesis by (intro that [of s']) simp_all
qed

text \<open>What locking a piece does to the variant, when the game goes on: the
  piece was in a valid position, or it was still in the top row and a row was
  cleared.\<close>

lemma lock_progress:
  assumes "piece_ok p" and "board_ok locked" and "\<not> check_lost locked"
    and "piece_y p = 0 \<or> valid_space p (create_grid locked)"
    and "valid_space p (create_grid locked) \<or> full_rows (lock_piece p locked) \<noteq> []"
  shows "6 * ((\<Sum>pos \<in> set (get_cells p) - fst ` set locked. side_weight pos) -
              2 * int (length (full_rows (lock_piece p locked)))) + 21
         < (if piece_x p = 5 then 0 else 48) + int (nat (21 - piece_y p))"
proof (cases "valid_space p (create_grid locked)")
  case True
  from valid_piece_disjoint [OF assms(2,3) this] assms(1)
  have "card (set (get_cells p) - fst ` set locked) = 4"
    by (simp add: Diff_triv distinct_card)
  with piece_weight [OF assms(1), of "fst ` set locked"] show ?thesis
    by (auto split: if_splits)
next
  case False
  with assms(4,5) have "piece_y p = 0" "1 \<le> int (length (full_rows (lock_piece p locked)))"
    by (simp_all add: Suc_leI)
  with piece_weight [OF assms(1), of "fst ` set locked"] show ?thesis
    by (auto split: if_splits)
qed

lemma fired_lock:
  assumes "steady s" and "run s" and "fires i s"
    and "\<not> valid_space (lowered (current_piece s) 1) (create_grid (locked_positions s))"
  shows "\<exists>s'. frame i s = Some (Inr s') \<and> steady s' \<and> passes_left s' < passes_left s"
proof -
  let ?p = "current_piece s" and ?l = "locked_positions s"
  from assms(1,2) have at: "piece_y ?p = 0 \<or> valid_space ?p (create_grid ?l)"
    and inv: "board_ok ?l" "placed ?p" "piece_ok ?p" "\<not> check_lost ?l" "spawned (next_piece s)"
    by (simp_all add: steady_def session_ok_def session_inv_def placed_def)
  from assms(1) have "session_ok s" by (simp add: steady_def)
  from this assms(2-) obtain s' where s': "frame i s = Some (Inr s')" "session_ok s'"
    "current_piece s' = next_piece s" "run s' = (\<not> check_lost (locked_positions s'))"
    "map_of (locked_positions s') = map_of (compact (full_rows (lock_piece ?p ?l)) (lock_piece ?p ?l))"
    by (rule fired_lock_state)
  from inv(5) s'(3) have np: "piece_x (current_piece s') = 5" "piece_y (current_piece s') = 0"
    by (simp_all add: spawned_def game_consts)
  with s'(2) have steady: "steady s'" by (simp add: steady_def)
  have "passes_left s' < passes_left s"
  proof (cases "run s'")
    case False
    with steady_positive(1) [OF assms(1,2)] show ?thesis by (simp add: passes_left_def)
  next
    case True
    with s'(4) have lost: "\<not> check_lost (locked_positions s')" by simp
    have "valid_space ?p (create_grid ?l) \<or> full_rows (lock_piece ?p ?l) \<noteq> []"
    proof (rule ccontr)
      assume "\<not> ?thesis"
      with at keys_cong [OF s'(5)] pivot_cell [OF inv(3)]
      have "(piece_x ?p, 0) \<in> fst ` set (locked_positions s')" by (auto simp: keys_lock_piece)
      from check_lost_keys [OF lost this] show False by simp
    qed
    note lock_progress [OF inv(3,1,4) at this]
    moreover from s'(2) have "board_ok (locked_positions s')"
      by (simp add: session_ok_def session_inv_def)
    note imbalance_bounds(1) [OF this lost] imbalance_bounds(1) [OF inv(1,4)]
    ultimately show ?thesis
      using True assms(2) np imbalance_after_lock [OF inv(1,2) s'(5)]
      by (simp add: passes_left_def split: if_splits)
  qed
  with s'(1) steady show ?thesis by blast
qed

lemma fired_pass:
  assumes "steady s" and "run s" and "fires i s"
  shows "\<exists>s'. frame i s = Some (Inr s') \<and> steady s' \<and> passes_left s' < passes_left s"
  using assms fired_fall fired_lock by blast


section \<open>Quiet passes\<close>

lemma quiet_pass:
  assumes "steady s" and "run s" and "quiet i"
  shows "\<exists>s'. frame i s = Some (Inr s') \<and> steady s' \<and> passes_left s' < passes_left s"
  using assms(1,2) quiet_fires [OF assms(3)] by (intro fired_pass) (simp_all add: steady_def)

text \<open>The loop ends when every pass decreases a variant: \<open>Q\<close> is the condition on
  the passes and \<open>m\<close> the variant; the quiet passes with \<open>passes_left\<close> and the
  unattended passes with \<open>frames_left\<close> are its two instances.\<close>

lemma variant_run:
  assumes progress: "\<And>s i. steady s \<Longrightarrow> run s \<Longrightarrow> Q i \<Longrightarrow>
      \<exists>s'. frame i s = Some (Inr s') \<and> steady s' \<and> m s' < (m s :: nat)"
    and positive: "\<And>s. steady s \<Longrightarrow> run s \<Longrightarrow> 0 < m s"
  shows "steady s \<Longrightarrow> list_all Q inputs \<Longrightarrow> m s \<le> length inputs \<Longrightarrow>
         \<exists>s'. run_frames inputs s = Some (Inr s') \<and> steady s' \<and> \<not> run s'"
proof (induction inputs arbitrary: s)
  case Nil
  with positive [of s] show ?case by auto
next
  case (Cons i inputs)
  show ?case
  proof (cases "run s")
    case False
    with Cons.prems(1) show ?thesis by simp
  next
    case True
    from Cons.prems(2) have "Q i" by simp
    from progress [OF Cons.prems(1) True this] obtain s' where
      s': "frame i s = Some (Inr s')" "steady s'" "m s' < m s"
      by blast
    with Cons.prems(2,3) Cons.IH [of s'] True show ?thesis by simp
  qed
qed

lemma quiet_run:
  "steady s \<Longrightarrow> list_all quiet inputs \<Longrightarrow> passes_left s \<le> length inputs \<Longrightarrow>
   \<exists>s'. run_frames inputs s = Some (Inr s') \<and> steady s' \<and> \<not> run s'"
  by (rule variant_run [of quiet passes_left]) (simp_all add: quiet_pass steady_positive)


section \<open>Unattended passes\<close>

text \<open>At 60 passes a second the fall timer does not expire in every pass. A pass
  in which it does not changes the timers and nothing else, and brings the
  timer at least 16 ms nearer to the fall speed, which is half a second at
  most: after 32 such passes at the latest the timer expires.\<close>

lemma waits_bound: "session_ok s \<Longrightarrow> waits s \<le> 32"
proof -
  assume "session_ok s"
  then have "(fall_speed s - fall_time s) * 1000 / 16 \<le> 32"
    by (simp add: session_ok_def session_inv_def)
  then have "\<lceil>(fall_speed s - fall_time s) * 1000 / 16\<rceil> \<le> 32" by (simp add: ceiling_le_iff)
  then show ?thesis by (simp add: waits_def)
qed

lemma waiting_pass_state:
  assumes "session_ok s" and "events i = []" and "pressed i = []" and "\<not> fires i s"
  shows "frame i s =
           Some (Inr (s\<lparr>fall_time := fall_time s + real (tick_ms i) / 1000,
                        move_cooldown := move_cooldown s + real (tick_ms i) / 1000,
                        grid := paint_piece (current_piece s) (create_grid (locked_positions s))\<rparr>))"
  using assms
  by (simp add: frame_no_input fires_def gravity_unfold tick_def resolve_lock_idle
      compose_grid_def session_ok_def)

lemma waiting_pass:
  assumes "steady s" and "unattended i" and "\<not> fires i s"
  shows "\<exists>s'. frame i s = Some (Inr s') \<and> steady s' \<and> passes_left s' = passes_left s \<and>
           waits s' < waits s"
proof -
  let ?dt = "real (tick_ms i) / 1000"
  let ?s' = "s\<lparr>fall_time := fall_time s + ?dt, move_cooldown := move_cooldown s + ?dt,
      grid := paint_piece (current_piece s) (create_grid (locked_positions s))\<rparr>"
  from assms(1) have ok: "session_ok s" by (simp add: steady_def)
  from assms(2) have i: "events i = []" "pressed i = []" "16 / 1000 \<le> ?dt"
    by (simp_all add: unattended_def)
  from waiting_pass_state [OF ok i(1,2) assms(3)] have f: "frame i s = Some (Inr ?s')" .
  from assms(1) ok have "steady ?s'"
    by (simp add: steady_def session_ok_def session_inv_def)
  moreover have "waits ?s' < waits s"
  proof -
    define a where "a = (fall_speed s - fall_time s) * 1000 / 16"
    define b where "b = (fall_speed s - (fall_time s + ?dt)) * 1000 / 16"
    from assms(3) i(1,2) have "0 < b" by (simp add: fires_def b_def)
    moreover from i(3) have "b \<le> a - 1" by (simp add: a_def b_def field_simps)
    ultimately have "nat \<lceil>b\<rceil> < nat \<lceil>a\<rceil>" by (rule ceiling_decrease)
    then show ?thesis by (simp add: waits_def a_def b_def)
  qed
  ultimately show ?thesis using f by (simp add: passes_left_def)
qed

lemma unattended_pass:
  assumes "steady s" and "run s" and "unattended i"
  shows "\<exists>s'. frame i s = Some (Inr s') \<and> steady s' \<and> frames_left s' < frames_left s"
proof (cases "fires i s")
  case True
  from fired_pass [OF assms(1,2) True] obtain s' where
    s': "frame i s = Some (Inr s')" "steady s'" "passes_left s' < passes_left s"
    by blast
  from s'(2) have "waits s' \<le> 32" by (simp add: waits_bound steady_def)
  with s'(3) have "frames_left s' < frames_left s" by (simp add: frames_left_def)
  with s'(1,2) show ?thesis by blast
next
  case False
  from waiting_pass [OF assms(1,3) False] show ?thesis by (auto simp: frames_left_def)
qed

lemma frames_left_positive: "steady s \<Longrightarrow> run s \<Longrightarrow> 0 < frames_left s"
  using steady_positive(1) [of s] by (simp add: frames_left_def)

lemma frames_left_bound: "steady s \<Longrightarrow> frames_left s \<le> 39929"
  using steady_bound [of s] waits_bound [of s] by (simp add: frames_left_def steady_def)


lemma unattended_run:
  "steady s \<Longrightarrow> list_all unattended inputs \<Longrightarrow> frames_left s \<le> length inputs \<Longrightarrow>
   \<exists>s'. run_frames inputs s = Some (Inr s') \<and> steady s' \<and> \<not> run s'"
  by (rule variant_run [of unattended frames_left])
    (simp_all add: unattended_pass frames_left_positive)


section \<open>Every reachable session is steady\<close>

lemma steady_init_session:
  assumes "init_session r1 r2 = Inr s"
  shows "steady s" and "passes_left s = 477"
proof -
  from init_session_ok [of r1 r2] assms have ok: "session_ok s" by simp
  from assms obtain p where "get_new_piece r1 = Inr p" "current_piece s = p"
    "locked_positions s = []" "run s"
    by (auto simp: init_session_def bind_result_eq_Inr)
  moreover from this(1) get_new_piece_spawned [of r1] have "spawned p" by simp
  ultimately show "steady s" "passes_left s = 477"
    using ok by (simp_all add: steady_def passes_left_def imbalance_def spawned_def game_consts)
qed

text \<open>A pass that does not lock the piece leaves it where it was or in a valid
  position: gravity and every key test the new position before they keep it.\<close>

lemma arrow_keys_height:
  "piece_y (current_piece s) \<le> piece_y (current_piece (fst (arrow_keys keys s)))"
  by (simp add: arrow_keys_def key_left_unfold key_right_unfold key_down_unfold key_up_unfold
      Let_def kicked_def turned_def split: option.splits)

lemma moves_piece:
  assumes "session_inv s" and "\<not> change_piece s" and "moves i s = Some (Inr t)"
    and "\<not> change_piece t"
  shows "locked_positions t = locked_positions s"
    and "current_piece t = current_piece s \<or>
         valid_space (current_piece t) (create_grid (locked_positions s))"
    and "piece_y (current_piece s) \<le> piece_y (current_piece t)"
proof -
  let ?s1 = "gravity (tick (real (tick_ms i) / 1000) s)"
  from assms(1) have ok: "piece_ok (current_piece ?s1)"
    by (intro gravity_piece_ok) (simp add: tick_def session_inv_def placed_def)
  from handle_keys_cases [OF ok, of "pressed i"] obtain q m k where
    a: "arrow_keys (pressed i) ?s1 = (?s1\<lparr>current_piece := q\<rparr>, m)" and
    q: "settled (locked_positions ?s1) (current_piece ?s1) q" and
    c: "if held (pressed i) ?s1 K_SPACE
        then handle_keys (pressed i) ?s1 =
               Some (?s1\<lparr>current_piece := (lowered q k)\<lparr>piece_y := piece_y (lowered q k) - 1\<rparr>,
                       change_piece := True, move_cooldown := 0\<rparr>) \<and>
             \<not> valid_space (lowered q k) (create_grid (locked_positions ?s1)) \<and>
             (\<forall>j<k. valid_space (lowered q j) (create_grid (locked_positions ?s1)))
        else handle_keys (pressed i) ?s1 =
               Some (?s1\<lparr>current_piece := q, move_cooldown := if m then 0 else move_cooldown ?s1\<rparr>)"
    by blast
  from assms(3,4) c have t: "current_piece t = q" "locked_positions t = locked_positions ?s1"
    "\<not> change_piece ?s1"
    by (auto simp: moves_def handle_events_exits compose_grid_def split: if_splits)
  from t(2) show "locked_positions t = locked_positions s" by (simp add: tick_def)
  from assms(2) t(3) have "current_piece ?s1 = current_piece s \<or>
      valid_space (current_piece ?s1) (create_grid (locked_positions s))"
    by (auto simp: gravity_unfold tick_def Let_def split: if_splits)
  with q t(1) show "current_piece t = current_piece s \<or>
      valid_space (current_piece t) (create_grid (locked_positions s))"
    by (auto simp: settled_def tick_def)
  have "piece_y (current_piece s) \<le> piece_y (current_piece ?s1)"
    by (simp add: gravity_unfold tick_def Let_def)
  with arrow_keys_height [of ?s1 "pressed i"] a t(1)
  show "piece_y (current_piece s) \<le> piece_y (current_piece t)" by simp
qed

lemma frame_steady:
  assumes "steady s" and "run s" and "frame i s = Some (Inr s')"
  shows "steady s'"
proof -
  from assms(1,2) have ok: "session_ok s" and inv: "session_inv s" "\<not> change_piece s"
    and lost: "\<not> check_lost (locked_positions s)"
    by (simp_all add: steady_def session_ok_def)
  from assms(3) frame_exit [of i s] have ev: "\<not> list_ex exits (events i)" by auto
  from frame_step [OF ok assms(2) ev] assms(3) have ok': "session_ok s'" by auto
  from moves_step [OF inv(1) ev] obtain t where t: "moves i s = Some (Inr t)" "same_game s t"
    "grid t = paint_piece (current_piece t) (create_grid (locked_positions t))"
    by blast
  with assms(3) have r: "resolve_lock (draw i) t = Inr s'" by (simp add: frame_def)
  show ?thesis
  proof (cases "change_piece t")
    case False
    with r have "s' = t" by (simp add: resolve_lock_idle)
    with moves_piece [OF inv t(1) False] assms(1) ok' show ?thesis
      by (auto simp: steady_def)
  next
    case True
    from t(2) lost have "session_inv t" "\<not> check_lost (locked_positions t)"
      by (simp_all add: same_game_def)
    then have "board_ok (locked_positions t)" "placed (current_piece t)"
      "\<not> check_lost (locked_positions t)" "spawned (next_piece t)"
      by (simp_all add: session_inv_def)
    with resolve_lock_result [OF this(1,2,3) True t(3), of "draw i"] r
    have "piece_y (current_piece s') = 0" by (auto simp: spawned_def)
    with ok' show ?thesis by (simp add: steady_def)
  qed
qed

lemma reachable_steady: "reachable s \<Longrightarrow> steady s"
  by (induction rule: reachable.induct) (auto intro: steady_init_session(1) frame_steady)

lemma reachable_bound: "reachable s \<Longrightarrow> passes_left s \<le> 1209"
  by (intro steady_bound reachable_steady)


section \<open>The game ends\<close>

lemma steady_demo_start: "steady demo_start" "passes_left demo_start = 477"
  using steady_init_session [OF init_demo_start] .

lemma reachable_demo_start: "reachable demo_start"
  using init_demo_start by (rule reachable.start)

lemma quiet_idle [simp]: "quiet idle"
  by (simp add: quiet_def idle_def)

text \<open>C23: A quiet pass makes progress: in a running steady session it returns,
  leaves a steady session, and decreases the variant \<open>passes_left\<close>, because the
  piece falls one row or is locked, and a piece that is locked ends the game,
  or completes a row, or takes up four more cells of the four columns under
  the place where pieces are created.\<close>

theorem quiet_pass_progress:
  assumes "steady s" and "run s" and "quiet i"
  shows "\<exists>s'. frame i s = Some (Inr s') \<and> steady s' \<and> passes_left s' < passes_left s"
  using assms by (rule quiet_pass)

theorem quiet_pass_progress_witness:
  "steady demo_start \<and> run demo_start \<and> quiet idle \<and>
   frame idle demo_start = Some (Inr demo_fallen) \<and> passes_left demo_fallen < 477"
  using quiet_pass_progress [OF steady_demo_start(1) run_demo_start quiet_idle]
  by (simp add: steady_demo_start run_demo_start frame_idle_demo_start)

text \<open>C24: In every session \<^verbatim>\<open>main\<close> can reach, the piece in play is not above the row
  where pieces are created, and it is in that row or in a valid position:
  gravity and the keys test every position before they keep it, so a piece is
  inside a wall, below the floor or on a locked cell only when it was created
  there.\<close>

theorem reachable_piece_in_place:
  assumes "reachable s"
  shows "0 \<le> piece_y (current_piece s) \<and>
         (piece_y (current_piece s) = 0 \<or>
          valid_space (current_piece s) (create_grid (locked_positions s)))"
  using reachable_steady [OF assms] by (simp add: steady_def)

theorem reachable_piece_in_place_witness:
  "reachable demo_fallen \<and> piece_y (current_piece demo_fallen) = 1 \<and>
   valid_space (current_piece demo_fallen) (create_grid (locked_positions demo_fallen))"
proof -
  have "piece_y (current_piece demo_fallen) = 1"
    by (simp add: demo_fallen_def demo_start_def lowered_def spawn_I_def)
  with reachable_piece_in_place [OF reachable_demo_fallen] reachable_demo_fallen
  show ?thesis by simp
qed

text \<open>C6: A game that is left alone ends: from every session that a game can
  reach, whatever the player did before and whatever rows are completed on the
  way, quiet passes lead to a lost board and \<open>run = False\<close> after at most
  \<open>passes_left\<close> passes, which is 477 for a new game; the loop of \<^verbatim>\<open>main\<close> is
  left, and no pass before that raises or hangs.\<close>

theorem quiet_game_ends:
  assumes "reachable s" and "list_all quiet inputs" and "passes_left s \<le> length inputs"
  shows "\<exists>s'. run_frames inputs s = Some (Inr s') \<and> \<not> run s' \<and>
           check_lost (locked_positions s')"
proof -
  from quiet_run [OF reachable_steady [OF assms(1)] assms(2,3)] obtain s' where
    "run_frames inputs s = Some (Inr s')" "steady s'" "\<not> run s'"
    by blast
  then show ?thesis by (auto simp: steady_def session_ok_def)
qed

theorem quiet_game_ends_witness:
  "\<exists>s'. run_frames (replicate 477 idle) demo_start = Some (Inr s') \<and> \<not> run s' \<and>
     check_lost (locked_positions s')"
  using quiet_game_ends [OF reachable_demo_start, of "replicate 477 idle"]
  by (simp add: steady_demo_start list_all_iff)

end
