(* ===== verification/Intents.thy ===== *)
theory Intents
  imports Session
begin

text \<open>
  The interface between the keys and the engine of \<^verbatim>\<open>src/tetris.py\<close>. The key
  blocks of \<^verbatim>\<open>main\<close> are five copies of one pattern, each written out with its
  own mutation and its own way of undoing it. \<open>intent\<close> names what the blocks
  ask of the engine, \<open>target\<close> says declaratively where an intent puts the
  piece (the candidate position when it is valid, the first valid kick of the
  turned piece, the lowest position the piece can fall to), and \<open>submit\<close>
  applies one intent to the session. \<open>engine_keys\<close> is the reference for
  \<open>handle_keys\<close>: the intents of the held keys, submitted in the fixed order of
  the key blocks, behind the cooldown. The lemmas show that each key block is
  \<open>submit\<close> of its intent, and the theorem that \<open>handle_keys\<close> and \<open>engine_keys\<close>
  agree on every session whose piece is in a valid position.
\<close>

section \<open>Intents and their reference semantics\<close>

datatype intent = MoveLeft | MoveRight | SoftDrop | Rotate | HardDrop

definition place :: "locked \<Rightarrow> piece \<Rightarrow> piece option" where
  "place locked q = (if valid_space q (create_grid locked) then Some q else None)"

definition drop_height :: "locked \<Rightarrow> piece \<Rightarrow> nat" where
  "drop_height locked p =
     length (takeWhile (\<lambda>k. valid_space (lowered p (Suc k)) (create_grid locked))
       [0..<nat (GRID_HEIGHT + 1 - piece_y p)])"

fun target :: "intent \<Rightarrow> locked \<Rightarrow> piece \<Rightarrow> piece option" where
  "target MoveLeft locked p = place locked (p\<lparr>piece_x := piece_x p - 1\<rparr>)"
| "target MoveRight locked p = place locked (p\<lparr>piece_x := piece_x p + 1\<rparr>)"
| "target SoftDrop locked p = place locked (p\<lparr>piece_y := piece_y p + 1\<rparr>)"
| "target Rotate locked p =
     map_option (kicked (turned p))
       (find (\<lambda>dx. valid_space (kicked (turned p) dx) (create_grid locked)) kick_offsets)"
| "target HardDrop locked p = Some (lowered p (drop_height locked p))"

definition submit :: "intent \<Rightarrow> session \<times> bool \<Rightarrow> session \<times> bool" where
  "submit a = (\<lambda>(s, has_moved).
     case target a (locked_positions s) (current_piece s) of
       None \<Rightarrow> (s, has_moved)
     | Some q \<Rightarrow>
         (if a = HardDrop then s\<lparr>current_piece := q, change_piece := True\<rparr>
          else s\<lparr>current_piece := q\<rparr>, True))"

fun key_of :: "intent \<Rightarrow> key" where
  "key_of MoveLeft = K_LEFT"
| "key_of MoveRight = K_RIGHT"
| "key_of SoftDrop = K_DOWN"
| "key_of Rotate = K_UP"
| "key_of HardDrop = K_SPACE"

definition intents_of :: "key list \<Rightarrow> intent list" where
  "intents_of keys =
     filter (\<lambda>a. key_of a \<in> set keys) [MoveLeft, MoveRight, SoftDrop, Rotate, HardDrop]"

definition engine_keys :: "key list \<Rightarrow> session \<Rightarrow> session" where
  "engine_keys keys s =
     (if move_cooldown s \<ge> move_delay
      then case fold submit (intents_of keys) (s, False) of
             (s', has_moved) \<Rightarrow> if has_moved then s'\<lparr>move_cooldown := 0\<rparr> else s'
      else s)"

section \<open>Each key block is an intent\<close>

lemma key_left_submit: "key_left sm = submit MoveLeft sm"
  by (cases sm) (simp add: key_left_unfold submit_def place_def Let_def)

lemma key_right_submit: "key_right sm = submit MoveRight sm"
  by (cases sm) (simp add: key_right_unfold submit_def place_def Let_def)

lemma key_down_submit: "key_down sm = submit SoftDrop sm"
  by (cases sm) (simp add: key_down_unfold submit_def place_def Let_def)

lemma key_up_submit: "key_up sm = submit Rotate sm"
  by (cases sm) (simp add: key_up_unfold submit_def split: option.splits)

lemma takeWhile_upt:
  assumes "\<forall>j<m. P j" and "\<not> P m" and "m < n"
  shows "takeWhile P [0..<n] = [0..<m]"
proof -
  from assms(3) have "[0..<n] = [0..<m] @ m # [Suc m..<n]"
    using upt_add_eq_append [of 0 m "n - m"] by (simp add: upt_conv_Cons)
  moreover from assms(1,2) have "takeWhile P ([0..<m] @ m # [Suc m..<n]) = [0..<m]"
    by (subst takeWhile_append2) simp_all
  ultimately show ?thesis by simp
qed

lemma drop_height_eq:
  assumes "piece_ok p" and "\<forall>j<Suc k. valid_space (lowered p j) (create_grid locked)"
    and "\<not> valid_space (lowered p (Suc k)) (create_grid locked)"
  shows "drop_height locked p = k"
proof -
  from assms(1,2) valid_space_height [of "lowered p k" "create_grid locked"]
  have "k < nat (GRID_HEIGHT + 1 - piece_y p)" by (simp add: lowered_def)
  with assms(2,3) takeWhile_upt [of k "\<lambda>k. valid_space (lowered p (Suc k)) (create_grid locked)"]
  show ?thesis by (simp add: drop_height_def)
qed

lemma key_space_submit:
  assumes "piece_ok (current_piece s)"
    and "valid_space (current_piece s) (create_grid (locked_positions s))"
  shows "key_space (s, m) = Some (submit HardDrop (s, m))"
proof -
  from key_space_result [OF assms(1), of m] obtain k where k:
    "key_space (s, m) =
       Some (s\<lparr>current_piece := (lowered (current_piece s) k)
                \<lparr>piece_y := piece_y (lowered (current_piece s) k) - 1\<rparr>,
               change_piece := True\<rparr>, True)"
    "\<not> valid_space (lowered (current_piece s) k) (create_grid (locked_positions s))"
    "\<forall>j<k. valid_space (lowered (current_piece s) j) (create_grid (locked_positions s))"
    by blast
  from k(2) assms(2) obtain k' where k': "k = Suc k'" by (cases k) simp_all
  with k(2,3) assms(1) have "drop_height (locked_positions s) (current_piece s) = k'"
    by (intro drop_height_eq) simp_all
  with k(1) k' show ?thesis by (simp add: submit_def lowered_back)
qed


section \<open>What an intent keeps\<close>

lemma target_valid:
  assumes "piece_ok p" and "valid_space p (create_grid locked)" and "target a locked p = Some q"
  shows "piece_ok q \<and> valid_space q (create_grid locked)"
proof (cases a)
  case HardDrop
  from drop_loop_lowered [OF assms(1), of locked] obtain k where k:
    "\<not> valid_space (lowered p k) (create_grid locked)"
    "\<forall>j<k. valid_space (lowered p j) (create_grid locked)"
    by blast
  from k(1) assms(2) obtain k' where k': "k = Suc k'" by (cases k) simp_all
  with k assms(1) have "drop_height locked p = k'" by (intro drop_height_eq) simp_all
  with k(2) k' HardDrop assms(1,3) show ?thesis by auto
next
  case Rotate
  with assms(1,3) show ?thesis
    by (auto simp: kicked_def turned_def piece_ok_def dest: find_Some_iff [THEN iffD1])
qed (use assms in \<open>auto simp: place_def piece_ok_def split: if_splits\<close>)

lemma submit_keeps:
  assumes "piece_ok (current_piece (fst sm))"
    and "valid_space (current_piece (fst sm)) (create_grid (locked_positions (fst sm)))"
  shows "piece_ok (current_piece (fst (submit a sm))) \<and>
         valid_space (current_piece (fst (submit a sm)))
           (create_grid (locked_positions (fst (submit a sm)))) \<and>
         move_cooldown (fst (submit a sm)) = move_cooldown (fst sm)"
  using assms target_valid [OF assms, of a]
  by (cases sm) (auto simp: submit_def split: option.splits)

lemma held_submit: "held keys (fst (submit a sm)) k = held keys (fst sm) k"
  by (cases sm) (auto simp: submit_def held_def split: option.splits)


lemma cooldown_submit [simp]: "move_cooldown (fst (submit a sm)) = move_cooldown (fst sm)"
  by (cases sm) (auto simp: submit_def split: option.splits)

lemma cooldown_fold_submit [simp]:
  "move_cooldown (fst (fold submit as sm)) = move_cooldown (fst sm)"
  by (induction as arbitrary: sm) simp_all

lemma fold_submit_keeps:
  assumes "piece_ok (current_piece s)"
    and "valid_space (current_piece s) (create_grid (locked_positions s))"
  shows "piece_ok (current_piece (fst (fold submit as (s, m)))) \<and>
         valid_space (current_piece (fst (fold submit as (s, m))))
           (create_grid (locked_positions (fst (fold submit as (s, m)))))"
  using assms
proof (induction as arbitrary: s m)
  case Nil
  then show ?case by simp
next
  case (Cons a as)
  from submit_keeps [of "(s, m)" a] Cons.prems Cons.IH [of "fst (submit a (s, m))"
      "snd (submit a (s, m))"]
  show ?case by simp
qed

section \<open>The key handler and the engine agree\<close>

lemma arrow_keys_intents:
  assumes "move_delay \<le> move_cooldown s"
  shows "arrow_keys keys s =
           fold submit (filter (\<lambda>a. key_of a \<in> set keys) [MoveLeft, MoveRight, SoftDrop, Rotate])
             (s, False)"
  using assms
  by (simp add: arrow_keys_def Let_def held_def key_left_submit key_right_submit
      key_down_submit key_up_submit)

lemma handle_keys_engine:
  assumes "piece_ok (current_piece s)"
    and "valid_space (current_piece s) (create_grid (locked_positions s))"
  shows "handle_keys keys s = Some (engine_keys keys s)"
proof (cases "move_delay \<le> move_cooldown s")
  case False
  then show ?thesis
    by (simp add: handle_keys_def arrow_keys_def engine_keys_def held_def Let_def)
next
  case True
  let ?as = "filter (\<lambda>a. key_of a \<in> set keys) [MoveLeft, MoveRight, SoftDrop, Rotate]"
  let ?sm = "fold submit ?as (s, False)"
  have as: "intents_of keys = ?as @ (if K_SPACE \<in> set keys then [HardDrop] else [])"
    by (simp add: intents_of_def)
  from fold_submit_keeps [OF assms, of ?as False]
  have "key_space ?sm = Some (submit HardDrop ?sm)"
    by (cases ?sm) (simp add: key_space_submit)
  then show ?thesis
    using True
    by (simp add: handle_keys_def arrow_keys_intents engine_keys_def as held_def Let_def
        split: prod.splits)
qed


lemma ledge_valid:
  "piece_ok (current_piece ledge)"
  "valid_space (current_piece ledge) (create_grid (locked_positions ledge))"
  by (simp add: ledge_def piece_ok_def py_index_def SHAPES_def SHAPE_COLORS_def, code_simp)

text \<open>C11: The key blocks of \<^verbatim>\<open>main\<close> and the interface of the engine are
  equivalent: for a piece in a valid position, \<open>handle_keys\<close> returns, and what
  it returns is the session in which the intents of the held keys (move left,
  move right, soft drop, rotate, hard drop, in this order) were submitted one
  after the other, each taking effect when its target position exists, with
  the cooldown reset when one of them did; before the cooldown has expired the
  keys are ignored.\<close>

theorem handle_keys_intents:
  assumes "piece_ok (current_piece s)"
    and "valid_space (current_piece s) (create_grid (locked_positions s))"
  shows "handle_keys keys s = Some (engine_keys keys s)"
  using assms by (rule handle_keys_engine)

theorem handle_keys_intents_witness:
  "handle_keys [K_SPACE, K_RIGHT] ledge =
     Some (ledge\<lparr>current_piece := (current_piece ledge)\<lparr>piece_x := 1, piece_y := 18\<rparr>,
                 change_piece := True, move_cooldown := 0\<rparr>)"
proof -
  have "engine_keys [K_SPACE, K_RIGHT] ledge =
      ledge\<lparr>current_piece := (current_piece ledge)\<lparr>piece_x := 1, piece_y := 18\<rparr>,
            change_piece := True, move_cooldown := 0\<rparr>"
    by code_simp
  with handle_keys_intents [OF ledge_valid, of "[K_SPACE, K_RIGHT]"] show ?thesis by simp
qed

end
