(* ===== verification/Scenarios.thy ===== *)
theory Scenarios
  imports Quiet_Game
begin

text \<open>
  The laws of three situations of the loop of \<^verbatim>\<open>main\<close> of \<^verbatim>\<open>src/tetris.py\<close>, each
  with the run on a concrete session that shows it: the free fall of a piece
  to the place where it is locked, which the specification words as an
  end-to-end test; the pass in which gravity cannot lower the piece and the
  keys still move it; and the hard drop of a piece that is not in a valid
  position. In the last two the loop does what no player expects.

  The laws are proved for every session that satisfies the invariant; the
  free fall of the I piece is proved symbolically, for the session \<open>falling k\<close>
  after \<open>k\<close> passes, and only single passes are evaluated.
\<close>

section \<open>Example sessions\<close>

text \<open>The session of the I piece after it has fallen \<open>k\<close> rows, and after it has
  landed; a session whose O piece is created on top of a locked cell; an input
  with the right arrow held, and the O piece of \<open>ledge\<close> one column further
  right.\<close>

definition push_right :: input where
  "push_right = \<lparr>tick_ms = 250, events = [], pressed = [K_RIGHT], draw = 1\<rparr>"

definition jammed :: session where
  "jammed = \<lparr>locked_positions = [((5, 1), COLOR_I)], grid = empty_grid, change_piece = False,
       run = True,
       current_piece = \<lparr>piece_x = 5, piece_y = 0, shape_index = 1, shape = shape_O,
                          color = COLOR_O, rotation = 0\<rparr>,
       next_piece = spawn_T, fall_time = 0, fall_speed = 0.5, move_cooldown = 0,
       score = 0\<rparr>"

definition pushed :: piece where
  "pushed = \<lparr>piece_x = 1, piece_y = 17, shape_index = 1, shape = shape_O, color = COLOR_O,
             rotation = 0\<rparr>"

definition falling :: "nat \<Rightarrow> session" where
  "falling k = demo_start\<lparr>fall_time := 0, move_cooldown := real k / 2,
       current_piece := lowered spawn_I k, grid := paint_piece (lowered spawn_I k) empty_grid\<rparr>"

definition after_landing :: session where
  "after_landing = \<lparr>locked_positions =
         [((5, 19), COLOR_I), ((4, 19), COLOR_I), ((6, 19), COLOR_I), ((7, 19), COLOR_I)],
       grid = paint_piece (lowered spawn_I 19) empty_grid, change_piece = False, run = True,
       current_piece = spawn_T,
       next_piece = \<lparr>piece_x = 5, piece_y = 0, shape_index = 1, shape = shape_O,
                       color = COLOR_O, rotation = 0\<rparr>,
       fall_time = 0, fall_speed = 0.4975, move_cooldown = 10, score = 0\<rparr>"

section \<open>Running the loop\<close>

lemma run_frames_append:
  "run_frames (xs @ ys) s =
     (case run_frames xs s of
        None \<Rightarrow> None
      | Some (Inl e) \<Rightarrow> Some (Inl e)
      | Some (Inr s') \<Rightarrow> run_frames ys s')"
proof (induction xs arbitrary: s)
  case Nil
  show ?case by simp
next
  case (Cons i xs)
  show ?case
  proof (cases "run s")
    case True
    with Cons show ?thesis by (simp split: option.splits sum.splits)
  next
    case False
    then show ?thesis by (cases ys) simp_all
  qed
qed

text \<open>A pass of the loop with no event and no key held, in which the
  fall timer expires and the position one row down is not valid, leaves the
  piece where it is and resolves the lock in the same pass.\<close>

lemma frame_landing:
  assumes "events i = []" and "pressed i = []"
    and "fall_speed s \<le> fall_time s + real (tick_ms i) / 1000"
    and "\<not> valid_space (lowered (current_piece s) 1) (create_grid (locked_positions s))"
  shows "frame i s =
           Some (resolve_lock (draw i)
             (s\<lparr>move_cooldown := move_cooldown s + real (tick_ms i) / 1000,
                 fall_time := 0, change_piece := True,
                 grid := paint_piece (current_piece s) (create_grid (locked_positions s))\<rparr>))"
  using assms(3-)
  by (simp add: frame_no_input [OF assms(1,2)] tick_def gravity_unfold compose_grid_def
      lowered_def Let_def)

lemma create_grid_Nil [simp]: "create_grid [] = empty_grid"
  by (simp add: create_grid_def)

lemma get_cells_falling: "get_cells (lowered spawn_I k) =
    [(5, int k), (4, int k), (6, int k), (7, int k)]"
  by (simp add: lowered_def spawn_I_def get_cells_def shape_I_def)

lemma lowered_lowered [simp]: "lowered (lowered p j) k = lowered p (j + k)"
  by (simp add: lowered_def)

lemma frame_idle_falling:
  assumes "k < 19"
  shows "frame idle (falling k\<lparr>grid := g\<rparr>) = Some (Inr (falling (Suc k)))"
proof -
  from assms have "valid_space (lowered spawn_I (Suc k)) empty_grid"
    by (simp add: valid_space_empty_grid in_bounds_iff get_cells_falling in_walls_def
        game_consts)
  then show ?thesis
    by (simp add: frame_no_input tick_def gravity_unfold compose_grid_def resolve_lock_def
        lowered_1 Let_def falling_def demo_start_def idle_def add_divide_distrib)
qed

lemma falling_0: "falling 0\<lparr>grid := empty_grid\<rparr> = demo_start"
  by (simp add: falling_def demo_start_def)

lemma run_frames_falling:
  "j + k \<le> 19 \<Longrightarrow>
   run_frames (replicate k idle) (falling j\<lparr>grid := g\<rparr>) =
     Some (Inr (if k = 0 then falling j\<lparr>grid := g\<rparr> else falling (j + k)))"
proof (induction k arbitrary: j g)
  case 0
  show ?case by simp
next
  case (Suc k)
  from Suc.prems have "frame idle (falling j\<lparr>grid := g\<rparr>) = Some (Inr (falling (Suc j)))"
    by (simp add: frame_idle_falling)
  moreover have "run (falling j\<lparr>grid := g\<rparr>)"
    by (simp add: falling_def demo_start_def)
  moreover from Suc.prems Suc.IH [of "Suc j" "grid (falling (Suc j))"]
  have "run_frames (replicate k idle) (falling (Suc j)) =
      Some (Inr (if k = 0 then falling (Suc j) else falling (Suc j + k)))"
    by simp
  ultimately show ?case by simp
qed

lemma lands_20: "frame idle (falling 19) = Some (Inr after_landing)"
  by code_simp

section \<open>The free fall\<close>

text \<open>Passes in which nothing is pressed and the fall timer expires lower the
  piece row by row as long as the next row is free, and change nothing else of
  the game.\<close>

lemma fall_run:
  "session_ok s \<Longrightarrow> run s \<Longrightarrow> list_all quiet inputs \<Longrightarrow>
   \<forall>j \<in> {1..length inputs}.
     valid_space (lowered (current_piece s) j) (create_grid (locked_positions s)) \<Longrightarrow>
   \<exists>t. run_frames inputs s = Some (Inr t) \<and> session_ok t \<and> run t \<and>
       current_piece t = lowered (current_piece s) (length inputs) \<and>
       locked_positions t = locked_positions s \<and> next_piece t = next_piece s"
proof (induction inputs arbitrary: s)
  case Nil
  then show ?case by simp
next
  case (Cons i inputs)
  let ?s1 = "s\<lparr>fall_time := 0, move_cooldown := move_cooldown s + real (tick_ms i) / 1000,
      current_piece := lowered (current_piece s) 1,
      grid := paint_piece (lowered (current_piece s) 1) (create_grid (locked_positions s))\<rparr>"
  from Cons.prems(1,3) have fires: "fires i s" by (simp add: quiet_fires)
  from Cons.prems(4) have "valid_space (lowered (current_piece s) 1) (create_grid (locked_positions s))"
    by simp
  from fired_fall_state [OF Cons.prems(1) fires this] have f: "frame i s = Some (Inr ?s1)" .
  from fires have "\<not> list_ex exits (events i)" by (simp add: fires_def)
  from frame_step [OF Cons.prems(1,2) this] f have ok: "session_ok ?s1" by simp
  from Cons.prems(4) have "\<forall>j \<in> {1..length inputs}.
      valid_space (lowered (current_piece ?s1) j) (create_grid (locked_positions ?s1))"
    by (auto simp: add.commute)
  with Cons.IH [OF ok] Cons.prems(2,3) f show ?case by (simp add: add.commute)
qed

text \<open>C30: A piece that can fall \<open>k\<close> rows and no further is \<open>k\<close> rows lower after \<open>k\<close>
  quiet passes and not locked yet: the board is as it was and the game runs.
  The pass after that, in which gravity fails to lower it, locks it there:
  the board is then the board with the cells of the piece, the completed rows
  cleared, and the next piece is in play. A piece is locked by the tick after
  the last one that moved it.\<close>

theorem fall_then_lock:
  assumes "session_ok s" and "run s" and "list_all quiet inputs" and "quiet i"
    and "\<forall>j \<in> {1..length inputs}.
           valid_space (lowered (current_piece s) j) (create_grid (locked_positions s))"
    and "\<not> valid_space (lowered (current_piece s) (Suc (length inputs)))
           (create_grid (locked_positions s))"
  shows "\<exists>t s'. run_frames inputs s = Some (Inr t) \<and> run t \<and>
           current_piece t = lowered (current_piece s) (length inputs) \<and>
           locked_positions t = locked_positions s \<and>
           frame i t = Some (Inr s') \<and> current_piece s' = next_piece s \<and>
           map_of (locked_positions s') =
             map_of (compact
               (full_rows (lock_piece (lowered (current_piece s) (length inputs))
                  (locked_positions s)))
               (lock_piece (lowered (current_piece s) (length inputs)) (locked_positions s)))"
proof -
  from fall_run [OF assms(1,2,3,5)] obtain t where t: "run_frames inputs s = Some (Inr t)"
    "session_ok t" "run t" "current_piece t = lowered (current_piece s) (length inputs)"
    "locked_positions t = locked_positions s" "next_piece t = next_piece s"
    by blast
  from assms(6) t(4,5) have "\<not> valid_space (lowered (current_piece t) 1)
      (create_grid (locked_positions t))"
    by simp
  from fired_lock_state [OF t(2,3) quiet_fires [OF assms(4) t(2)] this] obtain s' where
    "frame i t = Some (Inr s')" "current_piece s' = next_piece t"
    "map_of (locked_positions s') =
       map_of (compact (full_rows (lock_piece (current_piece t) (locked_positions t)))
         (lock_piece (current_piece t) (locked_positions t)))"
    by blast
  with t show ?thesis by auto
qed


theorem fall_then_lock_witness:
  "\<exists>t s'. run_frames (replicate 19 idle) demo_start = Some (Inr t) \<and> run t \<and>
     current_piece t = lowered spawn_I 19 \<and> locked_positions t = [] \<and>
     frame idle t = Some (Inr s') \<and> current_piece s' = spawn_T"
proof -
  have fields: "current_piece demo_start = spawn_I" "locked_positions demo_start = []"
    "next_piece demo_start = spawn_T"
    by (simp_all add: demo_start_def)
  have "\<forall>j \<in> {1..length (replicate 19 idle)}.
      valid_space (lowered (current_piece demo_start) j)
        (create_grid (locked_positions demo_start))"
    by (simp add: fields valid_space_empty_grid in_bounds_iff get_cells_falling in_walls_def
        game_consts)
  moreover have "\<not> valid_space (lowered (current_piece demo_start)
      (Suc (length (replicate 19 idle)))) (create_grid (locked_positions demo_start))"
    by (simp add: fields valid_space_empty_grid in_bounds_iff get_cells_falling in_walls_def
        game_consts)
  moreover have "list_all quiet (replicate 19 idle)" by (simp add: list_all_iff)
  ultimately show ?thesis
    using fall_then_lock [OF session_ok_demo_start run_demo_start _ quiet_idle,
        of "replicate 19 idle"]
    by (auto simp: fields)
qed

text \<open>An I piece created at \<open>(5, 0)\<close> on the empty board is at row 19
  after 19 passes in which gravity acts, and it is not locked yet; the 20th
  pass locks it in the cells \<open>(4, 19)\<close> to \<open>(7, 19)\<close>, and the game goes on.\<close>

lemma end_to_end_I_piece:
  "run_frames (replicate 19 idle) demo_start = Some (Inr (falling 19)) \<and>
   locked_positions (falling 19) = [] \<and>
   get_cells (current_piece (falling 19)) = [(5, 19), (4, 19), (6, 19), (7, 19)] \<and>
   run_frames (replicate 20 idle) demo_start = Some (Inr after_landing) \<and>
   dict_keys (locked_positions after_landing) = [(5, 19), (4, 19), (6, 19), (7, 19)] \<and>
   run after_landing \<and> \<not> check_lost (locked_positions after_landing)"
proof -
  have 19: "run_frames (replicate 19 idle) demo_start = Some (Inr (falling 19))"
    using run_frames_falling [of 0 19 empty_grid] by (simp add: falling_0)
  have "replicate 20 idle = replicate 19 idle @ [idle]"
    using replicate_add [of 19 1 idle] by simp
  moreover have "run (falling 19)"
    by (simp add: falling_def demo_start_def)
  ultimately have "run_frames (replicate 20 idle) demo_start = Some (Inr after_landing)"
    by (simp only: run_frames_append 19) (simp add: lands_20)
  with 19 show ?thesis
    by (simp add: falling_def demo_start_def after_landing_def dict_keys_def get_cells_falling)
qed

text \<open>A session with one locked cell below the top row, an O piece inside the
  walls and a T piece next satisfies the invariant.\<close>

lemma session_ok_O_piece:
  assumes "in_walls pos" and "1 \<le> snd pos" and "c \<noteq> BLACK"
    and "0 \<le> a" and "a < GRID_WIDTH - 1" and "b < GRID_HEIGHT - 1"
    and "0 \<le> t" and "0 \<le> m"
  shows "session_ok \<lparr>locked_positions = [(pos, c)], grid = empty_grid, change_piece = False,
       run = True,
       current_piece = \<lparr>piece_x = a, piece_y = b, shape_index = 1, shape = shape_O,
                          color = COLOR_O, rotation = 0\<rparr>,
       next_piece = spawn_T, fall_time = t, fall_speed = 0.5, move_cooldown = m, score = 0\<rparr>"
proof -
  have "piece_ok \<lparr>piece_x = a, piece_y = b, shape_index = 1, shape = shape_O,
      color = COLOR_O, rotation = 0\<rparr>"
    by (simp add: piece_ok_def py_index_def SHAPES_def SHAPE_COLORS_def)
  moreover from assms(4-6) have "in_bounds \<lparr>piece_x = a, piece_y = b, shape_index = 1,
      shape = shape_O, color = COLOR_O, rotation = 0\<rparr>"
    by (simp add: in_bounds_iff get_cells_def shape_O_def in_walls_def)
  moreover from assms(1,3) have "board_ok [(pos, c)]"
    by (simp add: board_ok_def)
  moreover have "\<not> row_full [(pos, c)] y" for y
  proof
    assume "row_full [(pos, c)] y"
    then have "(0, y) \<in> fst ` set [(pos, c)]" "(1, y) \<in> fst ` set [(pos, c)]"
      by (simp_all add: row_full_iff game_consts)
    then show False by auto
  qed
  then have "full_rows [(pos, c)] = []"
    by (simp add: full_rows_def)
  moreover from assms(2) have "\<not> check_lost [(pos, c)]"
    by (cases pos) simp
  moreover have "spawned spawn_T"
    using piece_ok_spawn_T by (simp add: spawned_def spawn_T_def game_consts)
  ultimately show ?thesis
    using assms(7,8) by (simp add: session_ok_def session_inv_def placed_def)
qed

section \<open>A lock after the keys\<close>

text \<open>C36: A piece that gravity could not lower is still moved by the keys of
  the same pass and then locked where the keys left it: when the fall timer
  expires, the row below is not free and the space bar is not held, the pass
  locks the piece \<open>q\<close> that the arrow keys make of the piece, whether or not
  \<open>q\<close> could fall further, and puts the next piece in play.\<close>

theorem lock_in_mid_air:
  assumes "session_ok s" and "run s" and "\<not> list_ex exits (events i)"
    and "fall_speed s \<le> fall_time s + real (tick_ms i) / 1000"
    and "\<not> valid_space (lowered (current_piece s) 1) (create_grid (locked_positions s))"
    and "K_SPACE \<notin> set (pressed i)"
    and "q = current_piece (fst (arrow_keys (pressed i) (gravity (tick (real (tick_ms i) / 1000) s))))"
  shows "\<exists>s'. frame i s = Some (Inr s') \<and> current_piece s' = next_piece s \<and>
           map_of (locked_positions s') =
             map_of (compact (full_rows (lock_piece q (locked_positions s)))
               (lock_piece q (locked_positions s)))"
proof -
  let ?s1 = "gravity (tick (real (tick_ms i) / 1000) s)"
  from assms(1,2) have inv: "session_inv s" "\<not> check_lost (locked_positions s)"
    by (simp_all add: session_ok_def)
  from assms(4,5) have s1: "change_piece ?s1" "locked_positions ?s1 = locked_positions s"
    "next_piece ?s1 = next_piece s"
    by (simp_all add: gravity_unfold tick_def lowered_1 Let_def)
  from inv(1) have "piece_ok (current_piece ?s1)"
    by (intro gravity_piece_ok) (simp add: tick_def session_inv_def placed_def)
  from handle_keys_cases [OF this, of "pressed i"] assms(6,7) obtain m where
    k: "handle_keys (pressed i) ?s1 =
          Some (?s1\<lparr>current_piece := q, move_cooldown := if m then 0 else move_cooldown ?s1\<rparr>)"
    by (auto simp: held_def)
  define t where "t = compose_grid (?s1\<lparr>current_piece := q,
      move_cooldown := if m then 0 else move_cooldown ?s1\<rparr>)"
  from k assms(3) have t: "moves i s = Some (Inr t)"
    by (simp add: moves_def handle_events_exits t_def)
  from moves_step [OF inv(1) assms(3)] t have "same_game s t"
    "grid t = paint_piece (current_piece t) (create_grid (locked_positions t))"
    by simp_all
  then have sg: "session_inv t" "locked_positions t = locked_positions s"
    "next_piece t = next_piece s"
    "grid t = paint_piece (current_piece t) (create_grid (locked_positions t))"
    by (simp_all add: same_game_def)
  from sg(1) have ok: "board_ok (locked_positions t)" "placed (current_piece t)"
    by (simp_all add: session_inv_def)
  from s1(1) have c: "change_piece t" "current_piece t = q" by (simp_all add: t_def)
  from inv(2) sg(2) have "\<not> check_lost (locked_positions t)" by simp
  from resolve_lock_result [OF ok this c(1) sg(4), of "draw i"] t sg(2,3) c(2) show ?thesis
    by (auto simp: frame_def)
qed


theorem lock_in_mid_air_witness:
  "session_ok ledge \<and> run ledge \<and>
   (\<exists>s'. frame push_right ledge = Some (Inr s') \<and> current_piece s' = next_piece ledge \<and>
      map_of (locked_positions s') =
        map_of (compact (full_rows (lock_piece pushed (locked_positions ledge)))
          (lock_piece pushed (locked_positions ledge)))) \<and>
   valid_space (lowered pushed 1) (create_grid (locked_positions ledge))"
proof -
  have ok: "session_ok ledge"
    unfolding ledge_def
    by (rule session_ok_O_piece) (simp_all add: in_walls_def game_consts color_defs)
  have run: "run ledge" by (simp add: ledge_def)
  have "\<not> list_ex exits (events push_right)" "K_SPACE \<notin> set (pressed push_right)"
    "fall_speed ledge \<le> fall_time ledge + real (tick_ms push_right) / 1000"
    by (simp_all add: push_right_def ledge_def)
  moreover have "\<not> valid_space (lowered (current_piece ledge) 1)
      (create_grid (locked_positions ledge))"
    by code_simp
  moreover have "pushed = current_piece (fst (arrow_keys (pressed push_right)
      (gravity (tick (real (tick_ms push_right) / 1000) ledge))))"
    by code_simp
  moreover have "valid_space (lowered pushed 1) (create_grid (locked_positions ledge))"
    by code_simp
  ultimately show ?thesis
    using lock_in_mid_air [OF ok run, of push_right pushed] by (simp add: ok run)
qed

text \<open>An O piece resting on a locked cell is pushed off it and locked with
  nothing under it, although one row further down it would be valid.\<close>

lemma ledge_pushed_off:
  "session_ok ledge \<and>
   (case frame push_right ledge of
      Some (Inr s') \<Rightarrow>
        dict_keys (locked_positions s') = [(0, 19), (1, 17), (2, 17), (1, 18), (2, 18)] \<and>
        valid_space (lowered (current_piece (fst (key_right (gravity ledge, False)))) 1)
          (create_grid (locked_positions ledge))
    | _ \<Rightarrow> False)"
proof -
  have "session_ok ledge"
    unfolding ledge_def
    by (rule session_ok_O_piece) (simp_all add: in_walls_def game_consts color_defs)
  moreover have "case frame push_right ledge of
      Some (Inr s') \<Rightarrow>
        dict_keys (locked_positions s') = [(0, 19), (1, 17), (2, 17), (1, 18), (2, 18)] \<and>
        valid_space (lowered (current_piece (fst (key_right (gravity ledge, False)))) 1)
          (create_grid (locked_positions ledge))
    | _ \<Rightarrow> False"
    by code_simp
  ultimately show ?thesis by simp
qed

section \<open>The hard drop of a piece that is not in a valid position\<close>

lemma arrow_keys_none:
  assumes "set keys \<inter> {K_LEFT, K_RIGHT, K_DOWN, K_UP} = {}"
  shows "arrow_keys keys s = (s, False)"
  using assms by (simp add: arrow_keys_def held_def)

text \<open>C37: The hard drop of a piece that is not in a valid position moves it one
  row up: the loop of the hard drop runs zero times, and the step back that
  follows it is taken all the same. With the space bar held, the cooldown
  expired and no arrow key held, the keys leave the piece one row higher,
  mark it to be locked and reset the cooldown.\<close>

theorem hard_drop_moves_up:
  assumes "\<not> valid_space (current_piece s) (create_grid (locked_positions s))"
    and "K_SPACE \<in> set keys" and "move_delay \<le> move_cooldown s"
    and "set keys \<inter> {K_LEFT, K_RIGHT, K_DOWN, K_UP} = {}"
  shows "handle_keys keys s =
           Some (s\<lparr>current_piece := (current_piece s)\<lparr>piece_y := piece_y (current_piece s) - 1\<rparr>,
                   change_piece := True, move_cooldown := 0\<rparr>)"
  using assms(1-3)
  by (simp add: handle_keys_def arrow_keys_none [OF assms(4)] held_def key_space_def
      drop_loop_invalid)

theorem hard_drop_moves_up_witness:
  "\<not> valid_space (current_piece jammed) (create_grid (locked_positions jammed)) \<and>
   piece_y (current_piece jammed) = 0 \<and>
   (\<exists>s'. handle_keys [K_SPACE] (jammed\<lparr>move_cooldown := 1\<rparr>) = Some s' \<and>
      piece_y (current_piece s') = - 1 \<and> change_piece s')"
proof -
  have "\<not> valid_space (current_piece jammed) (create_grid (locked_positions jammed))"
    by code_simp
  with hard_drop_moves_up [of "jammed\<lparr>move_cooldown := 1\<rparr>" "[K_SPACE]"] show ?thesis
    by (simp add: move_delay_def) (simp add: jammed_def)
qed

text \<open>The hard drop of an O piece that is created on top of a locked cell: the
  piece is locked in the rows -1 and 0 and the game is lost.\<close>

lemma jammed_hard_drop:
  "session_ok jammed \<and>
   (case frame drop_now jammed of
      Some (Inr s') \<Rightarrow>
        dict_keys (locked_positions s') = [(5, 1), (5, - 1), (6, - 1), (5, 0), (6, 0)] \<and> \<not> run s'
    | _ \<Rightarrow> False)"
proof -
  have "session_ok jammed"
    unfolding jammed_def
    by (rule session_ok_O_piece) (simp_all add: in_walls_def game_consts color_defs)
  moreover have "case frame drop_now jammed of
      Some (Inr s') \<Rightarrow>
        dict_keys (locked_positions s') = [(5, 1), (5, - 1), (6, - 1), (5, 0), (6, 0)] \<and> \<not> run s'
    | _ \<Rightarrow> False"
    by code_simp
  ultimately show ?thesis by simp
qed

lemma frame_landing_witness:
  "events idle = [] \<and> pressed idle = [] \<and>
   fall_speed (falling 19) \<le> fall_time (falling 19) + real (tick_ms idle) / 1000 \<and>
   frame idle (falling 19) =
     Some (resolve_lock (draw idle)
       (falling 19\<lparr>move_cooldown := 10, fall_time := 0, change_piece := True\<rparr>))"
proof -
  have "\<not> valid_space (lowered (current_piece (falling 19)) 1)
      (create_grid (locked_positions (falling 19)))"
    by (simp add: falling_def demo_start_def valid_space_empty_grid in_bounds_iff
        get_cells_falling in_walls_def game_consts)
  with frame_landing [of idle "falling 19"] show ?thesis
    by (simp add: idle_def falling_def demo_start_def)
qed

end
