(* ===== verification/Lifecycle.thy ===== *)
theory Lifecycle
  imports Session
begin

text \<open>
  The state machine of the game session, as the specification draws it:
  \<open>Spawning \<rightarrow> Falling \<rightarrow> Locking \<rightarrow> (Falling | GameOver)\<close>. \<^verbatim>\<open>main\<close> of \<^verbatim>\<open>src/tetris.py\<close> has
  no variable for the state; it is read off the flags \<^verbatim>\<open>run\<close> and
  \<^verbatim>\<open>change_piece\<close> (\<open>stage_of\<close>). \<open>lifecycle\<close> is the transition relation of the
  machine, \<open>lifecycle_run\<close> its paths. The lemmas show which transition each
  phase of a pass takes, that a pass as a whole follows the machine, and that
  the loop stops in \<open>GameOver\<close>.
\<close>

section \<open>The machine\<close>

datatype stage = Spawning | Falling | Locking | GameOver

inductive lifecycle :: "stage \<Rightarrow> stage \<Rightarrow> bool" where
  spawn: "lifecycle Spawning Falling"
| fall: "lifecycle Falling Falling"
| land: "lifecycle Falling Locking"
| promote: "lifecycle Locking Falling"
| lose: "lifecycle Locking GameOver"

inductive lifecycle_run :: "stage \<Rightarrow> stage list \<Rightarrow> stage \<Rightarrow> bool" where
  stay: "lifecycle_run a [] a"
| move: "lifecycle a b \<Longrightarrow> lifecycle_run b path c \<Longrightarrow> lifecycle_run a (b # path) c"

definition stage_of :: "session \<Rightarrow> stage" where
  "stage_of s = (if \<not> run s then GameOver else if change_piece s then Locking else Falling)"

section \<open>Transitions of the machine\<close>

inductive_cases lifecycle_GameOverE [elim!]: "lifecycle a GameOver"
inductive_cases lifecycle_from_GameOverE [elim!]: "lifecycle GameOver b"
inductive_cases lifecycle_SpawningE [elim!]: "lifecycle a Spawning"
inductive_cases lifecycle_run_NilE [elim!]: "lifecycle_run a [] c"
inductive_cases lifecycle_run_ConsE [elim!]: "lifecycle_run a (b # path) c"

inductive_simps lifecycle_Falling_iff: "lifecycle Falling b"
inductive_simps lifecycle_Locking_iff: "lifecycle Locking b"

lemma GameOver_terminal: "lifecycle_run GameOver path c \<Longrightarrow> path = [] \<and> c = GameOver"
  by (cases path) auto

lemma lifecycle_run_append:
  "lifecycle_run a xs b \<Longrightarrow> lifecycle_run b ys c \<Longrightarrow> lifecycle_run a (xs @ ys) c"
  by (induction rule: lifecycle_run.induct) (auto intro: lifecycle_run.intros)

lemma GameOver_from_Locking:
  assumes "lifecycle_run a path GameOver" and "a \<noteq> GameOver"
  shows "Locking \<in> set (a # path)"
  using assms by (induction a path GameOver rule: lifecycle_run.induct) auto


section \<open>The session follows the machine\<close>

lemma stage_of_start:
  assumes "init_session r1 r2 = Inr s"
  shows "lifecycle Spawning (stage_of s)"
proof -
  from assms have "run s" "\<not> change_piece s"
    by (auto simp: init_session_def bind_result_eq_Inr)
  then show ?thesis by (simp add: stage_of_def lifecycle.spawn)
qed

lemma stage_of_moves:
  assumes "session_ok s" and "run s" and "moves i s = Some (Inr t)"
  shows "stage_of s = Falling" and "lifecycle (stage_of s) (stage_of t)"
proof -
  from assms(1,2) show s: "stage_of s = Falling"
    by (simp add: stage_of_def session_ok_def)
  have "\<not> list_ex exits (events i)"
    using assms(3) moves_exit [of i s] by auto
  with moves_step [of s i] assms(1,3) have "same_game s t"
    by (auto simp: session_ok_def)
  with assms(2) have "run t" by (simp add: same_game_def)
  with s show "lifecycle (stage_of s) (stage_of t)"
    by (simp add: stage_of_def lifecycle_Falling_iff)
qed

lemma stage_of_resolve_lock:
  assumes "run t" and "resolve_lock r t = Inr s'"
  shows "lifecycle (stage_of t) (stage_of s')" and "stage_of s' \<noteq> Locking"
  using assms
  by (auto simp: resolve_lock_def stage_of_def lifecycle_Falling_iff lifecycle_Locking_iff
      bind_result_eq_Inr Let_def split: if_splits)

text \<open>C26: A pass of the loop of \<^verbatim>\<open>main\<close> follows the state machine of the
  specification: it starts in \<open>Falling\<close>; gravity and the keys keep the session
  there or take it to \<open>Locking\<close>; the lock resolution leaves \<open>Falling\<close> alone and
  takes \<open>Locking\<close> to \<open>Falling\<close>, with the next piece, or to \<open>GameOver\<close>. No pass ends
  in \<open>Locking\<close>, and \<open>GameOver\<close> is entered from \<open>Locking\<close> only.\<close>

theorem pass_follows_lifecycle:
  assumes "session_ok s" and "run s" and "moves i s = Some (Inr t)"
    and "frame i s = Some (Inr s')"
  shows "stage_of s = Falling \<and> stage_of s' \<noteq> Locking \<and>
         lifecycle_run (stage_of s) [stage_of t, stage_of s'] (stage_of s')"
proof -
  have "\<not> list_ex exits (events i)"
    using assms(3) moves_exit [of i s] by auto
  with moves_step [of s i] assms(1,2,3) have "run t"
    by (auto simp: session_ok_def same_game_def)
  moreover from assms(3,4) have "resolve_lock (draw i) t = Inr s'"
    by (simp add: frame_def)
  ultimately have "lifecycle (stage_of t) (stage_of s')" "stage_of s' \<noteq> Locking"
    by (rule stage_of_resolve_lock)+
  with stage_of_moves [OF assms(1,2,3)] show ?thesis
    by (auto intro: lifecycle_run.intros)
qed

theorem pass_follows_lifecycle_witness:
  "lifecycle_run Falling [Falling, Falling] Falling \<and>
   stage_of demo_start = Falling \<and> stage_of demo_fallen = Falling"
  using pass_follows_lifecycle [OF session_ok_demo_start run_demo_start moves_idle_demo_start
      frame_idle_demo_start]
  by (simp add: stage_of_def demo_start_def demo_fallen_def)

text \<open>\<open>GameOver\<close> is terminal: the loop of \<^verbatim>\<open>main\<close> makes no pass in it.\<close>

lemma run_frames_GameOver:
  "stage_of s = GameOver \<Longrightarrow> run_frames inputs s = Some (Inr s)"
  by (cases inputs) (simp_all add: stage_of_def split: if_splits)

end
