(* ===== verification/Spec2Isabelle.thy ===== *)
theory Spec2Isabelle
  imports Program Quiet_Game Intents Scenarios Lifecycle
begin

text \<open>
  \<^bold>\<open>A verification development for the Tetris game of \<^verbatim>\<open>src/tetris.py\<close>.\<close>

  \<^bold>\<open>The program.\<close> One Python file: the constants of the game and the table of
  the seven tetrominoes (lines 9--95), the class \<^verbatim>\<open>Piece\<close> (98--109), the
  helpers of the engine (\<^verbatim>\<open>create_grid\<close>, \<^verbatim>\<open>valid_space\<close>, \<^verbatim>\<open>in_bounds\<close>,
  \<^verbatim>\<open>lock_piece\<close>, \<^verbatim>\<open>clear_rows\<close>, \<^verbatim>\<open>check_lost\<close>, \<^verbatim>\<open>get_new_piece\<close>, lines
  116--187, and \<^verbatim>\<open>try_rotate_with_kicks\<close>, 261--279), the drawing code
  (\<^verbatim>\<open>draw_grid_lines\<close>, \<^verbatim>\<open>draw_window\<close>, 194--258), the loop \<^verbatim>\<open>main\<close> (286--399)
  that moves the current piece by gravity and by the keys, draws the window,
  locks the piece when it lands, clears the full rows, scores and speeds up,
  and \<^verbatim>\<open>game_over\<close> (402--432), which paints the game-over screen and waits for
  the player to leave or to start again by calling \<^verbatim>\<open>main\<close>. The board is a
  dictionary \<^verbatim>\<open>locked\<close> from coordinates to colours; a dense grid is derived from
  it whenever a placement is tested and whenever the window is drawn.

  \<^bold>\<open>The theories\<close>, in import order:
  \<^item> \<open>Tetris_Prelude\<close>: Python's exceptions as values (\<open>py_error\<close>, \<open>result\<close>,
    \<open>bind_result\<close>, \<open>fold_result\<close>), list subscripts (\<open>py_index\<close>), \<^verbatim>\<open>range\<close>
    (\<open>py_range\<close>) and the dictionary as an association list with distinct keys
    (\<open>dict_set\<close>, \<open>dict_pop\<close>, \<open>dict_del\<close>), with the \<open>map_of\<close> view of each
    operation; a loop that appends to a list as the list of what it appends.
  \<^item> \<open>Shape_Catalog\<close>: \<open>GRID_WIDTH\<close>, \<open>GRID_HEIGHT\<close>, \<open>BLACK\<close>, the colours,
    \<open>shape_I\<close> \<dots> \<open>shape_L\<close>, \<open>SHAPES\<close>, \<open>SHAPE_COLORS\<close>; the table is well
    formed (\<open>SHAPES_ok\<close>), and three of its shapes repeat their states
    (\<open>repeated_states\<close>).
  \<^item> \<open>Piece\<close>: the record \<open>piece\<close>, the constructor \<open>Piece\<close> with its
    \<^verbatim>\<open>IndexError\<close>, \<open>get_cells\<close>; the invariant \<open>piece_ok\<close>.
  \<^item> \<open>Board\<close>: \<open>create_grid\<close> (with \<open>paint\<close>, the guarded assignment to a
    grid cell), \<open>lock_piece\<close>, \<open>check_lost\<close>; the invariants \<open>grid_ok\<close> and
    \<open>board_ok\<close>, the abstract board \<open>cell_of\<close> and the refinement theorem
    \<open>create_grid_refines_cell_of\<close>.
  \<^item> \<open>Collision\<close>: \<open>valid_space\<close> (through \<open>accepted_positions\<close> and the loop
    \<open>cells_valid\<close>), \<open>in_bounds\<close>, \<open>try_rotate_with_kicks\<close> (through the loop
    \<open>try_kicks\<close>); the specification \<open>placement_ok\<close>, the contract of
    \<open>valid_space\<close> on a board (\<open>valid_space_on_board\<close>) and of the kick search
    (\<open>try_rotate_with_kicks_find\<close>); which pieces a rotation leaves on their
    cells (\<open>rotation_states_repeat\<close>).
  \<^item> \<open>Line_Clear\<close>: the three phases of \<open>clear_rows\<close> (\<open>rows_to_clear\<close>,
    \<open>remove_rows\<close>, \<open>shift_rows\<close>), the specification \<open>compact\<close> and the
    refinement theorem \<open>clear_rows_refines_compact\<close>; what follows from it for
    the rows, the cells and the number of entries of the board.
  \<^item> \<open>Session\<close>: the local variables of \<^verbatim>\<open>main\<close> as the record \<open>session\<close>, what
    one pass of its loop reads as the record \<open>input\<close>, the phases of a pass
    (\<open>tick\<close>, \<open>gravity\<close>, \<open>handle_events\<close>, \<open>handle_keys\<close> with the key blocks and
    the loop \<open>drop_loop\<close> of the hard drop, \<open>compose_grid\<close>, \<open>resolve_lock\<close>),
    the pass \<open>frame\<close> (\<open>moves\<close>, then the lock) and the loop \<open>run_frames\<close>; the
    events of the game-over screen (\<open>game_over_events\<close>); the invariant
    \<open>session_ok\<close> and the reachable sessions (\<open>reachable\<close>).
  \<^item> \<open>Rendering\<close>: the layout constants (lines 11--23), the calls into pygame as
    the datatype \<open>call\<close>, a \<open>surface\<close> as the list of the calls it has received;
    \<open>draw_grid_lines\<close>, \<open>draw_window\<close> (with its parts \<open>draw_labels\<close>,
    \<open>draw_preview\<close>, \<open>draw_blocks\<close>), the screen of \<^verbatim>\<open>game_over\<close>
    (\<open>game_over_screen\<close>) and Python's \<^verbatim>\<open>str\<close> of an integer (\<open>str_int\<close>); the
    reading \<open>block_shown\<close> of a surface and the window bounds \<open>call_in_window\<close>.
  \<^item> \<open>Program\<close>: the state of the whole program (\<open>phase\<close>, \<open>window\<close>, \<open>depth\<close>),
    the start of \<^verbatim>\<open>main\<close> (\<open>start_main\<close>, \<open>program_start\<close>), a pass of its loop with
    the drawing (\<open>show_session\<close>, \<open>play_pass\<close>), the call of \<^verbatim>\<open>game_over\<close>
    (\<open>enter_game_over\<close>), a pass of the waiting loop (\<open>wait_pass\<close>), \<open>step\<close> and
    \<open>run_program\<close>; the invariant \<open>program_ok\<close>.
  \<^item> \<open>Quiet_Game\<close>: the passes in which the player does nothing, at half a
    second a pass (\<open>quiet\<close>) and at the 16 ms a pass of the real loop
    (\<open>unattended\<close>); the invariant \<open>steady\<close> of the piece in play, the weight
    \<open>imbalance\<close> of a board and the variants \<open>passes_left\<close> (steps of gravity)
    and \<open>frames_left\<close> (passes of the loop).
  \<^item> \<open>Intents\<close>: the interface of the engine as the datatype \<open>intent\<close> with the
    reference semantics \<open>target\<close>, \<open>submit\<close> and \<open>engine_keys\<close>.
  \<^item> \<open>Lifecycle\<close>: the state machine of the specification as the inductive
    relation \<open>lifecycle\<close>, and the state \<open>stage_of\<close> of a session.
  \<^item> \<open>Scenarios\<close>: the laws of three situations of the loop, each with the run
    on a concrete session that shows it: the free fall of a piece to its lock
    (\<open>fall_then_lock\<close>), the lock of a piece that the keys moved after gravity
    had failed (\<open>lock_in_mid_air\<close>), the hard drop of a piece that is not in a
    valid position (\<open>hard_drop_moves_up\<close>).
  \<^item> \<open>Spec2Isabelle\<close> (this theory): the header and the properties that span
    components.

  \<^bold>\<open>Correspondence.\<close> Every definition keeps the name of the function or
  variable it models, except where Isabelle forbids it (\<^verbatim>\<open>I\<close>, \<^verbatim>\<open>O\<close>, \<dots> are
  \<open>shape_I\<close>, \<open>shape_O\<close>, \<dots>; the attributes \<^verbatim>\<open>x\<close> and \<^verbatim>\<open>y\<close> of a piece are
  \<open>piece_x\<close> and \<open>piece_y\<close>; the flag \<^verbatim>\<open>moved\<close> of \<^verbatim>\<open>main\<close> is \<open>has_moved\<close>). A
  function that mutates its argument returns the new value; a function that can
  raise returns a \<open>result\<close>, and \<^verbatim>\<open>sys.exit\<close> is the error \<open>SystemExit\<close>. Python
  integers are \<open>int\<close>; a loop with an early \<^verbatim>\<open>return\<close> is a recursive function
  over the list it visits, with the guards of the source in the source's order.
  The blocks of \<^verbatim>\<open>main\<close> that have no name in the source are named after what
  they do (\<open>gravity\<close>, \<open>key_left\<close>, \<open>resolve_lock\<close>, \<dots>). What \<^verbatim>\<open>main\<close> gets
  from pygame and from the random generator is an argument: \<open>tick_ms\<close>,
  \<open>events\<close>, \<open>pressed\<close> and \<open>draw\<close>, with \<open>randrange n r = r mod n\<close> for
  \<^verbatim>\<open>random.randrange(n)\<close>; the width of a rendered text is the argument
  \<open>get_width\<close>. What the program sends to pygame is a value: each drawing
  routine returns the surface with its calls appended, in the order of the
  source. \<^verbatim>\<open>main\<close> and \<^verbatim>\<open>game_over\<close> call each other and never return, so the
  program is a state machine on the loop that is running: \<open>step\<close> is one pass of
  it, and \<open>depth\<close> counts the calls that are still open.

  \<^bold>\<open>What the lemmas show.\<close> For each component: its invariant and that every
  operation keeps it; the equivalence of each loop with a declarative
  specification; every error branch. The central results:
  \<^item> \<open>clear_rows\<close> moves the cells inside the dictionary it iterates over;
    visiting the keys in descending order of \<open>y\<close> makes this equal to computing
    the new board in one step from the old one (\<open>clear_rows_refines_compact\<close>),
    and no \<^verbatim>\<open>KeyError\<close> escapes;
  \<^item> one pass of the loop of \<^verbatim>\<open>main\<close> returns (the hard drop terminates), with
    \<open>SystemExit\<close> when the events ask for it and with a session otherwise
    (\<open>frame_returns\<close>), and keeps the invariant of the session
    (\<open>frame_keeps_session_ok\<close>); every reachable session satisfies it
    (\<open>reachable_session_ok\<close>, by rule induction);
  \<^item> the whole program never hangs and never ends by another exception than
    \<open>SystemExit\<close>, on any inputs (\<open>program_never_crashes\<close>); it ends only on
    request (\<open>exit_only_on_request\<close>) and a restart begins a fresh game one call
    deeper (\<open>restart_is_fresh\<close>); the sessions the program plays are the
    reachable sessions (\<open>program_reachable\<close>), and a pass of the session follows
    the state machine of the specification (\<open>pass_follows_lifecycle\<close>);
  \<^item> a game that is left alone ends, at whatever moment the player leaves it:
    the piece of a reachable session is in a valid position or in the row where
    it was created (\<open>reachable_steady\<close>), the variant \<open>passes_left\<close> decreases in
    every quiet pass (\<open>quiet_pass_progress\<close>), so the loop of \<^verbatim>\<open>main\<close> is left after
    at most \<open>passes_left\<close> passes (\<open>quiet_game_ends\<close>), which is 477 for a new
    game and never more than 1209 (\<open>reachable_bound\<close>), and the program reaches
    the game-over screen (\<open>abandoned_program_reaches_game_over\<close>). These passes
    take half a second each, so that gravity acts in every pass. At the speed
    of the real loop, 16 ms a pass or more, a pass either lets gravity act or
    brings the fall timer 16 ms nearer to the fall speed; the variant
    \<open>frames_left\<close> counts both, and the program is on the game-over screen
    after 39929 passes at most, from wherever the player leaves it
    (\<open>unattended_program_reaches_game_over\<close>);
  \<^item> the window shows the game: \<open>draw_window\<close> refines the grid
    (\<open>draw_window_shows_grid\<close>), so that after every pass the filled squares
    are the locked cells and the piece (\<open>pass_shows_board\<close>), and it stays inside
    the window (\<open>draw_window_in_window\<close>);
  \<^item> the key blocks of \<^verbatim>\<open>main\<close> are equivalent to submitting intents to the engine
    (\<open>handle_keys_intents\<close>);
  \<^item> no move puts the piece into a wall or onto a locked cell
    (\<open>moves_keep_valid\<close>), a lock clears at most four rows
    (\<open>lock_clears_at_most_four\<close>), the game ends by a loss and by nothing else
    (\<open>reachable_run_iff_not_lost\<close>);
  \<^item> the laws of the situations in which the code departs from the
    specification or from what one expects of the game: a piece is locked by
    the tick after the last one that moved it (\<open>fall_then_lock\<close>), a piece that
    gravity could not lower is locked where the keys of the same pass leave it
    (\<open>lock_in_mid_air\<close>), the hard drop of a piece that is not in a valid
    position moves it up (\<open>hard_drop_moves_up\<close>), cells above the top of the grid
    are stored (\<open>lock_piece_above_top\<close>), I, S and Z have two orientations
    (\<open>rotation_states_repeat\<close>), the game-over screen is centred on the play
    area (\<open>game_over_hint_cut_off\<close>).

  \<^bold>\<open>Bounds.\<close> Integers are unbounded as in Python, and the board may hold
  keys above the top of the grid (the source writes them). No definition takes
  fuel: the one loop that may not end, the hard drop, is a \<open>partial_function\<close>
  in the option monad, and \<open>drop_loop_terminates\<close> shows that it returns for
  every piece that satisfies \<open>piece_ok\<close>; for a record that is no piece of the
  catalogue (no cells) it would not return. The loops of \<^verbatim>\<open>main\<close> and \<^verbatim>\<open>game_over\<close>
  run as long as the list of inputs lasts. The bound of the quiet game is the
  variant \<open>passes_left\<close>: six for every unit of the imbalance of the board above
  \<open>-76\<close> (a board that is not lost has at most 76 cells in the columns 4 to 7
  and at most 114 outside them), 48 while the piece is not in the column where
  pieces are created, and 21 for the fall of the piece. It is 477 for a new
  game and at most \<open>6 * 190 + 48 + 21 = 1209\<close>; it is an upper bound, not the
  exact length. \<open>frames_left\<close> is 33 times \<open>passes_left\<close> plus the number of
  intervals of 16 ms that the fall timer is short of the fall speed, 32 at
  most because the fall speed is half a second at most: at most
  \<open>33 * 1209 + 32 = 39929\<close>. \<open>tick_ms\<close> may be any natural number; the claims
  on quiet and unattended passes state the lower bound they need, and 16 is
  what \<^verbatim>\<open>clock.tick(60)\<close> guarantees. The fall timer, the cooldown and the fall speed are real
  numbers: the rounding of Python's floats is not modelled, so a comparison
  such as \<^verbatim>\<open>fall_time >= fall_speed\<close> is decided on the exact sums. The depth of
  the call stack is a natural number without a limit: the limit of the
  interpreter (1000 frames by default) is a setting, not part of the program.

  \<^bold>\<open>Not modelled.\<close> pygame and the random generator (libraries): what they
  return is an input of the model, and what they do with a call (the pixels of
  a line, a rectangle or a rendered text, the clock) is outside it, so the
  lemmas on drawing speak of the calls and their arguments; \<^verbatim>\<open>pygame.time.Clock()\<close>
  and the \<^verbatim>\<open>clock.tick(30)\<close> of the waiting loop have no counterpart. The
  \<^verbatim>\<open>RecursionError\<close> that the interpreter raises when the call stack is full.
  The \<^verbatim>\<open>IndexError\<close> of a subscript into a grid or a rotation table of the wrong
  size: \<^verbatim>\<open>grid[y][x]\<close> and \<^verbatim>\<open>shape[rotation % 4]\<close> are the total \<open>!\<close> of lists, which
  agrees with Python on the grids the program builds (\<open>grid_ok\<close>, twenty rows
  of ten cells) and on the pieces of the catalogue (\<open>piece_ok\<close>), the only ones
  the claims speak of; \<open>clear_rows_never_raises\<close> is a claim about the
  \<^verbatim>\<open>KeyError\<close> of the dictionary. The distribution of \<^verbatim>\<open>random.randrange\<close>: only its
  range is modelled. The types \<open>key\<close>, \<open>event\<close>, \<open>choice\<close>, \<open>font\<close> and \<open>call\<close>
  name the values of pygame that the code mentions; the lines that use them
  are translated by the operations.

  Line 98 of the source holds a literal backslash-n between the class header
  and the constructor; the model reads it as the line break it was meant to be.
\<close>

section \<open>Properties that span components\<close>

text \<open>Example data: what a pass reads when nobody plays and the loop runs at 60
  passes a second; a board whose bottom row lacks the four cells an I piece
  fills.\<close>

definition frame_60 :: input where
  "frame_60 = \<lparr>tick_ms = 16, events = [], pressed = [], draw = 3\<rparr>"

definition nearly_full :: locked where
  "nearly_full = map (\<lambda>x. ((x, 19), COLOR_T)) [0, 1, 2, 3, 8, 9]"


text \<open>C27: locking a piece that is in a valid position keeps the board
  invariant and overwrites no cell of the grid: every entry of the dictionary
  that is not above the top of the grid keeps its colour.\<close>

theorem lock_valid_piece:
  assumes "board_ok locked" and "piece_ok p" and "valid_space p (create_grid locked)"
  shows "board_ok (lock_piece p locked) \<and>
         list_all (\<lambda>(pos, c). 0 \<le> snd pos \<longrightarrow> cell_of (lock_piece p locked) pos = c) locked"
proof -
  from assms(3) have "list_all in_walls (get_cells p)"
    by (simp add: in_bounds_iff [symmetric] valid_space_in_bounds)
  with assms(1,2) have "board_ok (lock_piece p locked)"
    by (rule board_ok_lock_piece)
  moreover have "cell_of (lock_piece p locked) pos = c"
    if "(pos, c) \<in> set locked" "0 \<le> snd pos" for pos c
  proof -
    from that assms(1,3) have "pos \<notin> set (get_cells p)"
      by (force simp: valid_space_create_grid list_all_iff)
    moreover from that(1) assms(1) have "map_of locked pos = Some c"
      by (simp add: board_okD)
    ultimately show ?thesis
      by (simp add: cell_of_def map_of_lock_piece)
  qed
  ultimately show ?thesis by (auto simp: list_all_iff)
qed

theorem lock_valid_piece_witness:
  "board_ok one_cell_board \<and> piece_ok wall_T \<and> valid_space wall_T (create_grid one_cell_board) \<and>
   board_ok (lock_piece wall_T one_cell_board) \<and>
   cell_of (lock_piece wall_T one_cell_board) (0, 7) = COLOR_I"
proof -
  have "valid_space wall_T (create_grid one_cell_board)" by code_simp
  moreover have "list_all P one_cell_board = P ((0, 7), COLOR_I)" for P
    by (simp add: one_cell_board_def)
  ultimately show ?thesis
    using lock_valid_piece [OF board_ok_one_cell_board piece_ok_wall_T]
    by (simp add: board_ok_one_cell_board piece_ok_wall_T)
qed

text \<open>The grid that \<open>compose_grid\<close> draws, the board with the current
  piece painted on it, is the grid of the board with the piece locked.\<close>

lemma compose_grid_shows_lock:
  assumes "dict_wf (locked_positions s)"
  shows "grid (compose_grid s) = create_grid (lock_piece (current_piece s) (locked_positions s))"
  using assms by (simp add: paint_piece_create_grid)

lemma compose_grid_shows_lock_witness:
  "dict_wf (locked_positions demo_start) \<and>
   grid (compose_grid demo_start) =
     create_grid (lock_piece (current_piece demo_start) (locked_positions demo_start))"
  using compose_grid_shows_lock [of demo_start] by (simp add: demo_start_def)

text \<open>C14: in the lock resolution \<open>clear_rows\<close> is given the grid with the
  piece painted on it and the dictionary with the piece locked. On a board of
  a running session it clears at most four rows, so that the score table
  \<open>score_for\<close> awards 0, 100, 300, 500 or 800 by the number of rows, and it leaves
  a board without a full row.\<close>

theorem lock_clears_at_most_four:
  assumes "board_ok locked" and "full_rows locked = []" and "\<not> check_lost locked"
    and "placed p"
  shows "\<exists>n locked'. clear_rows (paint_piece p (create_grid locked)) (lock_piece p locked) =
             Inr (int n, locked') \<and>
           n \<le> 4 \<and> score_for (int n) = [0, 100, 300, 500, 800] ! n \<and>
           board_ok locked' \<and> full_rows locked' = []"
proof -
  let ?n = "length (full_rows (lock_piece p locked))"
  from assms(2,4) have n: "?n \<le> 4"
    by (simp add: full_rows_lock_piece placed_def)
  then have "?n = 0 \<or> ?n = 1 \<or> ?n = 2 \<or> ?n = 3 \<or> ?n = 4" by arith
  then have "score_for (int ?n) = [0, 100, 300, 500, 800] ! ?n"
    by (auto simp: score_for_def)
  with clear_rows_after_lock [OF assms(1,4,3)] n show ?thesis by blast
qed

theorem lock_clears_at_most_four_witness:
  "board_ok nearly_full \<and> full_rows nearly_full = [] \<and> \<not> check_lost nearly_full \<and>
   placed (lowered spawn_I 19) \<and>
   (\<exists>n locked'. clear_rows (paint_piece (lowered spawn_I 19) (create_grid nearly_full))
        (lock_piece (lowered spawn_I 19) nearly_full) = Inr (int n, locked') \<and>
      n \<le> 4 \<and> score_for (int n) = [0, 100, 300, 500, 800] ! n \<and>
      board_ok locked' \<and> full_rows locked' = [])"
proof -
  have 1: "board_ok nearly_full"
    by (simp add: nearly_full_def board_ok_def in_walls_def game_consts color_defs)
  have 2: "full_rows nearly_full = []" "\<not> check_lost nearly_full" by code_simp+
  have "in_bounds (lowered spawn_I 19)" by code_simp
  moreover have "piece_ok spawn_I"
    using session_ok_demo_start
    by (simp add: session_ok_def session_inv_def placed_def demo_start_def)
  ultimately have 3: "placed (lowered spawn_I 19)" by (simp add: placed_def)
  from lock_clears_at_most_four [OF 1 2 3] 1 2 3 show ?thesis by simp
qed

text \<open>C32: in every session \<^verbatim>\<open>main\<close> can reach, the flag \<open>run\<close> is set exactly
  when every locked cell lies below the top row of the grid: the game ends by a
  loss and by nothing else.\<close>

theorem reachable_run_iff_not_lost:
  assumes "reachable s"
  shows "run s \<longleftrightarrow> list_all (\<lambda>pos. 1 \<le> snd pos) (dict_keys (locked_positions s))"
  using reachable_invariant [OF assms]
  by (auto simp: session_ok_def check_lost_iff list_all_iff dict_keys_def not_less)

theorem reachable_run_iff_not_lost_witness:
  "reachable demo_fallen \<and>
   run demo_fallen = list_all (\<lambda>pos. 1 \<le> snd pos) (dict_keys (locked_positions demo_fallen))"
  using reachable_run_iff_not_lost [OF reachable_demo_fallen] by (simp add: reachable_demo_fallen)

text \<open>In every session \<^verbatim>\<open>main\<close> can reach, between two passes of the
  loop, no row of the grid is full.\<close>

lemma reachable_no_full_row:
  assumes "reachable s"
  shows "rows_to_clear (create_grid (locked_positions s)) = []"
  using reachable_invariant [OF assms]
  by (simp add: session_ok_def session_inv_def rows_to_clear_create_grid)

lemma reachable_no_full_row_witness:
  "reachable demo_fallen \<and> rows_to_clear (create_grid (locked_positions demo_fallen)) = []"
  using reachable_no_full_row [OF reachable_demo_fallen] by (simp add: reachable_demo_fallen)

text \<open>The program under passes without events: the game-over screen stays, and
  a game ends when every pass decreases a variant \<open>m\<close> of the session.\<close>

lemma waiting_still:
  "phase p = Game_over sc \<Longrightarrow> list_all (\<lambda>a. events (fst a) = []) inputs \<Longrightarrow>
   run_program gw inputs p = Some p"
  by (induction inputs) (auto simp: step_def wait_pass_def)

lemma variant_program:
  assumes progress: "\<And>s i. steady s \<Longrightarrow> run s \<Longrightarrow> Q i \<Longrightarrow>
      \<exists>s'. frame i s = Some (Inr s') \<and> steady s' \<and> m s' < (m s :: nat)"
    and positive: "\<And>s. steady s \<Longrightarrow> run s \<Longrightarrow> 0 < m s"
    and still: "\<And>i. Q i \<Longrightarrow> events i = []"
  shows "program_ok p \<Longrightarrow> phase p = Playing s \<Longrightarrow> steady s \<Longrightarrow>
         list_all (\<lambda>a. Q (fst a)) inputs \<Longrightarrow> m s \<le> length inputs \<Longrightarrow>
         \<exists>p' sc. run_program gw inputs p = Some p' \<and> phase p' = Game_over sc"
proof (induction inputs arbitrary: p s)
  case Nil
  then have "run s" by (simp add: program_ok_def)
  with positive [OF Nil.prems(3)] Nil.prems(5) show ?case by simp
next
  case (Cons a inputs)
  obtain i r2 where a: "a = (i, r2)" by (cases a)
  with Cons.prems(4) have q: "Q i" "list_all (\<lambda>a. Q (fst a)) inputs" by simp_all
  from Cons.prems(1,2) have s: "session_ok s" "run s" by (simp_all add: program_ok_def)
  from still [OF q(1)] have ev: "\<not> list_ex exits (events i)" by simp
  from progress [OF Cons.prems(3) s(2) q(1)] obtain s' where
    s': "frame i s = Some (Inr s')" "steady s'" "m s' < m s"
    by blast
  from play_pass_step [OF s ev, of gw p] s'(1) obtain t where pp: "play_pass gw i p s =
      Some (if run s' then p\<lparr>phase := Playing s', window := show_session (window p) t\<rparr>
            else enter_game_over gw (show_session (window p) t) (depth p) (score s'))"
    by auto
  with Cons.prems(2) s(2) have st: "step gw i r2 p =
      Some (if run s' then p\<lparr>phase := Playing s', window := show_session (window p) t\<rparr>
            else enter_game_over gw (show_session (window p) t) (depth p) (score s'))"
    by (simp add: step_def)
  show ?case
  proof (cases "run s'")
    case True
    let ?p = "p\<lparr>phase := Playing s', window := show_session (window p) t\<rparr>"
    from step_program_ok [OF Cons.prems(1), of gw i r2] st True have "program_ok ?p" by simp
    from Cons.IH [OF this _ s'(2) q(2)] s'(3) Cons.prems(5) st True a show ?thesis
      by simp
  next
    case False
    from q(2) still have "list_all (\<lambda>a. events (fst a) = []) inputs"
      by (simp add: list_all_iff)
    with st a False waiting_still [where gw = gw and sc = "score s'"] show ?thesis
      by (simp add: enter_game_over_def)
  qed
qed

lemma quiet_program:
  "program_ok p \<Longrightarrow> phase p = Playing s \<Longrightarrow> steady s \<Longrightarrow>
   list_all (\<lambda>a. quiet (fst a)) inputs \<Longrightarrow> passes_left s \<le> length inputs \<Longrightarrow>
   \<exists>p' sc. run_program gw inputs p = Some p' \<and> phase p' = Game_over sc"
  by (rule variant_program [of quiet passes_left])
    (simp_all add: quiet_pass steady_positive quiet_def)

lemma unattended_program:
  "program_ok p \<Longrightarrow> phase p = Playing s \<Longrightarrow> steady s \<Longrightarrow>
   list_all (\<lambda>a. unattended (fst a)) inputs \<Longrightarrow> frames_left s \<le> length inputs \<Longrightarrow>
   \<exists>p' sc. run_program gw inputs p = Some p' \<and> phase p' = Game_over sc"
  by (rule variant_program [of unattended frames_left])
    (simp_all add: unattended_pass frames_left_positive unattended_def)

text \<open>C18: What the player sees after a pass of the loop of \<^verbatim>\<open>main\<close> is the board and the
  piece: on the surface that \<open>draw_window\<close> and \<^verbatim>\<open>pygame.display.update\<close> leave, the
  square of every cell of the piece, where the moves of the pass have put it,
  is filled with the colour of the piece, the square of every other locked
  cell with the colour the dictionary holds for it, and no other square of
  the grid is filled.\<close>

theorem pass_shows_board:
  assumes "session_ok s" and "moves i s = Some (Inr t)" and "in_grid pos"
  shows "block_shown (show_session w t) pos =
           (if pos \<in> set (get_cells (current_piece t)) then Some (color (current_piece t))
            else map_of (locked_positions s) pos)"
proof -
  have ev: "\<not> list_ex exits (events i)"
    using assms(2) moves_exit [of i s] by auto
  from assms(1) have "session_inv s" by (simp add: session_ok_def)
  from moves_step [OF this ev] assms(2) have t: "same_game s t"
    "grid t = paint_piece (current_piece t) (create_grid (locked_positions t))"
    by simp_all
  then have "board_ok (locked_positions t)" "piece_ok (current_piece t)"
    "locked_positions t = locked_positions s"
    by (auto simp: same_game_def session_inv_def placed_def)
  with show_session_board [OF _ _ t(2) assms(3), of w] show ?thesis by simp
qed

theorem pass_shows_board_witness:
  "block_shown (show_session [] demo_fallen) (5, 1) = Some COLOR_I \<and>
   block_shown (show_session [] demo_fallen) (5, 2) = None"
  using pass_shows_board [OF session_ok_demo_start moves_idle_demo_start, of "(5, 1)" "[]"]
    pass_shows_board [OF session_ok_demo_start moves_idle_demo_start, of "(5, 2)" "[]"]
  by (simp add: in_grid_def game_consts demo_fallen_def demo_start_def lowered_def spawn_I_def
      get_cells_def shape_I_def)

text \<open>C22: A program that is left alone reaches the game-over screen: when no pass
  brings an event or a held key and every pass takes at least half a second,
  the program is on the game-over screen after 477 passes at most, whatever
  pieces are drawn, and it stays there.\<close>

theorem abandoned_program_reaches_game_over:
  assumes "list_all (\<lambda>a. quiet (fst a)) inputs" and "477 \<le> length inputs"
  shows "\<exists>p sc. run_program gw inputs (program_start r1 r2) = Some p \<and> phase p = Game_over sc"
proof -
  from start_main_ok [of 0 "[]" r1 r2] obtain s where s: "init_session r1 r2 = Inr s"
    "phase (program_start r1 r2) = Playing s"
    by (auto simp: program_start_def)
  from steady_init_session [OF s(1)] assms(2) have "steady s" "passes_left s \<le> length inputs"
    by simp_all
  with quiet_program [OF program_start_ok s(2) _ assms(1)] show ?thesis by blast
qed

theorem abandoned_program_reaches_game_over_witness:
  "\<exists>p sc. run_program seven_wide (replicate 477 (idle, 0)) (program_start 0 2) = Some p \<and>
     phase p = Game_over sc"
  using abandoned_program_reaches_game_over [of "replicate 477 (idle, 0)" seven_wide 0 2]
  by (simp add: list_all_iff)

text \<open>C19: A program that the player walks away from reaches the game-over
  screen, at the speed of the real loop and from wherever the game stands:
  after any inputs that did not end the program, when from then on no pass
  brings an event or a held key and every pass takes 16 ms or more, as
  \<^verbatim>\<open>clock.tick(60)\<close> makes it, the program is on the game-over screen after
  39929 passes at most (33 for each of the at most 1209 steps of gravity that
  are left, and 32 for the first one), whatever pieces are drawn.\<close>

theorem unattended_program_reaches_game_over:
  assumes "run_program gw played (program_start r1 r2) = Some p" and "\<not> is_exited p"
    and "list_all (\<lambda>a. unattended (fst a)) inputs" and "39929 \<le> length inputs"
  shows "\<exists>p' sc. run_program gw inputs p = Some p' \<and> phase p' = Game_over sc"
proof (cases "phase p")
  case (Playing s)
  from run_program_ok [OF program_start_ok, of gw played r1 r2] assms(1)
  have ok: "program_ok p" by simp
  from assms(1) Playing have "steady s" by (intro reachable_steady program_reachable)
  with unattended_program [OF ok Playing _ assms(3)] frames_left_bound [of s] assms(4)
  show ?thesis by simp
next
  case (Game_over sc)
  from assms(3) have "list_all (\<lambda>a. events (fst a) = []) inputs"
    by (simp add: list_all_iff unattended_def)
  with Game_over waiting_still [of p sc inputs gw] show ?thesis by simp
next
  case (Exited e)
  with assms(2) show ?thesis by (simp add: is_exited_def)
qed

theorem unattended_program_reaches_game_over_witness:
  "\<exists>p sc. run_program seven_wide (replicate 39929 (frame_60, 0)) (program_start 0 2) = Some p \<and>
     phase p = Game_over sc"
proof -
  have "\<not> is_exited (program_start 0 2)"
    by (simp add: program_start_def start_main_def init_demo_start is_exited_def)
  from unattended_program_reaches_game_over [of seven_wide "[]" 0 2 _ "replicate 39929 (frame_60, 0)",
      OF _ this]
  show ?thesis by (simp add: list_all_iff unattended_def frame_60_def)
qed

end
